theory Spec2Isabelle
  imports Main
begin

section \<open>The render-graph scheduler of SceneGraph2.ts\<close>

text \<open>
  A shallow embedding of \<^verbatim>\<open>src/SuperMarioGalaxy/SceneGraph2.ts\<close>: the graph builder
  (\<^verbatim>\<open>SceneGraphBuilder\<close>), the two resource pools and the scheduler and executor
  (\<^verbatim>\<open>SceneGraphExecutor\<close>). Mutation is explicit state passing; every failed
  \<^verbatim>\<open>assert\<close>/\<^verbatim>\<open>assertExists\<close> and every property read on \<^verbatim>\<open>null\<close>/\<^verbatim>\<open>undefined\<close> is the
  left summand of the result.
\<close>

subsection \<open>Errors\<close>

datatype error = AssertionFailed | TypeError

text \<open>
  Modelled from the spec: \<^verbatim>\<open>assert\<close> and \<^verbatim>\<open>assertExists\<close> are imported from \<^verbatim>\<open>../util\<close>,
  which is not among the sources. The spec calls every violated invariant a fatal
  assertion: \<^verbatim>\<open>assert(b)\<close> throws unless \<^verbatim>\<open>b\<close>, \<^verbatim>\<open>assertExists(v)\<close> throws when \<^verbatim>\<open>v\<close> is
  \<^verbatim>\<open>null\<close> or \<^verbatim>\<open>undefined\<close> and returns \<^verbatim>\<open>v\<close> otherwise.
\<close>

definition assert :: "bool \<Rightarrow> error + unit" where
  "assert b = (if b then Inr () else Inl AssertionFailed)"

definition assertExists :: "'a option \<Rightarrow> error + 'a" where
  "assertExists v = (case v of None \<Rightarrow> Inl AssertionFailed | Some x \<Rightarrow> Inr x)"

text \<open>Sequencing: a thrown error skips the rest of the statements.\<close>

definition bind_err :: "error + 'a \<Rightarrow> ('a \<Rightarrow> error + 'b) \<Rightarrow> error + 'b" where
  "bind_err m f = (case m of Inl e \<Rightarrow> Inl e | Inr x \<Rightarrow> f x)"

subsection \<open>JavaScript arrays\<close>

text \<open>
  A JavaScript array of \<^verbatim>\<open>T\<close> that can have holes is a list of \<open>T option\<close>: \<open>None\<close> is a
  hole or a stored \<^verbatim>\<open>undefined\<close>. Reading past the end gives \<^verbatim>\<open>undefined\<close>, writing past
  the end extends the array with holes, \<^verbatim>\<open>delete\<close> leaves a hole and keeps the length.
\<close>

definition js_get :: "'a option list \<Rightarrow> nat \<Rightarrow> 'a option" where
  "js_get xs i = (if i < length xs then xs ! i else None)"

definition js_put :: "'a option list \<Rightarrow> nat \<Rightarrow> 'a option \<Rightarrow> 'a option list" where
  "js_put xs i v =
     (if i < length xs then xs[i := v] else xs @ replicate (i - length xs) None @ [v])"

definition js_set :: "'a option list \<Rightarrow> nat \<Rightarrow> 'a \<Rightarrow> 'a option list" where
  "js_set xs i v = js_put xs i (Some v)"

definition js_delete :: "'a option list \<Rightarrow> nat \<Rightarrow> 'a option list" where
  "js_delete xs i = (if i < length xs then xs[i := None] else xs)"

text \<open>Reading a dense array (one only ever grown by \<^verbatim>\<open>push\<close>) at any index.\<close>

definition nth_opt :: "'a list \<Rightarrow> nat \<Rightarrow> 'a option" where
  "nth_opt xs i = (if i < length xs then Some (xs ! i) else None)"

text \<open>\<^verbatim>\<open>Array.prototype.indexOf\<close>: the first index holding the value, if any.\<close>

fun indexOf :: "'a list \<Rightarrow> 'a \<Rightarrow> nat option" where
  "indexOf [] v = None"
| "indexOf (x # xs) v = (if x = v then Some 0 else map_option Suc (indexOf xs v))"

text \<open>
  The use-count arrays hold JavaScript numbers. \<open>Some n\<close> is the number \<open>n\<close>; \<open>None\<close> is
  \<^verbatim>\<open>undefined\<close> or \<^verbatim>\<open>NaN\<close>, which the code cannot tell apart: \<^verbatim>\<open>undefined++\<close> and \<^verbatim>\<open>NaN++\<close>
  store \<^verbatim>\<open>NaN\<close>, and \<^verbatim>\<open>> 0\<close> and \<^verbatim>\<open>=== 0\<close> are false on both. A count is only decremented
  after an assertion that it is positive, so it never goes below zero.
\<close>

definition js_incr :: "nat option list \<Rightarrow> nat \<Rightarrow> nat option list" where
  "js_incr xs i = js_put xs i (map_option Suc (js_get xs i))"

definition js_decr :: "nat option list \<Rightarrow> nat \<Rightarrow> nat option list" where
  "js_decr xs i = js_put xs i (map_option (\<lambda>n. n - 1) (js_get xs i))"

definition positive :: "nat option \<Rightarrow> bool" where
  "positive c = (case c of None \<Rightarrow> False | Some n \<Rightarrow> 0 < n)"

subsection \<open>The graph: descriptions, passes\<close>

text \<open>
  \<^verbatim>\<open>GfxFormat\<close> is an enumeration; \<^verbatim>\<open>GfxTexture\<close> and \<^verbatim>\<open>GfxAttachment\<close> are opaque
  device objects, here the handle the device gave out. The scheduler only copies clear
  values, it never computes with them: a colour is four channel values, coded as naturals.
\<close>

type_synonym GfxFormat = nat
type_synonym GfxTexture = nat
type_synonym GfxAttachment = nat
type_synonym Color = "nat \<times> nat \<times> nat \<times> nat"

datatype 'a clearValue = Load | Clear 'a

record RenderTargetDescription =
  desc_debugName :: string
  desc_pixelFormat :: GfxFormat
  desc_width :: nat
  desc_height :: nat
  desc_numSamples :: nat
  desc_colorClearColor :: "Color clearValue"
  desc_depthClearValue :: "nat clearValue"
  desc_stencilClearValue :: "nat clearValue"

datatype RenderTargetAttachmentSlot = Color0 | DepthStencil

fun slotIndex :: "RenderTargetAttachmentSlot \<Rightarrow> nat" where
  "slotIndex Color0 = 0"
| "slotIndex DepthStencil = 1"

record GfxRenderPassDescriptor =
  colorAttachment :: "GfxAttachment option"
  colorResolveTo :: "GfxTexture option"
  depthStencilAttachment :: "GfxAttachment option"
  depthStencilResolveTo :: "GfxTexture option"
  colorClearColor :: "Color clearValue"
  depthClearValue :: "nat clearValue"
  stencilClearValue :: "nat clearValue"

text \<open>
  The callback of a pass gets the render pass and the scope. Of these the model keeps the
  scope's \<^verbatim>\<open>getResolveTextureForID\<close>: a callback is a function of that lookup, and it
  may throw. The normalised viewport of a pass and the pixel viewport computed from it
  (floating-point products that no other step reads) are left out of the pass.
\<close>

type_synonym SceneGraphPassExecFunc = "(nat \<Rightarrow> error + GfxTexture) \<Rightarrow> error + unit"

record SceneGraphPassImpl =
  renderTargetIDs :: "nat option list"
  resolveTextureOutputIDs :: "nat option list"
  resolveTextureInputIDs :: "nat list"
  doPresent :: bool
  resolveTextureInputTextures :: "GfxTexture option list"
  descriptor :: GfxRenderPassDescriptor
  func :: "SceneGraphPassExecFunc option"
  pass_debugName :: "string option"

definition newDescriptor :: GfxRenderPassDescriptor where
  "newDescriptor =
     \<lparr> colorAttachment = None, colorResolveTo = None,
       depthStencilAttachment = None, depthStencilResolveTo = None,
       colorClearColor = Load, depthClearValue = Load, stencilClearValue = Load \<rparr>"

definition newPass :: SceneGraphPassImpl where
  "newPass =
     \<lparr> renderTargetIDs = [], resolveTextureOutputIDs = [], resolveTextureInputIDs = [],
       doPresent = False, resolveTextureInputTextures = [], descriptor = newDescriptor,
       func = None, pass_debugName = None \<rparr>"

definition setDebugName :: "string \<Rightarrow> SceneGraphPassImpl \<Rightarrow> SceneGraphPassImpl" where
  "setDebugName n p = p\<lparr>pass_debugName := Some n\<rparr>"

definition attachRenderTargetID ::
    "RenderTargetAttachmentSlot \<Rightarrow> nat \<Rightarrow> SceneGraphPassImpl \<Rightarrow> error + SceneGraphPassImpl" where
  "attachRenderTargetID attachmentSlot renderTargetID p =
     bind_err (assert (js_get (renderTargetIDs p) (slotIndex attachmentSlot) = None)) (\<lambda>_.
       Inr (p\<lparr>renderTargetIDs :=
                js_set (renderTargetIDs p) (slotIndex attachmentSlot) renderTargetID\<rparr>))"

definition attachResolveTexture :: "nat \<Rightarrow> SceneGraphPassImpl \<Rightarrow> SceneGraphPassImpl" where
  "attachResolveTexture resolveTextureID p =
     p\<lparr>resolveTextureInputIDs := resolveTextureInputIDs p @ [resolveTextureID]\<rparr>"

definition exec ::
    "SceneGraphPassExecFunc \<Rightarrow> SceneGraphPassImpl \<Rightarrow> error + SceneGraphPassImpl" where
  "exec f p = bind_err (assert (func p = None)) (\<lambda>_. Inr (p\<lparr>func := Some f\<rparr>))"

definition present :: "SceneGraphPassImpl \<Rightarrow> SceneGraphPassImpl" where
  "present p = p\<lparr>doPresent := True\<rparr>"

record SceneGraph =
  renderTargetDescriptions :: "RenderTargetDescription list"
  resolveTextureRenderTargetIDs :: "nat list"
  passes :: "SceneGraphPassImpl list"

definition newSceneGraph :: SceneGraph where
  "newSceneGraph =
     \<lparr> renderTargetDescriptions = [], resolveTextureRenderTargetIDs = [], passes = [] \<rparr>"

subsection \<open>The builder\<close>

text \<open>
  Every method that reads \<^verbatim>\<open>this.currentGraph!\<close> throws a \<^verbatim>\<open>TypeError\<close> when no graph is
  under construction. \<^verbatim>\<open>begin\<close> checks nothing. A setup callback is a function on the
  new pass that may fail (by \<^verbatim>\<open>attachRenderTargetID\<close> or \<^verbatim>\<open>exec\<close>).
\<close>

record SceneGraphBuilder =
  currentGraph :: "SceneGraph option"

definition begin_graph :: "SceneGraphBuilder \<Rightarrow> error + SceneGraphBuilder" where
  "begin_graph b = Inr (b\<lparr>currentGraph := Some newSceneGraph\<rparr>)"

definition end_graph :: "SceneGraphBuilder \<Rightarrow> error + (SceneGraph \<times> SceneGraphBuilder)" where
  "end_graph b =
     bind_err (assertExists (currentGraph b)) (\<lambda>sceneGraph.
       Inr (sceneGraph, b\<lparr>currentGraph := None\<rparr>))"

definition pushPass ::
    "(SceneGraphPassImpl \<Rightarrow> error + SceneGraphPassImpl) \<Rightarrow> SceneGraphBuilder
      \<Rightarrow> error + SceneGraphBuilder" where
  "pushPass setupFunc b =
     bind_err (setupFunc newPass) (\<lambda>pass.
       case currentGraph b of
         None \<Rightarrow> Inl TypeError
       | Some g \<Rightarrow> Inr (b\<lparr>currentGraph := Some (g\<lparr>passes := passes g @ [pass]\<rparr>)\<rparr>))"

definition createRenderTargetID ::
    "RenderTargetDescription \<Rightarrow> SceneGraphBuilder \<Rightarrow> error + (nat \<times> SceneGraphBuilder)" where
  "createRenderTargetID desc b =
     (case currentGraph b of
        None \<Rightarrow> Inl TypeError
      | Some g \<Rightarrow>
          Inr (length (renderTargetDescriptions g),
               b\<lparr>currentGraph :=
                    Some (g\<lparr>renderTargetDescriptions := renderTargetDescriptions g @ [desc]\<rparr>)\<rparr>))"

definition createResolveTextureID :: "nat \<Rightarrow> SceneGraph \<Rightarrow> nat \<times> SceneGraph" where
  "createResolveTextureID renderTargetID g =
     (length (resolveTextureRenderTargetIDs g),
      g\<lparr>resolveTextureRenderTargetIDs := resolveTextureRenderTargetIDs g @ [renderTargetID]\<rparr>)"

text \<open>
  The backward scan of \<^verbatim>\<open>findLastPassForRenderTarget\<close> over the first \<open>n\<close> passes; it
  returns the index of the pass found. An \<^verbatim>\<open>indexOf\<close> of \<open>-1\<close> (which cannot happen on the
  pass found) would store the copy id under a property that is no array index.
\<close>

fun findLastPassFrom :: "SceneGraphPassImpl list \<Rightarrow> nat \<Rightarrow> nat \<Rightarrow> nat option" where
  "findLastPassFrom ps 0 renderTargetID = None"
| "findLastPassFrom ps (Suc i) renderTargetID =
     (if Some renderTargetID \<in> set (renderTargetIDs (ps ! i)) then Some i
      else findLastPassFrom ps i renderTargetID)"

definition findLastPassForRenderTarget :: "SceneGraph \<Rightarrow> nat \<Rightarrow> nat option" where
  "findLastPassForRenderTarget g renderTargetID =
     findLastPassFrom (passes g) (length (passes g)) renderTargetID"

definition resolveRenderTargetToColorTexture ::
    "nat \<Rightarrow> SceneGraphBuilder \<Rightarrow> error + (nat \<times> SceneGraphBuilder)" where
  "resolveRenderTargetToColorTexture renderTargetID b =
     (case currentGraph b of
        None \<Rightarrow> Inl TypeError
      | Some g0 \<Rightarrow>
          (case createResolveTextureID renderTargetID g0 of (resolveTextureID, g) \<Rightarrow>
             bind_err (assertExists (findLastPassForRenderTarget g renderTargetID)) (\<lambda>i.
               let renderPass = passes g ! i in
               case indexOf (renderTargetIDs renderPass) (Some renderTargetID) of
                 None \<Rightarrow> Inr (resolveTextureID, b\<lparr>currentGraph := Some g\<rparr>)
               | Some attachmentSlot \<Rightarrow>
                   Inr (resolveTextureID,
                        b\<lparr>currentGraph := Some (g\<lparr>passes := (passes g)[i :=
                             renderPass\<lparr>resolveTextureOutputIDs :=
                               js_set (resolveTextureOutputIDs renderPass) attachmentSlot
                                 resolveTextureID\<rparr>]\<rparr>)\<rparr>))))"

subsection \<open>The device\<close>

text \<open>
  Modelled from the spec: \<^verbatim>\<open>GfxDevice\<close> is declared in \<^verbatim>\<open>../gfx/platform/GfxPlatform\<close>,
  which is not among the sources; the spec lists what the scheduler consumes from it
  (\<^verbatim>\<open>create_texture\<close>, \<^verbatim>\<open>create_attachment\<close>, \<^verbatim>\<open>create_attachment_from_texture\<close>,
  \<^verbatim>\<open>destroy_texture\<close>, \<^verbatim>\<open>destroy_attachment\<close>, \<^verbatim>\<open>create_render_pass\<close>, \<^verbatim>\<open>submit_pass\<close>)
  and treats it as opaque. The model is an allocation log: each creation returns a
  handle never given out before, the device remembers which textures and attachments
  are not yet destroyed and which render passes were submitted, in order.
\<close>

record GfxDevice =
  nextHandle :: nat
  liveTextures :: "GfxTexture list"
  liveAttachments :: "GfxAttachment list"
  submittedPasses :: "GfxRenderPassDescriptor list"

definition createTexture :: "GfxDevice \<Rightarrow> GfxTexture \<times> GfxDevice" where
  "createTexture dev =
     (nextHandle dev,
      dev\<lparr>nextHandle := Suc (nextHandle dev),
          liveTextures := liveTextures dev @ [nextHandle dev]\<rparr>)"

definition createAttachment :: "GfxDevice \<Rightarrow> GfxAttachment \<times> GfxDevice" where
  "createAttachment dev =
     (nextHandle dev,
      dev\<lparr>nextHandle := Suc (nextHandle dev),
          liveAttachments := liveAttachments dev @ [nextHandle dev]\<rparr>)"

definition createAttachmentFromTexture ::
    "GfxDevice \<Rightarrow> GfxTexture \<Rightarrow> GfxAttachment \<times> GfxDevice" where
  "createAttachmentFromTexture dev t = createAttachment dev"

definition destroyTexture :: "GfxDevice \<Rightarrow> GfxTexture \<Rightarrow> GfxDevice" where
  "destroyTexture dev t = dev\<lparr>liveTextures := removeAll t (liveTextures dev)\<rparr>"

definition destroyAttachment :: "GfxDevice \<Rightarrow> GfxAttachment \<Rightarrow> GfxDevice" where
  "destroyAttachment dev a = dev\<lparr>liveAttachments := removeAll a (liveAttachments dev)\<rparr>"

definition submitPass :: "GfxDevice \<Rightarrow> GfxRenderPassDescriptor \<Rightarrow> GfxDevice" where
  "submitPass dev d = dev\<lparr>submittedPasses := submittedPasses dev @ [d]\<rparr>"

subsection \<open>Physical resources\<close>

text \<open>
  A \<^verbatim>\<open>RenderTarget\<close> or \<^verbatim>\<open>ResolveTexture\<close> object is held by value. Its device handles
  (\<open>rt_attachment\<close>, \<open>res_texture\<close>) are never reassigned and are given out once by the
  device, so they tell one object from another. A render target is referenced from one
  place at a time (one entry of the alive table, or one entry of the dead pool; the local
  variables of \<^verbatim>\<open>schedulePass\<close> point at alive entries). A resolve texture can be in the
  per-id table and in the dead pool at once, but the only field written afterwards
  (\<open>res_age\<close>, \<open>res_debugName\<close>, by the pool) is never read through the table.
\<close>

record ResolveTexture =
  res_debugName :: string
  res_pixelFormat :: GfxFormat
  res_width :: nat
  res_height :: nat
  res_texture :: GfxTexture
  res_age :: nat

definition newResolveTexture ::
    "GfxDevice \<Rightarrow> RenderTargetDescription \<Rightarrow> ResolveTexture \<times> GfxDevice" where
  "newResolveTexture dev desc =
     (case createTexture dev of (t, dev') \<Rightarrow>
        (\<lparr> res_debugName = desc_debugName desc, res_pixelFormat = desc_pixelFormat desc,
           res_width = desc_width desc, res_height = desc_height desc,
           res_texture = t, res_age = 0 \<rparr>, dev'))"

definition res_matchesDescription :: "ResolveTexture \<Rightarrow> RenderTargetDescription \<Rightarrow> bool" where
  "res_matchesDescription r desc \<longleftrightarrow>
     res_pixelFormat r = desc_pixelFormat desc \<and> res_width r = desc_width desc \<and>
     res_height r = desc_height desc"

definition res_reset :: "ResolveTexture \<Rightarrow> RenderTargetDescription \<Rightarrow> error + ResolveTexture" where
  "res_reset r desc =
     bind_err (assert (res_matchesDescription r desc)) (\<lambda>_.
       Inr (r\<lparr>res_age := 0, res_debugName := desc_debugName desc\<rparr>))"

definition res_destroy :: "GfxDevice \<Rightarrow> ResolveTexture \<Rightarrow> GfxDevice" where
  "res_destroy dev r = destroyTexture dev (res_texture r)"

record RenderTarget =
  rt_debugName :: string
  rt_pixelFormat :: GfxFormat
  rt_width :: nat
  rt_height :: nat
  rt_numSamples :: nat
  rt_needsClear :: bool
  rt_texture :: "GfxTexture option"
  rt_attachment :: GfxAttachment
  rt_age :: nat

definition newRenderTarget ::
    "GfxDevice \<Rightarrow> RenderTargetDescription \<Rightarrow> error + (RenderTarget \<times> GfxDevice)" where
  "newRenderTarget dev desc =
     bind_err (assert (1 \<le> desc_numSamples desc)) (\<lambda>_.
       if 1 < desc_numSamples desc then
         (case createAttachment dev of (a, dev') \<Rightarrow>
            Inr (\<lparr> rt_debugName = desc_debugName desc, rt_pixelFormat = desc_pixelFormat desc,
                   rt_width = desc_width desc, rt_height = desc_height desc,
                   rt_numSamples = desc_numSamples desc, rt_needsClear = True,
                   rt_texture = None, rt_attachment = a, rt_age = 0 \<rparr>, dev'))
       else
         (case createTexture dev of (t, dev1) \<Rightarrow>
          case createAttachmentFromTexture dev1 t of (a, dev2) \<Rightarrow>
            Inr (\<lparr> rt_debugName = desc_debugName desc, rt_pixelFormat = desc_pixelFormat desc,
                   rt_width = desc_width desc, rt_height = desc_height desc,
                   rt_numSamples = desc_numSamples desc, rt_needsClear = True,
                   rt_texture = Some t, rt_attachment = a, rt_age = 0 \<rparr>, dev2)))"

definition rt_matchesDescription :: "RenderTarget \<Rightarrow> RenderTargetDescription \<Rightarrow> bool" where
  "rt_matchesDescription r desc \<longleftrightarrow>
     rt_pixelFormat r = desc_pixelFormat desc \<and> rt_width r = desc_width desc \<and>
     rt_height r = desc_height desc \<and> rt_numSamples r = desc_numSamples desc"

definition rt_destroy :: "GfxDevice \<Rightarrow> RenderTarget \<Rightarrow> GfxDevice" where
  "rt_destroy dev r =
     destroyAttachment
       (case rt_texture r of None \<Rightarrow> dev | Some t \<Rightarrow> destroyTexture dev t)
       (rt_attachment r)"

subsection \<open>The executor: pools\<close>

record SceneGraphExecutor =
  ex_currentGraph :: "SceneGraph option"
  ex_currentGraphPass :: "SceneGraphPassImpl option"
  renderTargetDeadPool :: "RenderTarget list"
  resolveTextureDeadPool :: "ResolveTexture list"
  renderTargetUseCount :: "nat option list"
  resolveTextureUseCount :: "nat option list"
  renderTargetAliveForID :: "RenderTarget option list"
  resolveTextureForID :: "ResolveTexture option list"

definition newSceneGraphExecutor :: SceneGraphExecutor where
  "newSceneGraphExecutor =
     \<lparr> ex_currentGraph = None, ex_currentGraphPass = None,
       renderTargetDeadPool = [], resolveTextureDeadPool = [],
       renderTargetUseCount = [], resolveTextureUseCount = [],
       renderTargetAliveForID = [], resolveTextureForID = [] \<rparr>"

text \<open>
  The scan of a dead pool: the first entry that matches is spliced out and returned with
  the rest of the pool.
\<close>

fun takeFirst :: "('a \<Rightarrow> bool) \<Rightarrow> 'a list \<Rightarrow> ('a \<times> 'a list) option" where
  "takeFirst P [] = None"
| "takeFirst P (x # xs) =
     (if P x then Some (x, xs)
      else (case takeFirst P xs of None \<Rightarrow> None | Some (y, ys) \<Rightarrow> Some (y, x # ys)))"

definition acquireRenderTargetForDescription ::
    "GfxDevice \<Rightarrow> RenderTargetDescription \<Rightarrow> SceneGraphExecutor
      \<Rightarrow> error + (RenderTarget \<times> GfxDevice \<times> SceneGraphExecutor)" where
  "acquireRenderTargetForDescription dev desc ex =
     (case takeFirst (\<lambda>r. rt_matchesDescription r desc) (renderTargetDeadPool ex) of
        Some (freeRenderTarget, rest) \<Rightarrow>
          Inr (freeRenderTarget\<lparr>rt_age := 0\<rparr>, dev, ex\<lparr>renderTargetDeadPool := rest\<rparr>)
      | None \<Rightarrow>
          bind_err (newRenderTarget dev desc) (\<lambda>(r, dev'). Inr (r, dev', ex)))"

definition acquireResolveTextureForDescription ::
    "GfxDevice \<Rightarrow> RenderTargetDescription \<Rightarrow> SceneGraphExecutor
      \<Rightarrow> error + (ResolveTexture \<times> GfxDevice \<times> SceneGraphExecutor)" where
  "acquireResolveTextureForDescription dev desc ex =
     (case takeFirst (\<lambda>r. res_matchesDescription r desc) (resolveTextureDeadPool ex) of
        Some (freeResolveTexture, rest) \<Rightarrow>
          bind_err (res_reset freeResolveTexture desc) (\<lambda>r.
            Inr (r, dev, ex\<lparr>resolveTextureDeadPool := rest\<rparr>))
      | None \<Rightarrow>
          (case newResolveTexture dev desc of (r, dev') \<Rightarrow> Inr (r, dev', ex)))"

subsection \<open>The executor: scheduling\<close>

text \<open>
  \<^verbatim>\<open>scheduleAddUseCount\<close>: its two loops. An unbound slot is skipped. For an input whose
  copy id has no originating surface (\<^verbatim>\<open>resolveTextureRenderTargetIDs[id]\<close> is
  \<^verbatim>\<open>undefined\<close>) the second increment lands on the property \<^verbatim>\<open>"undefined"\<close>, which is no
  element of the array and which nothing reads.
\<close>

fun addRenderTargetUses :: "nat option list \<Rightarrow> nat option list \<Rightarrow> nat option list" where
  "addRenderTargetUses [] useCount = useCount"
| "addRenderTargetUses (None # ids) useCount = addRenderTargetUses ids useCount"
| "addRenderTargetUses (Some renderTargetID # ids) useCount =
     addRenderTargetUses ids (js_incr useCount renderTargetID)"

fun addResolveTextureUses ::
    "SceneGraph \<Rightarrow> nat list \<Rightarrow> SceneGraphExecutor \<Rightarrow> SceneGraphExecutor" where
  "addResolveTextureUses graph [] ex = ex"
| "addResolveTextureUses graph (resolveTextureID # ids) ex =
     addResolveTextureUses graph ids
       (ex\<lparr>resolveTextureUseCount := js_incr (resolveTextureUseCount ex) resolveTextureID,
           renderTargetUseCount :=
             (case nth_opt (resolveTextureRenderTargetIDs graph) resolveTextureID of
                None \<Rightarrow> renderTargetUseCount ex
              | Some renderTargetID \<Rightarrow> js_incr (renderTargetUseCount ex) renderTargetID)\<rparr>)"

definition scheduleAddUseCount ::
    "SceneGraph \<Rightarrow> SceneGraphPassImpl \<Rightarrow> SceneGraphExecutor \<Rightarrow> SceneGraphExecutor" where
  "scheduleAddUseCount graph pass ex =
     addResolveTextureUses graph (resolveTextureInputIDs pass)
       (ex\<lparr>renderTargetUseCount :=
             addRenderTargetUses (renderTargetIDs pass) (renderTargetUseCount ex)\<rparr>)"

definition acquireRenderTargetForID ::
    "GfxDevice \<Rightarrow> SceneGraph \<Rightarrow> nat option \<Rightarrow> SceneGraphExecutor
      \<Rightarrow> error + (RenderTarget option \<times> GfxDevice \<times> SceneGraphExecutor)" where
  "acquireRenderTargetForID dev graph renderTargetID ex =
     (case renderTargetID of
        None \<Rightarrow> Inr (None, dev, ex)
      | Some i \<Rightarrow>
          bind_err (assert (positive (js_get (renderTargetUseCount ex) i))) (\<lambda>_.
            case js_get (renderTargetAliveForID ex) i of
              Some r \<Rightarrow> Inr (Some r, dev, ex)
            | None \<Rightarrow>
                (case nth_opt (renderTargetDescriptions graph) i of
                   None \<Rightarrow> Inl TypeError
                 | Some desc \<Rightarrow>
                     bind_err (acquireRenderTargetForDescription dev desc ex)
                       (\<lambda>(r, dev', ex').
                          Inr (Some r, dev',
                               ex'\<lparr>renderTargetAliveForID :=
                                      js_set (renderTargetAliveForID ex') i r\<rparr>)))))"

definition releaseRenderTargetForID ::
    "nat option \<Rightarrow> SceneGraphExecutor \<Rightarrow> error + SceneGraphExecutor" where
  "releaseRenderTargetForID renderTargetID ex =
     (case renderTargetID of
        None \<Rightarrow> Inr ex
      | Some i \<Rightarrow>
          bind_err (assert (positive (js_get (renderTargetUseCount ex) i))) (\<lambda>_.
            let ex1 = ex\<lparr>renderTargetUseCount := js_decr (renderTargetUseCount ex) i\<rparr> in
            if js_get (renderTargetUseCount ex1) i = Some 0 then
              bind_err (assertExists (js_get (renderTargetAliveForID ex1) i)) (\<lambda>renderTarget.
                Inr (ex1\<lparr>renderTargetAliveForID := js_delete (renderTargetAliveForID ex1) i,
                         renderTargetDeadPool :=
                           renderTargetDeadPool ex1 @ [renderTarget\<lparr>rt_needsClear := True\<rparr>]\<rparr>))
            else Inr ex1))"

definition acquireResolveTextureOutputForID ::
    "GfxDevice \<Rightarrow> SceneGraph \<Rightarrow> nat option \<Rightarrow> nat option \<Rightarrow> SceneGraphExecutor
      \<Rightarrow> error + (GfxTexture option \<times> GfxDevice \<times> SceneGraphExecutor)" where
  "acquireResolveTextureOutputForID dev graph srcRenderTargetID resolveTextureID ex =
     (case resolveTextureID of
        None \<Rightarrow> Inr (None, dev, ex)
      | Some c \<Rightarrow>
          bind_err (assert (srcRenderTargetID = nth_opt (resolveTextureRenderTargetIDs graph) c))
          (\<lambda>_.
          bind_err (assert (positive (js_get (resolveTextureUseCount ex) c))) (\<lambda>_.
          bind_err (assertExists
                      (case srcRenderTargetID of
                         None \<Rightarrow> None
                       | Some i \<Rightarrow> js_get (renderTargetAliveForID ex) i)) (\<lambda>renderTarget.
            if rt_texture renderTarget \<noteq> None then Inr (None, dev, ex)
            else
              (case js_get (resolveTextureForID ex) c of
                 Some r \<Rightarrow> Inr (Some (res_texture r), dev, ex)
               | None \<Rightarrow>
                   bind_err (assertExists
                               (case srcRenderTargetID of
                                  None \<Rightarrow> None
                                | Some i \<Rightarrow> nth_opt (renderTargetDescriptions graph) i))
                   (\<lambda>desc.
                   bind_err (acquireResolveTextureForDescription dev desc ex)
                     (\<lambda>(r, dev', ex').
                        Inr (Some (res_texture r), dev',
                             ex'\<lparr>resolveTextureForID :=
                                    js_set (resolveTextureForID ex') c r\<rparr>))))))))"

definition acquireResolveTextureInputTextureForID ::
    "SceneGraph \<Rightarrow> nat \<Rightarrow> SceneGraphExecutor \<Rightarrow> error + (GfxTexture \<times> SceneGraphExecutor)" where
  "acquireResolveTextureInputTextureForID graph resolveTextureID ex =
     (let renderTargetID = nth_opt (resolveTextureRenderTargetIDs graph) resolveTextureID in
      case js_get (resolveTextureForID ex) resolveTextureID of
        Some resolveTexture \<Rightarrow>
          bind_err (releaseRenderTargetForID renderTargetID ex) (\<lambda>ex'.
            Inr (res_texture resolveTexture, ex'))
      | None \<Rightarrow>
          bind_err (assertExists
                      (case renderTargetID of
                         None \<Rightarrow> None
                       | Some i \<Rightarrow> js_get (renderTargetAliveForID ex) i)) (\<lambda>renderTarget.
          bind_err (releaseRenderTargetForID renderTargetID ex) (\<lambda>ex'.
          bind_err (assertExists (rt_texture renderTarget)) (\<lambda>t.
            Inr (t, ex')))))"

definition releaseResolveTextureInputForID ::
    "nat \<Rightarrow> SceneGraphExecutor \<Rightarrow> error + SceneGraphExecutor" where
  "releaseResolveTextureInputForID c ex =
     bind_err (assert (positive (js_get (resolveTextureUseCount ex) c))) (\<lambda>_.
       let ex1 = ex\<lparr>resolveTextureUseCount := js_decr (resolveTextureUseCount ex) c\<rparr> in
       if js_get (resolveTextureUseCount ex1) c = Some 0 then
         (case js_get (resolveTextureForID ex1) c of
            Some resolveTexture \<Rightarrow>
              Inr (ex1\<lparr>resolveTextureDeadPool :=
                         resolveTextureDeadPool ex1 @ [resolveTexture]\<rparr>)
          | None \<Rightarrow> Inr ex1)
       else Inr ex1)"

text \<open>The three loops that end \<^verbatim>\<open>schedulePass\<close>.\<close>

fun acquireInputTextures ::
    "SceneGraph \<Rightarrow> nat list \<Rightarrow> nat \<Rightarrow> GfxTexture option list \<Rightarrow> SceneGraphExecutor
      \<Rightarrow> error + (GfxTexture option list \<times> SceneGraphExecutor)" where
  "acquireInputTextures graph [] i textures ex = Inr (textures, ex)"
| "acquireInputTextures graph (resolveTextureID # ids) i textures ex =
     bind_err (acquireResolveTextureInputTextureForID graph resolveTextureID ex) (\<lambda>(t, ex').
       acquireInputTextures graph ids (Suc i) (js_set textures i t) ex')"

fun releaseRenderTargets ::
    "nat option list \<Rightarrow> SceneGraphExecutor \<Rightarrow> error + SceneGraphExecutor" where
  "releaseRenderTargets [] ex = Inr ex"
| "releaseRenderTargets (renderTargetID # ids) ex =
     bind_err (releaseRenderTargetForID renderTargetID ex) (releaseRenderTargets ids)"

fun releaseResolveTextureInputs ::
    "nat list \<Rightarrow> SceneGraphExecutor \<Rightarrow> error + SceneGraphExecutor" where
  "releaseResolveTextureInputs [] ex = Inr ex"
| "releaseResolveTextureInputs (resolveTextureID # ids) ex =
     bind_err (releaseResolveTextureInputForID resolveTextureID ex)
       (releaseResolveTextureInputs ids)"

text \<open>
  \<^verbatim>\<open>x.needsClear = false\<close> on the local variable writes the object that the alive table
  holds under the slot's id: nothing between the acquisition and this write releases it.
\<close>

definition clearDone :: "nat option \<Rightarrow> RenderTarget option \<Rightarrow> SceneGraphExecutor \<Rightarrow> SceneGraphExecutor" where
  "clearDone renderTargetID renderTarget ex =
     (case (renderTargetID, renderTarget) of
        (Some i, Some r) \<Rightarrow>
          ex\<lparr>renderTargetAliveForID :=
               js_set (renderTargetAliveForID ex) i (r\<lparr>rt_needsClear := False\<rparr>)\<rparr>
      | _ \<Rightarrow> ex)"

definition attachmentsAgree :: "RenderTarget option \<Rightarrow> RenderTarget option \<Rightarrow> bool" where
  "attachmentsAgree color0RenderTarget depthStencilRenderTarget =
     (case (color0RenderTarget, depthStencilRenderTarget) of
        (Some c, Some d) \<Rightarrow>
          rt_width c = rt_width d \<and> rt_height c = rt_height d \<and>
          rt_numSamples c = rt_numSamples d
      | _ \<Rightarrow> True)"

definition clearOrLoad ::
    "RenderTarget option \<Rightarrow> RenderTargetDescription option
      \<Rightarrow> (RenderTargetDescription \<Rightarrow> 'a clearValue) \<Rightarrow> error + 'a clearValue" where
  "clearOrLoad renderTarget desc field =
     (case renderTarget of
        None \<Rightarrow> Inr Load
      | Some r \<Rightarrow>
          if rt_needsClear r then
            (case desc of None \<Rightarrow> Inl TypeError | Some d \<Rightarrow> Inr (field d))
          else Inr Load)"

definition descriptionAt :: "SceneGraph \<Rightarrow> nat option \<Rightarrow> RenderTargetDescription option" where
  "descriptionAt graph renderTargetID =
     (case renderTargetID of
        None \<Rightarrow> None
      | Some i \<Rightarrow> nth_opt (renderTargetDescriptions graph) i)"

definition schedulePass ::
    "GfxDevice \<Rightarrow> SceneGraph \<Rightarrow> SceneGraphPassImpl \<Rightarrow> GfxTexture option \<Rightarrow> SceneGraphExecutor
      \<Rightarrow> error + (SceneGraphPassImpl \<times> GfxDevice \<times> SceneGraphExecutor)" where
  "schedulePass dev graph pass presentColorTexture ex =
     (let color0RenderTargetID = js_get (renderTargetIDs pass) (slotIndex Color0);
          depthStencilRenderTargetID = js_get (renderTargetIDs pass) (slotIndex DepthStencil)
      in
      bind_err (acquireRenderTargetForID dev graph color0RenderTargetID ex)
        (\<lambda>(color0RenderTarget, dev1, ex1).
      bind_err (clearOrLoad color0RenderTarget (descriptionAt graph color0RenderTargetID)
                  desc_colorClearColor) (\<lambda>colorClear.
      bind_err (acquireRenderTargetForID dev1 graph depthStencilRenderTargetID ex1)
        (\<lambda>(depthStencilRenderTarget, dev2, ex2).
      bind_err (clearOrLoad depthStencilRenderTarget
                  (descriptionAt graph depthStencilRenderTargetID) desc_depthClearValue)
        (\<lambda>depthClear.
      bind_err (clearOrLoad depthStencilRenderTarget
                  (descriptionAt graph depthStencilRenderTargetID) desc_stencilClearValue)
        (\<lambda>stencilClear.
      bind_err (if doPresent pass then Inr (presentColorTexture, dev2, ex2)
                else acquireResolveTextureOutputForID dev2 graph color0RenderTargetID
                       (js_get (resolveTextureOutputIDs pass) (slotIndex Color0)) ex2)
        (\<lambda>(colorResolve, dev3, ex3).
      bind_err (acquireResolveTextureOutputForID dev3 graph depthStencilRenderTargetID
                  (js_get (resolveTextureOutputIDs pass) (slotIndex DepthStencil)) ex3)
        (\<lambda>(depthStencilResolve, dev4, ex4).
      let ex5 = clearDone depthStencilRenderTargetID depthStencilRenderTarget
                  (clearDone color0RenderTargetID color0RenderTarget ex4) in
      bind_err (assert (attachmentsAgree color0RenderTarget depthStencilRenderTarget)) (\<lambda>_.
      bind_err (acquireInputTextures graph (resolveTextureInputIDs pass) 0
                  (resolveTextureInputTextures pass) ex5) (\<lambda>(textures, ex6).
      bind_err (releaseRenderTargets (renderTargetIDs pass) ex6) (\<lambda>ex7.
      bind_err (releaseResolveTextureInputs (resolveTextureInputIDs pass) ex7) (\<lambda>ex8.
        Inr (pass\<lparr>descriptor :=
                    \<lparr> colorAttachment = map_option rt_attachment color0RenderTarget,
                      colorResolveTo = colorResolve,
                      depthStencilAttachment = map_option rt_attachment depthStencilRenderTarget,
                      depthStencilResolveTo = depthStencilResolve,
                      colorClearColor = colorClear,
                      depthClearValue = depthClear,
                      stencilClearValue = stencilClear \<rparr>,
                  resolveTextureInputTextures := textures\<rparr>,
             dev4, ex8)))))))))))))"

text \<open>
  \<^verbatim>\<open>scheduleGraph\<close>, phase by phase: the entry assertions, the ageing of the dead pools,
  \<^verbatim>\<open>fillArray\<close>, the counting loop, the hand-out loop (which writes each pass's descriptor
  and input textures), the three final checks, the two sweeps and the reset of the
  use-count arrays.
\<close>

definition agePools :: "SceneGraphExecutor \<Rightarrow> SceneGraphExecutor" where
  "agePools ex =
     ex\<lparr>renderTargetDeadPool :=
          map (\<lambda>r. r\<lparr>rt_age := rt_age r + 1\<rparr>) (renderTargetDeadPool ex),
        resolveTextureDeadPool :=
          map (\<lambda>r. r\<lparr>res_age := res_age r + 1\<rparr>) (resolveTextureDeadPool ex)\<rparr>"

definition fillUseCounts :: "SceneGraph \<Rightarrow> SceneGraphExecutor \<Rightarrow> SceneGraphExecutor" where
  "fillUseCounts graph ex =
     ex\<lparr>renderTargetUseCount := replicate (length (renderTargetDescriptions graph)) (Some 0),
        resolveTextureUseCount :=
          replicate (length (resolveTextureRenderTargetIDs graph)) (Some 0)\<rparr>"

fun countPasses ::
    "SceneGraph \<Rightarrow> SceneGraphPassImpl list \<Rightarrow> SceneGraphExecutor \<Rightarrow> SceneGraphExecutor" where
  "countPasses graph [] ex = ex"
| "countPasses graph (pass # ps) ex = countPasses graph ps (scheduleAddUseCount graph pass ex)"

fun schedulePasses ::
    "GfxDevice \<Rightarrow> SceneGraph \<Rightarrow> SceneGraphPassImpl list \<Rightarrow> GfxTexture option
      \<Rightarrow> SceneGraphExecutor
      \<Rightarrow> error + (SceneGraphPassImpl list \<times> GfxDevice \<times> SceneGraphExecutor)" where
  "schedulePasses dev graph [] presentColorTexture ex = Inr ([], dev, ex)"
| "schedulePasses dev graph (pass # ps) presentColorTexture ex =
     bind_err (schedulePass dev graph pass presentColorTexture ex) (\<lambda>(pass', dev', ex').
     bind_err (schedulePasses dev' graph ps presentColorTexture ex') (\<lambda>(ps', dev'', ex'').
       Inr (pass' # ps', dev'', ex'')))"

definition allHandedOut :: "SceneGraphExecutor \<Rightarrow> bool" where
  "allHandedOut ex \<longleftrightarrow>
     list_all (\<lambda>c. c = Some 0) (renderTargetUseCount ex) \<and>
     list_all (\<lambda>c. c = Some 0) (resolveTextureUseCount ex) \<and>
     list_all (\<lambda>r. r = None) (renderTargetAliveForID ex)"

definition ageThreshold :: nat where
  "ageThreshold = 1"

fun sweepRenderTargets :: "GfxDevice \<Rightarrow> RenderTarget list \<Rightarrow> GfxDevice \<times> RenderTarget list" where
  "sweepRenderTargets dev [] = (dev, [])"
| "sweepRenderTargets dev (r # rs) =
     (if ageThreshold \<le> rt_age r then sweepRenderTargets (rt_destroy dev r) rs
      else (case sweepRenderTargets dev rs of (dev', rs') \<Rightarrow> (dev', r # rs')))"

fun sweepResolveTextures ::
    "GfxDevice \<Rightarrow> ResolveTexture list \<Rightarrow> GfxDevice \<times> ResolveTexture list" where
  "sweepResolveTextures dev [] = (dev, [])"
| "sweepResolveTextures dev (r # rs) =
     (if ageThreshold \<le> res_age r then sweepResolveTextures (res_destroy dev r) rs
      else (case sweepResolveTextures dev rs of (dev', rs') \<Rightarrow> (dev', r # rs')))"

definition sweepPools :: "GfxDevice \<Rightarrow> SceneGraphExecutor \<Rightarrow> GfxDevice \<times> SceneGraphExecutor" where
  "sweepPools dev ex =
     (case sweepRenderTargets dev (renderTargetDeadPool ex) of (dev1, rts) \<Rightarrow>
      case sweepResolveTextures dev1 (resolveTextureDeadPool ex) of (dev2, rs) \<Rightarrow>
        (dev2, ex\<lparr>renderTargetDeadPool := rts, resolveTextureDeadPool := rs\<rparr>))"

definition scheduleGraph ::
    "GfxDevice \<Rightarrow> SceneGraph \<Rightarrow> GfxTexture option \<Rightarrow> SceneGraphExecutor
      \<Rightarrow> error + (SceneGraph \<times> GfxDevice \<times> SceneGraphExecutor)" where
  "scheduleGraph dev graph presentColorTexture ex =
     bind_err (assert (length (renderTargetUseCount ex) = 0)) (\<lambda>_.
     bind_err (assert (length (resolveTextureUseCount ex) = 0)) (\<lambda>_.
     bind_err (schedulePasses dev graph (passes graph) presentColorTexture
                 (countPasses graph (passes graph) (fillUseCounts graph (agePools ex))))
       (\<lambda>(ps, dev1, ex1).
     bind_err (assert (allHandedOut ex1)) (\<lambda>_.
       case sweepPools dev1 ex1 of (dev2, ex2) \<Rightarrow>
         Inr (graph\<lparr>passes := ps\<rparr>, dev2,
              ex2\<lparr>renderTargetUseCount := [], resolveTextureUseCount := []\<rparr>)))))"

subsection \<open>The executor: execution and the scope\<close>

definition getResolveTextureForID :: "SceneGraphExecutor \<Rightarrow> nat \<Rightarrow> error + GfxTexture" where
  "getResolveTextureForID ex resolveTextureID =
     (case ex_currentGraphPass ex of
        None \<Rightarrow> Inl TypeError
      | Some currentGraphPass \<Rightarrow>
          (case indexOf (resolveTextureInputIDs currentGraphPass) resolveTextureID of
             None \<Rightarrow> Inl AssertionFailed
           | Some i \<Rightarrow> assertExists (js_get (resolveTextureInputTextures currentGraphPass) i)))"

definition execPass ::
    "GfxDevice \<Rightarrow> SceneGraphPassImpl \<Rightarrow> SceneGraphExecutor
      \<Rightarrow> error + (GfxDevice \<times> SceneGraphExecutor)" where
  "execPass dev pass ex =
     bind_err (assert (ex_currentGraphPass ex = None)) (\<lambda>_.
       let ex1 = ex\<lparr>ex_currentGraphPass := Some pass\<rparr> in
       bind_err (case func pass of
                   None \<Rightarrow> Inr ()
                 | Some f \<Rightarrow> f (getResolveTextureForID ex1)) (\<lambda>_.
         Inr (submitPass dev (descriptor pass), ex1\<lparr>ex_currentGraphPass := None\<rparr>)))"

fun execPasses ::
    "GfxDevice \<Rightarrow> SceneGraphPassImpl list \<Rightarrow> SceneGraphExecutor
      \<Rightarrow> error + (GfxDevice \<times> SceneGraphExecutor)" where
  "execPasses dev [] ex = Inr (dev, ex)"
| "execPasses dev (pass # ps) ex =
     bind_err (execPass dev pass ex) (\<lambda>(dev', ex'). execPasses dev' ps ex')"

definition execGraph ::
    "GfxDevice \<Rightarrow> SceneGraph \<Rightarrow> GfxTexture option \<Rightarrow> SceneGraphExecutor
      \<Rightarrow> error + (SceneGraph \<times> GfxDevice \<times> SceneGraphExecutor)" where
  "execGraph dev graph presentColorTexture ex =
     bind_err (scheduleGraph dev graph presentColorTexture ex) (\<lambda>(graph1, dev1, ex1).
     bind_err (assert (ex_currentGraph ex1 = None)) (\<lambda>_.
     bind_err (execPasses dev1 (passes graph1) (ex1\<lparr>ex_currentGraph := Some graph1\<rparr>))
       (\<lambda>(dev2, ex2).
         Inr (graph1, dev2, ex2\<lparr>ex_currentGraph := None, resolveTextureForID := []\<rparr>))))"

definition destroy :: "GfxDevice \<Rightarrow> SceneGraphExecutor \<Rightarrow> error + GfxDevice" where
  "destroy dev ex =
     bind_err (assert (list_all (\<lambda>r. r = None) (renderTargetAliveForID ex))) (\<lambda>_.
     bind_err (assert (list_all (\<lambda>r. r = None) (resolveTextureForID ex))) (\<lambda>_.
       Inr (fold (\<lambda>r d. res_destroy d r) (resolveTextureDeadPool ex)
              (fold (\<lambda>r d. rt_destroy d r) (renderTargetDeadPool ex) dev))))"

subsection \<open>Example inputs\<close>

text \<open>A writer of surface 0 in \<open>Color0\<close>, and a graph under construction with one such pass.\<close>

definition writerSetup :: "SceneGraphPassImpl \<Rightarrow> error + SceneGraphPassImpl" where
  "writerSetup = attachRenderTargetID Color0 0"

definition oneWriterGraph :: SceneGraph where
  "oneWriterGraph =
     \<lparr> renderTargetDescriptions =
         [\<lparr> desc_debugName = ''Main'', desc_pixelFormat = 0, desc_width = 256,
            desc_height = 256, desc_numSamples = 1, desc_colorClearColor = Clear (1, 0, 0, 1),
            desc_depthClearValue = Load, desc_stencilClearValue = Load \<rparr>],
       resolveTextureRenderTargetIDs = [],
       passes = [newPass\<lparr>renderTargetIDs := [Some 0]\<rparr>] \<rparr>"

text \<open>
  A device that has given out one handle, the presentation texture 0. A 256 by 256
  surface description. A graph whose only pass is flagged present and binds surface 0 in
  \<open>Color0\<close> and surface 1 in \<open>DepthStencil\<close>. The executor state after the counting loop
  of a first \<^verbatim>\<open>scheduleGraph\<close>.
\<close>

definition device0 :: GfxDevice where
  "device0 = \<lparr> nextHandle = 1, liveTextures = [0], liveAttachments = [], submittedPasses = [] \<rparr>"

definition surface256 :: "nat \<Rightarrow> Color clearValue \<Rightarrow> RenderTargetDescription" where
  "surface256 samples clear =
     \<lparr> desc_debugName = ''Surface'', desc_pixelFormat = 0, desc_width = 256,
       desc_height = 256, desc_numSamples = samples, desc_colorClearColor = clear,
       desc_depthClearValue = Clear 1, desc_stencilClearValue = Clear 0 \<rparr>"



definition countedExecutor :: "SceneGraph \<Rightarrow> SceneGraphExecutor" where
  "countedExecutor graph =
     countPasses graph (passes graph) (fillUseCounts graph (agePools newSceneGraphExecutor))"

text \<open>
  The scenario of the specification: pass 1 writes surface 0 (cleared to red) in \<open>Color0\<close>;
  a copy of surface 0 is requested; pass 2 samples the copy and writes surface 1; pass 3
  is flagged present and writes surface 1. \<open>buildScenario\<close> is the sequence of builder
  calls, \<open>scenarioGraph\<close> the graph they leave.
\<close>

definition scenarioGraph :: "nat \<Rightarrow> SceneGraph" where
  "scenarioGraph samples =
     \<lparr> renderTargetDescriptions =
         [surface256 samples (Clear (1, 0, 0, 1)), surface256 samples Load],
       resolveTextureRenderTargetIDs = [0],
       passes =
         [newPass\<lparr>renderTargetIDs := [Some 0], resolveTextureOutputIDs := [Some 0]\<rparr>,
          newPass\<lparr>renderTargetIDs := [Some 1], resolveTextureInputIDs := [0]\<rparr>,
          newPass\<lparr>renderTargetIDs := [Some 1], doPresent := True\<rparr>] \<rparr>"

definition buildScenario :: "nat \<Rightarrow> error + (SceneGraph \<times> SceneGraphBuilder)" where
  "buildScenario samples =
     bind_err (begin_graph \<lparr>currentGraph = None\<rparr>) (\<lambda>b0.
     bind_err (createRenderTargetID (surface256 samples (Clear (1, 0, 0, 1))) b0) (\<lambda>(main, b1).
     bind_err (pushPass (attachRenderTargetID Color0 main) b1) (\<lambda>b2.
     bind_err (resolveRenderTargetToColorTexture main b2) (\<lambda>(copy, b3).
     bind_err (createRenderTargetID (surface256 samples Load) b3) (\<lambda>(second, b4).
     bind_err (pushPass (\<lambda>pass. bind_err (attachRenderTargetID Color0 second pass)
                          (\<lambda>pass. Inr (attachResolveTexture copy pass))) b4) (\<lambda>b5.
     bind_err (pushPass (\<lambda>pass. bind_err (attachRenderTargetID Color0 second pass)
                          (\<lambda>pass. Inr (present pass))) b5) (\<lambda>b6.
       end_graph b6)))))))"


subsection \<open>Measures used in the statements\<close>

text \<open>
  How many of the inputs \<open>ids\<close> are copies of surface \<open>r\<close>, by the graph's table of
  originating surfaces.
\<close>

definition inputUses :: "SceneGraph \<Rightarrow> nat list \<Rightarrow> nat \<Rightarrow> nat" where
  "inputUses graph ids r =
     length (filter (\<lambda>c. nth_opt (resolveTextureRenderTargetIDs graph) c = Some r) ids)"

text \<open>
  The uses of surface \<open>r\<close> by one pass (its slots bound to \<open>r\<close> and its inputs that are
  copies of \<open>r\<close>) and by a list of passes; the uses of copy \<open>c\<close> by a list of passes.
\<close>

definition passUses :: "SceneGraph \<Rightarrow> SceneGraphPassImpl \<Rightarrow> nat \<Rightarrow> nat" where
  "passUses graph pass r =
     count_list (renderTargetIDs pass) (Some r) + inputUses graph (resolveTextureInputIDs pass) r"

definition graphUses :: "SceneGraph \<Rightarrow> SceneGraphPassImpl list \<Rightarrow> nat \<Rightarrow> nat" where
  "graphUses graph ps r = sum_list (map (\<lambda>p. passUses graph p r) ps)"

definition copyUses :: "SceneGraphPassImpl list \<Rightarrow> nat \<Rightarrow> nat" where
  "copyUses ps c = sum_list (map (\<lambda>p. count_list (resolveTextureInputIDs p) c) ps)"

text \<open>
  \<open>released d a b\<close>: the count \<open>a\<close> went down to \<open>b\<close> by \<open>d\<close> decrements, each of which
  found it positive. A count that is no number admits no decrement.
\<close>

definition released :: "nat \<Rightarrow> nat option \<Rightarrow> nat option \<Rightarrow> bool" where
  "released d a b \<longleftrightarrow>
     (case a of None \<Rightarrow> d = 0 \<and> b = None | Some n \<Rightarrow> d \<le> n \<and> b = Some (n - d))"

text \<open>Every surface id with an entry in the alive table has a positive use-count.\<close>

definition aliveCounted :: "SceneGraphExecutor \<Rightarrow> bool" where
  "aliveCounted ex \<longleftrightarrow>
     (\<forall>i. js_get (renderTargetAliveForID ex) i \<noteq> None \<longrightarrow>
          positive (js_get (renderTargetUseCount ex) i))"

text \<open>
  What a step of the hand-out loop does to the two use-count arrays (\<open>d\<close> and \<open>e\<close> give
  the number of decrements per id) while it keeps \<open>aliveCounted\<close>.
\<close>

definition countsStep ::
    "(nat \<Rightarrow> nat) \<Rightarrow> (nat \<Rightarrow> nat) \<Rightarrow> SceneGraphExecutor \<Rightarrow> SceneGraphExecutor \<Rightarrow> bool" where
  "countsStep d e ex ex' \<longleftrightarrow>
     (\<forall>r. released (d r) (js_get (renderTargetUseCount ex) r)
            (js_get (renderTargetUseCount ex') r)) \<and>
     (\<forall>c. released (e c) (js_get (resolveTextureUseCount ex) c)
            (js_get (resolveTextureUseCount ex') c)) \<and>
     length (renderTargetUseCount ex') = length (renderTargetUseCount ex) \<and>
     length (resolveTextureUseCount ex') = length (resolveTextureUseCount ex) \<and>
     (aliveCounted ex \<longrightarrow> aliveCounted ex')"

text \<open>An executor whose alive table still holds an entry for surface id 0.\<close>

definition staleExecutor :: SceneGraphExecutor where
  "staleExecutor =
     newSceneGraphExecutor\<lparr>renderTargetAliveForID :=
       [Some \<lparr> rt_debugName = ''Stale'', rt_pixelFormat = 0, rt_width = 1, rt_height = 1,
                rt_numSamples = 1, rt_needsClear = False, rt_texture = Some 1,
                rt_attachment = 2, rt_age = 0 \<rparr>]\<rparr>"

text \<open>
  The flag \<open>rt_needsClear\<close> against where a render target is: set on every one in the
  dead pool, unset on every one in the alive table.
\<close>

definition clearInv :: "SceneGraphExecutor \<Rightarrow> bool" where
  "clearInv ex \<longleftrightarrow>
     (\<forall>r \<in> set (renderTargetDeadPool ex). rt_needsClear r) \<and>
     (\<forall>i r. js_get (renderTargetAliveForID ex) i = Some r \<longrightarrow> \<not> rt_needsClear r)"

text \<open>
  Two passes on one surface: the first binds it in \<open>Color0\<close>, the second in
  \<open>DepthStencil\<close>.
\<close>

definition twoWriterGraph :: SceneGraph where
  "twoWriterGraph =
     \<lparr> renderTargetDescriptions = [surface256 1 (Clear (1, 0, 0, 1))],
       resolveTextureRenderTargetIDs = [],
       passes = [newPass\<lparr>renderTargetIDs := [Some 0]\<rparr>,
                 newPass\<lparr>renderTargetIDs := [None, Some 0]\<rparr>] \<rparr>"

text \<open>
  The attachment handle of the render target that the alive table holds for a surface id:
  the handle is given out once by the device and never reassigned, so it names the
  physical object. \<open>attachmentAt\<close> reads the handle a descriptor has for a slot.
\<close>

definition aliveAttachment :: "SceneGraphExecutor \<Rightarrow> nat \<Rightarrow> GfxAttachment option" where
  "aliveAttachment ex i = map_option rt_attachment (js_get (renderTargetAliveForID ex) i)"

fun attachmentAt :: "RenderTargetAttachmentSlot \<Rightarrow> GfxRenderPassDescriptor \<Rightarrow> GfxAttachment option" where
  "attachmentAt Color0 d = colorAttachment d"
| "attachmentAt DepthStencil d = depthStencilAttachment d"

text \<open>
  A step keeps the physical surface of id \<open>i\<close>: use-counts only go down, an alive entry
  stays the same object as long as the count is positive afterwards, and no entry appears.
\<close>

definition keepsAlive :: "nat \<Rightarrow> SceneGraphExecutor \<Rightarrow> SceneGraphExecutor \<Rightarrow> bool" where
  "keepsAlive i ex ex' \<longleftrightarrow>
     (positive (js_get (renderTargetUseCount ex') i) \<longrightarrow>
        positive (js_get (renderTargetUseCount ex) i)) \<and>
     (aliveAttachment ex i \<noteq> None \<and> positive (js_get (renderTargetUseCount ex') i) \<longrightarrow>
        aliveAttachment ex' i = aliveAttachment ex i) \<and>
     (aliveAttachment ex i = None \<longrightarrow> aliveAttachment ex' i = None)"

text \<open>An executor that holds one resolve texture for copy id 0, with one use left.\<close>

definition copyExecutor :: SceneGraphExecutor where
  "copyExecutor =
     newSceneGraphExecutor\<lparr>
       resolveTextureUseCount := [Some 1],
       resolveTextureForID :=
         [Some \<lparr> res_debugName = ''Surface'', res_pixelFormat = 0, res_width = 256,
                  res_height = 256, res_texture = 7, res_age = 0 \<rparr>]\<rparr>"

text \<open>
  A render target is texture-backed exactly when it is single-sampled, as its constructor
  makes it; the invariant says so of every render target in the dead pool and in the alive
  table.
\<close>

definition textureBacked :: "RenderTarget \<Rightarrow> bool" where
  "textureBacked r \<longleftrightarrow> (rt_texture r \<noteq> None \<longleftrightarrow> rt_numSamples r = 1)"

definition backedInv :: "SceneGraphExecutor \<Rightarrow> bool" where
  "backedInv ex \<longleftrightarrow>
     (\<forall>r \<in> set (renderTargetDeadPool ex). textureBacked r) \<and>
     (\<forall>i r. js_get (renderTargetAliveForID ex) i = Some r \<longrightarrow> textureBacked r)"

text \<open>
  A surface id is single-sampled when its description asks for one sample. Every render
  target in the alive table has the sample count of the description of its id. The
  resolve target a descriptor has for a slot.
\<close>

definition singleSampled :: "SceneGraph \<Rightarrow> nat \<Rightarrow> bool" where
  "singleSampled graph i \<longleftrightarrow>
     (case nth_opt (renderTargetDescriptions graph) i of
        None \<Rightarrow> False
      | Some d \<Rightarrow> desc_numSamples d = 1)"

definition aliveDescribed :: "SceneGraph \<Rightarrow> SceneGraphExecutor \<Rightarrow> bool" where
  "aliveDescribed graph ex \<longleftrightarrow>
     (\<forall>i r. js_get (renderTargetAliveForID ex) i = Some r \<longrightarrow>
        (\<exists>d. nth_opt (renderTargetDescriptions graph) i = Some d \<and>
             rt_numSamples r = desc_numSamples d))"

fun resolveAt :: "RenderTargetAttachmentSlot \<Rightarrow> GfxRenderPassDescriptor \<Rightarrow> GfxTexture option" where
  "resolveAt Color0 d = colorResolveTo d"
| "resolveAt DepthStencil d = depthStencilResolveTo d"

text \<open>
  The scenario with four samples per surface, where the consumer of the copy has a callback
  that looks the copy up and fails unless it gets texture 2, the handle of the resolve
  texture that the producer's pass acquires.
\<close>

definition samplingGraph :: SceneGraph where
  "samplingGraph =
     (scenarioGraph 4)\<lparr>passes :=
        [passes (scenarioGraph 4) ! 0,
         (passes (scenarioGraph 4) ! 1)\<lparr>func :=
            Some (\<lambda>lookup. bind_err (lookup 0) (\<lambda>t. assert (t = 2)))\<rparr>,
         passes (scenarioGraph 4) ! 2]\<rparr>"

text \<open>
  A frame whose first pass is flagged present, writes the single-sampled surface 0 in
  \<open>Color0\<close> and is asked for a copy of it, and whose second pass samples the copy and
  writes surface 1. \<open>buildPresentCopy\<close> is the sequence of builder calls,
  \<open>presentCopyGraph\<close> the graph they leave.
\<close>

definition presentCopyGraph :: SceneGraph where
  "presentCopyGraph =
     \<lparr> renderTargetDescriptions =
         [surface256 1 (Clear (1, 0, 0, 1)), surface256 1 Load],
       resolveTextureRenderTargetIDs = [0],
       passes =
         [newPass\<lparr>renderTargetIDs := [Some 0], resolveTextureOutputIDs := [Some 0],
                  doPresent := True\<rparr>,
          newPass\<lparr>renderTargetIDs := [Some 1], resolveTextureInputIDs := [0]\<rparr>] \<rparr>"

definition buildPresentCopy :: "error + (SceneGraph \<times> SceneGraphBuilder)" where
  "buildPresentCopy =
     bind_err (begin_graph \<lparr>currentGraph = None\<rparr>) (\<lambda>b0.
     bind_err (createRenderTargetID (surface256 1 (Clear (1, 0, 0, 1))) b0) (\<lambda>(main, b1).
     bind_err (pushPass (\<lambda>pass. bind_err (attachRenderTargetID Color0 main pass)
                          (\<lambda>pass. Inr (present pass))) b1) (\<lambda>b2.
     bind_err (resolveRenderTargetToColorTexture main b2) (\<lambda>(copy, b3).
     bind_err (createRenderTargetID (surface256 1 Load) b3) (\<lambda>(second, b4).
     bind_err (pushPass (\<lambda>pass. bind_err (attachRenderTargetID Color0 second pass)
                          (\<lambda>pass. Inr (attachResolveTexture copy pass))) b4) (\<lambda>b5.
       end_graph b5))))))"

section \<open>Basic facts\<close>

lemma bind_err_simps [simp]:
  "bind_err (Inl e) f = Inl e" "bind_err (Inr x) f = f x"
  by (simp_all add: bind_err_def)

lemma bind_err_Inr_iff: "bind_err m f = Inr y \<longleftrightarrow> (\<exists>x. m = Inr x \<and> f x = Inr y)"
  by (cases m) simp_all

lemma assert_Inr_iff [simp]: "assert b = Inr u \<longleftrightarrow> b"
  by (simp add: assert_def)

lemma assert_True [simp]: "assert True = Inr ()"
  by (simp add: assert_def)

lemma assert_False [simp]: "assert False = Inl AssertionFailed"
  by (simp add: assert_def)

lemma assertExists_simps [simp]:
  "assertExists None = Inl AssertionFailed" "assertExists (Some x) = Inr x"
  by (simp_all add: assertExists_def)

lemma assertExists_Inr_iff: "assertExists v = Inr x \<longleftrightarrow> v = Some x"
  by (cases v) simp_all

lemma indexOf_None_iff: "indexOf xs v = None \<longleftrightarrow> v \<notin> set xs"
  by (induction xs) auto

lemma indexOf_Some:
  "indexOf xs v = Some k \<Longrightarrow> k < length xs \<and> xs ! k = v \<and> (\<forall>j<k. xs ! j \<noteq> v)"
proof (induction xs arbitrary: k)
  case Nil
  then show ?case by simp
next
  case (Cons x xs)
  show ?case
  proof (cases "x = v")
    case True
    with Cons.prems show ?thesis by simp
  next
    case False
    with Cons.prems obtain k' where k': "indexOf xs v = Some k'" "k = Suc k'"
      by auto
    from Cons.IH [OF k'(1)] False k'(2) show ?thesis
      by (auto simp: nth_Cons split: nat.splits)
  qed
qed

lemma findLastPassFrom_None_iff:
  "findLastPassFrom ps n r = None \<longleftrightarrow> (\<forall>i<n. Some r \<notin> set (renderTargetIDs (ps ! i)))"
  by (induction n) (auto simp: less_Suc_eq)

lemma findLastPassFrom_Some:
  "findLastPassFrom ps n r = Some i \<Longrightarrow>
     i < n \<and> Some r \<in> set (renderTargetIDs (ps ! i)) \<and>
     (\<forall>j. i < j \<and> j < n \<longrightarrow> Some r \<notin> set (renderTargetIDs (ps ! j)))"
proof (induction n)
  case 0
  then show ?case by simp
next
  case (Suc n)
  show ?case
  proof (cases "Some r \<in> set (renderTargetIDs (ps ! n))")
    case True
    with Suc.prems show ?thesis by auto
  next
    case False
    with Suc.prems have "findLastPassFrom ps n r = Some i" by simp
    from Suc.IH [OF this] False show ?thesis
      by (auto simp: less_Suc_eq)
  qed
qed

subsection \<open>The construction bracket\<close>

text \<open>
  Counterexample to C7 as stated (a nested \<^verbatim>\<open>begin\<close> is a fatal error): \<^verbatim>\<open>begin\<close> on a
  builder that already has a graph under construction returns normally; the graph under
  construction (here one with a registered copy id) is dropped and replaced by an empty one.
\<close>


theorem begin_nested_counterexample:
  "begin_graph \<lparr>currentGraph = Some (newSceneGraph\<lparr>resolveTextureRenderTargetIDs := [0]\<rparr>)\<rparr>
     = Inr \<lparr>currentGraph = Some newSceneGraph\<rparr>"
  by (simp add: begin_graph_def)

text \<open>
  C7, amended: \<^verbatim>\<open>end\<close> with no graph under construction is a fatal assertion, and with a
  graph it returns that graph and leaves the builder without one; \<^verbatim>\<open>begin\<close> never fails,
  whatever the builder holds, and installs a fresh empty graph.
\<close>

theorem begin_end_bracket:
  "(end_graph b = Inl AssertionFailed \<longleftrightarrow> currentGraph b = None) \<and>
   (\<forall>g. currentGraph b = Some g \<longrightarrow> end_graph b = Inr (g, b\<lparr>currentGraph := None\<rparr>)) \<and>
   begin_graph b = Inr (b\<lparr>currentGraph := Some newSceneGraph\<rparr>)"
  by (cases "currentGraph b") (simp_all add: end_graph_def begin_graph_def)

theorem begin_end_bracket_witness:
  "end_graph \<lparr>currentGraph = None\<rparr> = Inl AssertionFailed \<and>
   end_graph \<lparr>currentGraph = Some newSceneGraph\<rparr> = Inr (newSceneGraph, \<lparr>currentGraph = None\<rparr>) \<and>
   begin_graph \<lparr>currentGraph = None\<rparr> = Inr \<lparr>currentGraph = Some newSceneGraph\<rparr>"
  using begin_end_bracket [of "\<lparr>currentGraph = None\<rparr>"]
    begin_end_bracket [of "\<lparr>currentGraph = Some newSceneGraph\<rparr>"]
  by simp

subsection \<open>Requesting a copy\<close>

lemma resolve_fails_iff:
  assumes "currentGraph b = Some g"
  shows "isl (resolveRenderTargetToColorTexture r b) \<longleftrightarrow>
           (\<forall>p \<in> set (passes g). Some r \<notin> set (renderTargetIDs p))"
proof (cases "findLastPassFrom (passes g) (length (passes g)) r")
  case None
  then have "\<forall>i<length (passes g). Some r \<notin> set (renderTargetIDs (passes g ! i))"
    by (simp add: findLastPassFrom_None_iff)
  then have "\<forall>p \<in> set (passes g). Some r \<notin> set (renderTargetIDs p)"
    by (auto simp: in_set_conv_nth)
  with None assms show ?thesis
    by (simp add: resolveRenderTargetToColorTexture_def createResolveTextureID_def
        findLastPassForRenderTarget_def)
next
  case (Some i)
  from findLastPassFrom_Some [OF Some]
  have i: "i < length (passes g)" "Some r \<in> set (renderTargetIDs (passes g ! i))"
    by simp_all
  then have "\<exists>p \<in> set (passes g). Some r \<in> set (renderTargetIDs p)"
    using nth_mem by blast
  with Some assms show ?thesis
    by (auto simp: resolveRenderTargetToColorTexture_def createResolveTextureID_def
        findLastPassForRenderTarget_def Let_def split: option.splits)
qed

lemma resolve_succeeds:
  assumes "currentGraph b = Some g"
    and "\<exists>p \<in> set (passes g). Some r \<in> set (renderTargetIDs p)"
  shows "\<exists>i k. i < length (passes g) \<and>
           (\<forall>j. i < j \<and> j < length (passes g) \<longrightarrow> Some r \<notin> set (renderTargetIDs (passes g ! j))) \<and>
           k < length (renderTargetIDs (passes g ! i)) \<and>
           renderTargetIDs (passes g ! i) ! k = Some r \<and>
           (\<forall>j<k. renderTargetIDs (passes g ! i) ! j \<noteq> Some r) \<and>
           resolveRenderTargetToColorTexture r b =
             Inr (length (resolveTextureRenderTargetIDs g),
                  b\<lparr>currentGraph := Some (g\<lparr>
                     resolveTextureRenderTargetIDs := resolveTextureRenderTargetIDs g @ [r],
                     passes := (passes g)[i := (passes g ! i)\<lparr>resolveTextureOutputIDs :=
                        js_set (resolveTextureOutputIDs (passes g ! i)) k
                          (length (resolveTextureRenderTargetIDs g))\<rparr>]\<rparr>)\<rparr>)"
proof -
  from assms(2) obtain p where "p \<in> set (passes g)" "Some r \<in> set (renderTargetIDs p)"
    by blast
  then have "\<not> (\<forall>i<length (passes g). Some r \<notin> set (renderTargetIDs (passes g ! i)))"
    by (metis in_set_conv_nth)
  then obtain i where f: "findLastPassFrom (passes g) (length (passes g)) r = Some i"
    by (auto simp: findLastPassFrom_None_iff [symmetric])
  from findLastPassFrom_Some [OF f]
  have i: "i < length (passes g)" "Some r \<in> set (renderTargetIDs (passes g ! i))"
    "\<forall>j. i < j \<and> j < length (passes g) \<longrightarrow> Some r \<notin> set (renderTargetIDs (passes g ! j))"
    by simp_all
  from i(2) obtain k where k: "indexOf (renderTargetIDs (passes g ! i)) (Some r) = Some k"
    using indexOf_None_iff [of "renderTargetIDs (passes g ! i)" "Some r"] by auto
  note kk = indexOf_Some [OF k]
  have "resolveRenderTargetToColorTexture r b =
             Inr (length (resolveTextureRenderTargetIDs g),
                  b\<lparr>currentGraph := Some (g\<lparr>
                     resolveTextureRenderTargetIDs := resolveTextureRenderTargetIDs g @ [r],
                     passes := (passes g)[i := (passes g ! i)\<lparr>resolveTextureOutputIDs :=
                        js_set (resolveTextureOutputIDs (passes g ! i)) k
                          (length (resolveTextureRenderTargetIDs g))\<rparr>]\<rparr>)\<rparr>)"
    using assms(1) f k
    by (simp add: resolveRenderTargetToColorTexture_def createResolveTextureID_def
        findLastPassForRenderTarget_def Let_def)
  with i kk show ?thesis by blast
qed

lemma pushPass_keeps_passes:
  assumes "pushPass setupFunc b = Inr b'" 
  shows "\<exists>g pass. currentGraph b = Some g \<and> setupFunc newPass = Inr pass \<and>
            currentGraph b' = Some (g\<lparr>passes := passes g @ [pass]\<rparr>)"
  using assms
  by (auto simp: pushPass_def bind_err_Inr_iff split: option.splits)

text \<open>
  C2: with a graph under construction, \<^verbatim>\<open>resolveRenderTargetToColorTexture\<close> fails exactly
  when no pass appended so far binds the surface in a slot. Otherwise it returns the next
  unused copy id, registers the surface as that id's origin, and stores the id as the
  copy-output of the last pass \<open>i\<close> that binds the surface, at the first slot \<open>k\<close> where that
  pass binds it. A pass pushed afterwards is appended behind; the output recorded on pass
  \<open>i\<close> stays where it is, so a later writer of the surface does not get it.
\<close>

theorem request_copy_last_writer:
  assumes "currentGraph b = Some g"
  shows "(isl (resolveRenderTargetToColorTexture r b) \<longleftrightarrow>
            (\<forall>p \<in> set (passes g). Some r \<notin> set (renderTargetIDs p))) \<and>
         ((\<exists>p \<in> set (passes g). Some r \<in> set (renderTargetIDs p)) \<longrightarrow>
            (\<exists>i k b'. i < length (passes g) \<and>
               (\<forall>j. i < j \<and> j < length (passes g) \<longrightarrow>
                    Some r \<notin> set (renderTargetIDs (passes g ! j))) \<and>
               k < length (renderTargetIDs (passes g ! i)) \<and>
               renderTargetIDs (passes g ! i) ! k = Some r \<and>
               (\<forall>j<k. renderTargetIDs (passes g ! i) ! j \<noteq> Some r) \<and>
               resolveRenderTargetToColorTexture r b =
                 Inr (length (resolveTextureRenderTargetIDs g), b') \<and>
               currentGraph b' = Some (g\<lparr>
                     resolveTextureRenderTargetIDs := resolveTextureRenderTargetIDs g @ [r],
                     passes := (passes g)[i := (passes g ! i)\<lparr>resolveTextureOutputIDs :=
                        js_set (resolveTextureOutputIDs (passes g ! i)) k
                          (length (resolveTextureRenderTargetIDs g))\<rparr>]\<rparr>) \<and>
               (\<forall>setupFunc b''. pushPass setupFunc b' = Inr b'' \<longrightarrow>
                  (\<exists>g'' pass. currentGraph b'' = Some g'' \<and> setupFunc newPass = Inr pass \<and>
                     passes g'' = (passes g)[i := (passes g ! i)\<lparr>resolveTextureOutputIDs :=
                        js_set (resolveTextureOutputIDs (passes g ! i)) k
                          (length (resolveTextureRenderTargetIDs g))\<rparr>] @ [pass]))))"
proof (intro conjI impI)
  show "isl (resolveRenderTargetToColorTexture r b) \<longleftrightarrow>
            (\<forall>p \<in> set (passes g). Some r \<notin> set (renderTargetIDs p))"
    by (rule resolve_fails_iff [OF assms])
next
  assume "\<exists>p \<in> set (passes g). Some r \<in> set (renderTargetIDs p)"
  from resolve_succeeds [OF assms this] obtain i k where ik:
    "i < length (passes g)"
    "\<forall>j. i < j \<and> j < length (passes g) \<longrightarrow> Some r \<notin> set (renderTargetIDs (passes g ! j))"
    "k < length (renderTargetIDs (passes g ! i))"
    "renderTargetIDs (passes g ! i) ! k = Some r"
    "\<forall>j<k. renderTargetIDs (passes g ! i) ! j \<noteq> Some r"
    "resolveRenderTargetToColorTexture r b =
             Inr (length (resolveTextureRenderTargetIDs g),
                  b\<lparr>currentGraph := Some (g\<lparr>
                     resolveTextureRenderTargetIDs := resolveTextureRenderTargetIDs g @ [r],
                     passes := (passes g)[i := (passes g ! i)\<lparr>resolveTextureOutputIDs :=
                        js_set (resolveTextureOutputIDs (passes g ! i)) k
                          (length (resolveTextureRenderTargetIDs g))\<rparr>]\<rparr>)\<rparr>)"
    by blast
  define b' where "b' = b\<lparr>currentGraph := Some (g\<lparr>
                     resolveTextureRenderTargetIDs := resolveTextureRenderTargetIDs g @ [r],
                     passes := (passes g)[i := (passes g ! i)\<lparr>resolveTextureOutputIDs :=
                        js_set (resolveTextureOutputIDs (passes g ! i)) k
                          (length (resolveTextureRenderTargetIDs g))\<rparr>]\<rparr>)\<rparr>"
  have frozen: "\<exists>g'' pass. currentGraph b'' = Some g'' \<and> setupFunc newPass = Inr pass \<and>
                     passes g'' = (passes g)[i := (passes g ! i)\<lparr>resolveTextureOutputIDs :=
                        js_set (resolveTextureOutputIDs (passes g ! i)) k
                          (length (resolveTextureRenderTargetIDs g))\<rparr>] @ [pass]"
    if "pushPass setupFunc b' = Inr b''" for setupFunc b''
    using pushPass_keeps_passes [OF that] by (auto simp: b'_def)
  show "\<exists>i k b'. i < length (passes g) \<and>
               (\<forall>j. i < j \<and> j < length (passes g) \<longrightarrow>
                    Some r \<notin> set (renderTargetIDs (passes g ! j))) \<and>
               k < length (renderTargetIDs (passes g ! i)) \<and>
               renderTargetIDs (passes g ! i) ! k = Some r \<and>
               (\<forall>j<k. renderTargetIDs (passes g ! i) ! j \<noteq> Some r) \<and>
               resolveRenderTargetToColorTexture r b =
                 Inr (length (resolveTextureRenderTargetIDs g), b') \<and>
               currentGraph b' = Some (g\<lparr>
                     resolveTextureRenderTargetIDs := resolveTextureRenderTargetIDs g @ [r],
                     passes := (passes g)[i := (passes g ! i)\<lparr>resolveTextureOutputIDs :=
                        js_set (resolveTextureOutputIDs (passes g ! i)) k
                          (length (resolveTextureRenderTargetIDs g))\<rparr>]\<rparr>) \<and>
               (\<forall>setupFunc b''. pushPass setupFunc b' = Inr b'' \<longrightarrow>
                  (\<exists>g'' pass. currentGraph b'' = Some g'' \<and> setupFunc newPass = Inr pass \<and>
                     passes g'' = (passes g)[i := (passes g ! i)\<lparr>resolveTextureOutputIDs :=
                        js_set (resolveTextureOutputIDs (passes g ! i)) k
                          (length (resolveTextureRenderTargetIDs g))\<rparr>] @ [pass]))"
    apply (rule exI [of _ i], rule exI [of _ k], rule exI [of _ b'])
    using ik frozen by (simp add: b'_def)
qed

theorem request_copy_last_writer_witness:
  "currentGraph \<lparr>currentGraph = Some oneWriterGraph\<rparr> = Some oneWriterGraph \<and>
   (\<exists>p \<in> set (passes oneWriterGraph). Some 0 \<in> set (renderTargetIDs p)) \<and>
   \<not> isl (resolveRenderTargetToColorTexture 0 \<lparr>currentGraph = Some oneWriterGraph\<rparr>) \<and>
   isl (resolveRenderTargetToColorTexture 1 \<lparr>currentGraph = Some oneWriterGraph\<rparr>) \<and>
   bind_err (resolveRenderTargetToColorTexture 0 \<lparr>currentGraph = Some oneWriterGraph\<rparr>)
     (\<lambda>(c, b'). bind_err (pushPass writerSetup b') (\<lambda>b''.
        Inr (c, map_option (map resolveTextureOutputIDs \<circ> passes) (currentGraph b''))))
     = Inr (0, Some [[Some 0], []])"
  using request_copy_last_writer [of "\<lparr>currentGraph = Some oneWriterGraph\<rparr>" oneWriterGraph 0]
    request_copy_last_writer [of "\<lparr>currentGraph = Some oneWriterGraph\<rparr>" oneWriterGraph 1]
  by (simp add: oneWriterGraph_def resolveRenderTargetToColorTexture_def
      createResolveTextureID_def findLastPassForRenderTarget_def newPass_def js_set_def
      js_put_def js_get_def pushPass_def writerSetup_def attachRenderTargetID_def Let_def)

subsection \<open>One pass of the hand-out loop\<close>

lemma schedulePass_Inr:
  assumes "schedulePass dev g p presentColorTexture ex = Inr (p', dev', ex')"
  obtains c0 dev1 ex1 colorClear ds dev2 ex2 depthClear stencilClear colorResolve dev3 ex3
    dsResolve ex4 textures ex6 ex7
  where
    "acquireRenderTargetForID dev g (js_get (renderTargetIDs p) 0) ex = Inr (c0, dev1, ex1)"
    "clearOrLoad c0 (descriptionAt g (js_get (renderTargetIDs p) 0)) desc_colorClearColor
       = Inr colorClear"
    "acquireRenderTargetForID dev1 g (js_get (renderTargetIDs p) 1) ex1 = Inr (ds, dev2, ex2)"
    "clearOrLoad ds (descriptionAt g (js_get (renderTargetIDs p) 1)) desc_depthClearValue
       = Inr depthClear"
    "clearOrLoad ds (descriptionAt g (js_get (renderTargetIDs p) 1)) desc_stencilClearValue
       = Inr stencilClear"
    "(if doPresent p then Inr (presentColorTexture, dev2, ex2)
      else acquireResolveTextureOutputForID dev2 g (js_get (renderTargetIDs p) 0)
             (js_get (resolveTextureOutputIDs p) 0) ex2) = Inr (colorResolve, dev3, ex3)"
    "acquireResolveTextureOutputForID dev3 g (js_get (renderTargetIDs p) 1)
       (js_get (resolveTextureOutputIDs p) 1) ex3 = Inr (dsResolve, dev', ex4)"
    "attachmentsAgree c0 ds"
    "acquireInputTextures g (resolveTextureInputIDs p) 0 (resolveTextureInputTextures p)
       (clearDone (js_get (renderTargetIDs p) 1) ds
          (clearDone (js_get (renderTargetIDs p) 0) c0 ex4)) = Inr (textures, ex6)"
    "releaseRenderTargets (renderTargetIDs p) ex6 = Inr ex7"
    "releaseResolveTextureInputs (resolveTextureInputIDs p) ex7 = Inr ex'"
    "p' = p\<lparr>descriptor :=
                \<lparr> colorAttachment = map_option rt_attachment c0,
                  colorResolveTo = colorResolve,
                  depthStencilAttachment = map_option rt_attachment ds,
                  depthStencilResolveTo = dsResolve,
                  colorClearColor = colorClear,
                  depthClearValue = depthClear,
                  stencilClearValue = stencilClear \<rparr>,
              resolveTextureInputTextures := textures\<rparr>"
  using assms unfolding schedulePass_def Let_def bind_err_Inr_iff slotIndex.simps
  by (auto simp del: One_nat_def simp: bind_err_Inr_iff)


subsection \<open>The counting loop\<close>

lemma js_get_js_put: "js_get (js_put xs i v) j = (if j = i then v else js_get xs j)"
  by (auto simp: js_get_def js_put_def nth_append nth_Cons split: nat.splits)

lemma length_js_put: "length (js_put xs i v) = max (length xs) (Suc i)"
  by (auto simp: js_put_def)

lemma js_get_js_incr:
  "js_get (js_incr xs i) j = (if j = i then map_option Suc (js_get xs j) else js_get xs j)"
  by (simp add: js_incr_def js_get_js_put)

lemma js_get_addRenderTargetUses:
  "js_get (addRenderTargetUses ids useCount) r =
     map_option (\<lambda>n. n + count_list ids (Some r)) (js_get useCount r)"
proof (induction ids useCount rule: addRenderTargetUses.induct)
  case (1 useCount)
  show ?case by (simp add: option.map_ident)
next
  case (2 ids useCount)
  then show ?case by simp
next
  case (3 renderTargetID ids useCount)
  then show ?case
    by (cases "js_get useCount r") (auto simp: js_get_js_incr)
qed

lemma addResolveTextureUses_renderTargetUseCount:
  "js_get (renderTargetUseCount (addResolveTextureUses graph ids ex)) r =
     map_option (\<lambda>n. n + inputUses graph ids r) (js_get (renderTargetUseCount ex) r)"
proof (induction ids arbitrary: ex)
  case Nil
  show ?case by (simp add: inputUses_def option.map_ident)
next
  case (Cons i ids)
  show ?case
    by (cases "js_get (renderTargetUseCount ex) r")
      (auto simp: Cons.IH js_get_js_incr inputUses_def split: option.splits)
qed

lemma addResolveTextureUses_resolveTextureUseCount:
  "js_get (resolveTextureUseCount (addResolveTextureUses graph ids ex)) c =
     map_option (\<lambda>n. n + count_list ids c) (js_get (resolveTextureUseCount ex) c)"
proof (induction ids arbitrary: ex)
  case Nil
  show ?case by (simp add: option.map_ident)
next
  case (Cons i ids)
  show ?case
    by (cases "js_get (resolveTextureUseCount ex) c")
      (auto simp: Cons.IH js_get_js_incr)
qed

lemma addResolveTextureUses_others:
  "renderTargetDeadPool (addResolveTextureUses graph ids ex) = renderTargetDeadPool ex"
  "resolveTextureDeadPool (addResolveTextureUses graph ids ex) = resolveTextureDeadPool ex"
  "renderTargetAliveForID (addResolveTextureUses graph ids ex) = renderTargetAliveForID ex"
  "resolveTextureForID (addResolveTextureUses graph ids ex) = resolveTextureForID ex"
  "ex_currentGraph (addResolveTextureUses graph ids ex) = ex_currentGraph ex"
  "ex_currentGraphPass (addResolveTextureUses graph ids ex) = ex_currentGraphPass ex"
  by (induction ids arbitrary: ex) simp_all

lemma buildScenario_graph:
  "buildScenario samples = Inr (scenarioGraph samples, \<lparr>currentGraph = None\<rparr>)"
  by (simp add: buildScenario_def scenarioGraph_def begin_graph_def createRenderTargetID_def
      pushPass_def attachRenderTargetID_def resolveRenderTargetToColorTexture_def
      createResolveTextureID_def findLastPassForRenderTarget_def attachResolveTexture_def
      present_def end_graph_def newSceneGraph_def newPass_def js_get_def js_set_def js_put_def
      Let_def)


text \<open>
  C3: \<^verbatim>\<open>scheduleAddUseCount\<close> on one pass. The use-count of a surface \<open>r\<close> that holds a
  number grows by one for each slot of the pass bound to \<open>r\<close> and by one for each input
  of the pass that is a copy of \<open>r\<close>; the use-count of a copy \<open>c\<close> grows by one for each
  occurrence of \<open>c\<close> among the inputs. A pass with no bound slot and no input changes
  nothing.
\<close>

theorem scheduleAddUseCount_increments:
  "(js_get (renderTargetUseCount ex) r = Some n \<longrightarrow>
      js_get (renderTargetUseCount (scheduleAddUseCount graph pass ex)) r =
        Some (n + count_list (renderTargetIDs pass) (Some r) +
                  inputUses graph (resolveTextureInputIDs pass) r)) \<and>
   (js_get (resolveTextureUseCount ex) c = Some m \<longrightarrow>
      js_get (resolveTextureUseCount (scheduleAddUseCount graph pass ex)) c =
        Some (m + count_list (resolveTextureInputIDs pass) c)) \<and>
   (list_all (\<lambda>x. x = None) (renderTargetIDs pass) \<and> resolveTextureInputIDs pass = [] \<longrightarrow>
      scheduleAddUseCount graph pass ex = ex)"
proof (intro conjI impI)
  assume "js_get (renderTargetUseCount ex) r = Some n"
  then show "js_get (renderTargetUseCount (scheduleAddUseCount graph pass ex)) r =
        Some (n + count_list (renderTargetIDs pass) (Some r) +
                  inputUses graph (resolveTextureInputIDs pass) r)"
    by (simp add: scheduleAddUseCount_def addResolveTextureUses_renderTargetUseCount
        js_get_addRenderTargetUses)
next
  assume "js_get (resolveTextureUseCount ex) c = Some m"
  then show "js_get (resolveTextureUseCount (scheduleAddUseCount graph pass ex)) c =
        Some (m + count_list (resolveTextureInputIDs pass) c)"
    by (simp add: scheduleAddUseCount_def addResolveTextureUses_resolveTextureUseCount)
next
  assume a: "list_all (\<lambda>x. x = None) (renderTargetIDs pass) \<and> resolveTextureInputIDs pass = []"
  have "addRenderTargetUses ids useCount = useCount" if "list_all (\<lambda>x. x = None) ids"
    for ids useCount
    using that by (induction ids useCount rule: addRenderTargetUses.induct) simp_all
  with a show "scheduleAddUseCount graph pass ex = ex"
    by (simp add: scheduleAddUseCount_def)
qed


theorem scheduleAddUseCount_increments_witness:
  "js_get (renderTargetUseCount (fillUseCounts (scenarioGraph 4) newSceneGraphExecutor)) 0 = Some 0 \<and>
   js_get (renderTargetUseCount (scheduleAddUseCount (scenarioGraph 4) (passes (scenarioGraph 4) ! 1)
      (fillUseCounts (scenarioGraph 4) newSceneGraphExecutor))) 0 = Some 1 \<and>
   js_get (renderTargetUseCount (scheduleAddUseCount (scenarioGraph 4) (passes (scenarioGraph 4) ! 1)
      (fillUseCounts (scenarioGraph 4) newSceneGraphExecutor))) 1 = Some 1 \<and>
   js_get (resolveTextureUseCount (fillUseCounts (scenarioGraph 4) newSceneGraphExecutor)) 0 = Some 0 \<and>
   js_get (resolveTextureUseCount (scheduleAddUseCount (scenarioGraph 4) (passes (scenarioGraph 4) ! 1)
      (fillUseCounts (scenarioGraph 4) newSceneGraphExecutor))) 0 = Some 1 \<and>
   list_all (\<lambda>x. x = None) (renderTargetIDs newPass) \<and> resolveTextureInputIDs newPass = [] \<and>
   scheduleAddUseCount (scenarioGraph 4) newPass newSceneGraphExecutor = newSceneGraphExecutor"
proof -
  let ?g = "scenarioGraph 4"
  let ?ex = "fillUseCounts ?g newSceneGraphExecutor"
  let ?p = "passes ?g ! 1"
  have a: "js_get (renderTargetUseCount ?ex) 0 = Some 0"
    "js_get (renderTargetUseCount ?ex) 1 = Some 0"
    "js_get (resolveTextureUseCount ?ex) 0 = Some 0"
    by code_simp+
  have b: "count_list (renderTargetIDs ?p) (Some 0) = 0"
    "count_list (renderTargetIDs ?p) (Some 1) = 1"
    "inputUses ?g (resolveTextureInputIDs ?p) 0 = 1"
    "inputUses ?g (resolveTextureInputIDs ?p) 1 = 0"
    "count_list (resolveTextureInputIDs ?p) 0 = 1"
    by code_simp+
  have c: "list_all (\<lambda>x. x = None) (renderTargetIDs newPass)" "resolveTextureInputIDs newPass = []"
    by code_simp+
  show ?thesis
    using scheduleAddUseCount_increments [of ?ex 0 0 ?g ?p 0 0]
      scheduleAddUseCount_increments [of ?ex 1 0 ?g ?p 0 0]
      scheduleAddUseCount_increments [of newSceneGraphExecutor 0 0 ?g newPass 0 0]
      a b c
    by simp
qed

subsection \<open>The dead pools\<close>

lemma takeFirst_None_iff: "takeFirst P xs = None \<longleftrightarrow> (\<forall>x \<in> set xs. \<not> P x)"
  by (induction xs) (auto split: option.splits)

lemma takeFirst_Some:
  "takeFirst P xs = Some (y, ys) \<Longrightarrow>
     \<exists>as bs. xs = as @ y # bs \<and> ys = as @ bs \<and> P y \<and> (\<forall>a \<in> set as. \<not> P a)"
proof (induction xs arbitrary: y ys)
  case Nil
  then show ?case by simp
next
  case (Cons x xs)
  show ?case
  proof (cases "P x")
    case True
    with Cons.prems have "y = x" "ys = xs" by simp_all
    with True show ?thesis by (intro exI [of _ "[]"] exI [of _ xs]) simp
  next
    case False
    with Cons.prems obtain ys' where t: "takeFirst P xs = Some (y, ys')" and ys: "ys = x # ys'"
      by (auto split: option.splits)
    from Cons.IH [OF t] obtain as bs where
      "xs = as @ y # bs" "ys' = as @ bs" "P y" "\<forall>a \<in> set as. \<not> P a"
      by blast
    with False ys show ?thesis
      by (intro exI [of _ "x # as"] exI [of _ bs]) simp
  qed
qed

lemma takeFirst_hit:
  assumes "\<exists>x \<in> set xs. P x"
  obtains as y bs where "xs = as @ y # bs" "P y" "\<forall>a \<in> set as. \<not> P a"
    "takeFirst P xs = Some (y, as @ bs)"
proof -
  from assms have "takeFirst P xs \<noteq> None" by (simp add: takeFirst_None_iff)
  then obtain y ys where t: "takeFirst P xs = Some (y, ys)" by auto
  from takeFirst_Some [OF t] t that show thesis by blast
qed

lemma sweepRenderTargets_pool:
  "snd (sweepRenderTargets dev rs) = filter (\<lambda>r. rt_age r < ageThreshold) rs"
  by (induction rs arbitrary: dev) (simp_all add: case_prod_unfold)

lemma sweepResolveTextures_pool:
  "snd (sweepResolveTextures dev rs) = filter (\<lambda>r. res_age r < ageThreshold) rs"
  by (induction rs arbitrary: dev) (simp_all add: case_prod_unfold)

lemma rt_destroy_live:
  "set (liveAttachments (rt_destroy dev r)) = set (liveAttachments dev) - {rt_attachment r}"
  "set (liveTextures (rt_destroy dev r)) = set (liveTextures dev) - set_option (rt_texture r)"
  "nextHandle (rt_destroy dev r) = nextHandle dev"
  "submittedPasses (rt_destroy dev r) = submittedPasses dev"
  by (auto simp: rt_destroy_def destroyAttachment_def destroyTexture_def split: option.splits)

lemma res_destroy_live:
  "liveAttachments (res_destroy dev r) = liveAttachments dev"
  "set (liveTextures (res_destroy dev r)) = set (liveTextures dev) - {res_texture r}"
  "nextHandle (res_destroy dev r) = nextHandle dev"
  "submittedPasses (res_destroy dev r) = submittedPasses dev"
  by (auto simp: res_destroy_def destroyTexture_def)

lemma sweepRenderTargets_device:
  "set (liveAttachments (fst (sweepRenderTargets dev rs))) =
     set (liveAttachments dev) - rt_attachment ` {r \<in> set rs. ageThreshold \<le> rt_age r}"
  "set (liveTextures (fst (sweepRenderTargets dev rs))) =
     set (liveTextures dev) - (\<Union>r \<in> {r \<in> set rs. ageThreshold \<le> rt_age r}. set_option (rt_texture r))"
  "nextHandle (fst (sweepRenderTargets dev rs)) = nextHandle dev"
  by (induction rs arbitrary: dev) (auto simp: rt_destroy_live case_prod_unfold)

lemma sweepResolveTextures_device:
  "liveAttachments (fst (sweepResolveTextures dev rs)) = liveAttachments dev"
  "set (liveTextures (fst (sweepResolveTextures dev rs))) =
     set (liveTextures dev) - res_texture ` {r \<in> set rs. ageThreshold \<le> res_age r}"
  "nextHandle (fst (sweepResolveTextures dev rs)) = nextHandle dev"
  by (induction rs arbitrary: dev) (auto simp: res_destroy_live case_prod_unfold)

subsection \<open>What one acquisition or release changes\<close>

lemma js_get_nth: "i < length xs \<Longrightarrow> js_get xs i = xs ! i"
  by (simp add: js_get_def)

lemma js_get_Some_length: "js_get xs i = Some x \<Longrightarrow> i < length xs"
  by (auto simp: js_get_def split: if_splits)

lemma js_get_list_update: "js_get (xs[i := v]) j = (if j = i \<and> i < length xs then v else js_get xs j)"
  by (auto simp: js_get_def)

lemma js_get_js_delete: "js_get (js_delete xs i) j = (if j = i then None else js_get xs j)"
  by (auto simp: js_get_def js_delete_def)

lemma js_get_js_set: "js_get (js_set xs i v) j = (if j = i then Some v else js_get xs j)"
  by (simp add: js_set_def js_get_js_put)

lemma positive_iff: "positive c \<longleftrightarrow> (\<exists>n. c = Some (Suc n))"
  by (cases c) (auto simp: positive_def gr0_conv_Suc)

lemma js_decr_Suc:
  "js_get xs i = Some (Suc n) \<Longrightarrow> js_decr xs i = xs[i := Some n]"
  by (auto simp: js_decr_def js_put_def js_get_def split: if_splits)

lemma releaseRenderTargetForID_Some:
  assumes "releaseRenderTargetForID (Some i) ex = Inr ex'"
  shows "\<exists>n. js_get (renderTargetUseCount ex) i = Some (Suc n) \<and>
     (n \<noteq> 0 \<longrightarrow> ex' = ex\<lparr>renderTargetUseCount := (renderTargetUseCount ex)[i := Some n]\<rparr>) \<and>
     (n = 0 \<longrightarrow> (\<exists>r. js_get (renderTargetAliveForID ex) i = Some r \<and>
           ex' = ex\<lparr>renderTargetUseCount := (renderTargetUseCount ex)[i := Some 0],
                     renderTargetAliveForID := js_delete (renderTargetAliveForID ex) i,
                     renderTargetDeadPool :=
                       renderTargetDeadPool ex @ [r\<lparr>rt_needsClear := True\<rparr>]\<rparr>))"
proof -
  from assms obtain n where n: "js_get (renderTargetUseCount ex) i = Some (Suc n)"
    by (auto simp: releaseRenderTargetForID_def bind_err_Inr_iff positive_iff)
  have len: "i < length (renderTargetUseCount ex)"
    using n by (rule js_get_Some_length)
  have "ex' = ex\<lparr>renderTargetUseCount := (renderTargetUseCount ex)[i := Some n]\<rparr>" if "n \<noteq> 0"
    using assms n len that
    by (simp add: releaseRenderTargetForID_def positive_iff js_decr_Suc js_get_list_update Let_def)
  moreover have "\<exists>r. js_get (renderTargetAliveForID ex) i = Some r \<and>
           ex' = ex\<lparr>renderTargetUseCount := (renderTargetUseCount ex)[i := Some 0],
                     renderTargetAliveForID := js_delete (renderTargetAliveForID ex) i,
                     renderTargetDeadPool :=
                       renderTargetDeadPool ex @ [r\<lparr>rt_needsClear := True\<rparr>]\<rparr>" if "n = 0"
    using assms n len that
    by (auto simp: releaseRenderTargetForID_def positive_iff js_decr_Suc js_get_list_update
          Let_def bind_err_Inr_iff assertExists_Inr_iff)
  ultimately show ?thesis using n by blast
qed

lemma releaseRenderTargetForID_None [simp]: "releaseRenderTargetForID None ex = Inr ex"
  by (simp add: releaseRenderTargetForID_def)

lemma releaseResolveTextureInputForID_Inr:
  assumes "releaseResolveTextureInputForID c ex = Inr ex'"
  obtains n where "js_get (resolveTextureUseCount ex) c = Some (Suc n)"
    and "ex' = ex\<lparr>resolveTextureUseCount := (resolveTextureUseCount ex)[c := Some n],
                    resolveTextureDeadPool := resolveTextureDeadPool ex @
                      (if n = 0 then (case js_get (resolveTextureForID ex) c of
                                        None \<Rightarrow> [] | Some r \<Rightarrow> [r]) else [])\<rparr>"
proof -
  from assms obtain n where n: "js_get (resolveTextureUseCount ex) c = Some (Suc n)"
    by (auto simp: releaseResolveTextureInputForID_def bind_err_Inr_iff positive_iff)
  have len: "c < length (resolveTextureUseCount ex)"
    using n by (rule js_get_Some_length)
  show thesis
  proof (rule that [OF n])
    from assms n len show "ex' = ex\<lparr>resolveTextureUseCount := (resolveTextureUseCount ex)[c := Some n],
                    resolveTextureDeadPool := resolveTextureDeadPool ex @
                      (if n = 0 then (case js_get (resolveTextureForID ex) c of
                                        None \<Rightarrow> [] | Some r \<Rightarrow> [r]) else [])\<rparr>"
      by (auto simp: releaseResolveTextureInputForID_def positive_iff js_decr_Suc
          js_get_list_update Let_def split: option.splits)
  qed
qed

lemma newRenderTarget_Inr:
  assumes "newRenderTarget dev desc = Inr (r, dev')"
  shows "1 \<le> desc_numSamples desc" "rt_needsClear r" "rt_age r = 0"
    "rt_matchesDescription r desc" "rt_texture r = None \<longleftrightarrow> 1 < desc_numSamples desc"
    "rt_width r = desc_width desc" "rt_height r = desc_height desc"
    "rt_numSamples r = desc_numSamples desc"
    "rt_attachment r \<in> set (liveAttachments dev')" "nextHandle dev \<le> rt_attachment r"
    "rt_attachment r < nextHandle dev'"
    "\<forall>t. rt_texture r = Some t \<longrightarrow> t \<in> set (liveTextures dev') \<and> nextHandle dev \<le> t \<and> t < nextHandle dev'"
  using assms
  by (auto simp: newRenderTarget_def bind_err_Inr_iff rt_matchesDescription_def
      createAttachment_def createTexture_def createAttachmentFromTexture_def
      split: if_splits)

lemma acquireRenderTargetForDescription_Inr:
  assumes "acquireRenderTargetForDescription dev desc ex = Inr (r, dev', ex')"
  obtains (hit) as y bs where "renderTargetDeadPool ex = as @ y # bs"
      "rt_matchesDescription y desc" "\<forall>a \<in> set as. \<not> rt_matchesDescription a desc"
      "r = y\<lparr>rt_age := 0\<rparr>" "dev' = dev" "ex' = ex\<lparr>renderTargetDeadPool := as @ bs\<rparr>"
  | (miss) "\<forall>a \<in> set (renderTargetDeadPool ex). \<not> rt_matchesDescription a desc"
      "newRenderTarget dev desc = Inr (r, dev')" "ex' = ex"
proof (cases "takeFirst (\<lambda>r. rt_matchesDescription r desc) (renderTargetDeadPool ex)")
  case None
  with assms have "newRenderTarget dev desc = Inr (r, dev')" "ex' = ex"
    by (auto simp: acquireRenderTargetForDescription_def bind_err_Inr_iff)
  with None show thesis
    by (intro miss) (simp_all add: takeFirst_None_iff)
next
  case (Some a)
  then obtain y ys where a: "a = (y, ys)" by (cases a)
  from takeFirst_Some [OF Some [unfolded a]] obtain as bs where
    "renderTargetDeadPool ex = as @ y # bs" "ys = as @ bs" "rt_matchesDescription y desc"
    "\<forall>a \<in> set as. \<not> rt_matchesDescription a desc"
    by blast
  moreover from assms Some a have "r = y\<lparr>rt_age := 0\<rparr>" "dev' = dev"
    "ex' = ex\<lparr>renderTargetDeadPool := ys\<rparr>"
    by (simp_all add: acquireRenderTargetForDescription_def)
  ultimately show thesis by (intro hit) simp_all
qed

lemma acquireRenderTargetForID_None [simp]:
  "acquireRenderTargetForID dev graph None ex = Inr (None, dev, ex)"
  by (simp add: acquireRenderTargetForID_def)

lemma acquireRenderTargetForID_Some:
  assumes "acquireRenderTargetForID dev graph (Some i) ex = Inr (ro, dev', ex')"
  obtains (alive) r where "positive (js_get (renderTargetUseCount ex) i)"
      "js_get (renderTargetAliveForID ex) i = Some r" "ro = Some r" "dev' = dev" "ex' = ex"
  | (fresh) r desc ex0 where "positive (js_get (renderTargetUseCount ex) i)"
      "js_get (renderTargetAliveForID ex) i = None"
      "nth_opt (renderTargetDescriptions graph) i = Some desc"
      "acquireRenderTargetForDescription dev desc ex = Inr (r, dev', ex0)"
      "ro = Some r"
      "ex' = ex0\<lparr>renderTargetAliveForID := js_set (renderTargetAliveForID ex0) i r\<rparr>"
proof (cases "js_get (renderTargetAliveForID ex) i")
  case None
  from assms have pos: "positive (js_get (renderTargetUseCount ex) i)"
    by (auto simp: acquireRenderTargetForID_def bind_err_Inr_iff)
  from assms None pos obtain desc where d: "nth_opt (renderTargetDescriptions graph) i = Some desc"
    by (cases "nth_opt (renderTargetDescriptions graph) i")
      (auto simp: acquireRenderTargetForID_def)
  from assms None pos d obtain r ex0 where
    "acquireRenderTargetForDescription dev desc ex = Inr (r, dev', ex0)" "ro = Some r"
    "ex' = ex0\<lparr>renderTargetAliveForID := js_set (renderTargetAliveForID ex0) i r\<rparr>"
    by (auto simp: acquireRenderTargetForID_def bind_err_Inr_iff)
  with pos None d show thesis by (rule fresh)
next
  case (Some r)
  from assms have pos: "positive (js_get (renderTargetUseCount ex) i)"
    by (auto simp: acquireRenderTargetForID_def bind_err_Inr_iff)
  from assms Some pos have "ro = Some r" "dev' = dev" "ex' = ex"
    by (auto simp: acquireRenderTargetForID_def)
  with pos Some show thesis by (rule alive)
qed

lemma res_reset_Inr:
  "res_reset r desc = Inr r' \<longleftrightarrow>
     res_matchesDescription r desc \<and> r' = r\<lparr>res_age := 0, res_debugName := desc_debugName desc\<rparr>"
  by (auto simp: res_reset_def bind_err_Inr_iff)

lemma acquireResolveTextureForDescription_Inr:
  assumes "acquireResolveTextureForDescription dev desc ex = Inr (r, dev', ex')"
  obtains (hit) as y bs where "resolveTextureDeadPool ex = as @ y # bs"
      "res_matchesDescription y desc" "\<forall>a \<in> set as. \<not> res_matchesDescription a desc"
      "r = y\<lparr>res_age := 0, res_debugName := desc_debugName desc\<rparr>" "dev' = dev"
      "ex' = ex\<lparr>resolveTextureDeadPool := as @ bs\<rparr>"
  | (miss) "\<forall>a \<in> set (resolveTextureDeadPool ex). \<not> res_matchesDescription a desc"
      "newResolveTexture dev desc = (r, dev')" "ex' = ex"
proof (cases "takeFirst (\<lambda>r. res_matchesDescription r desc) (resolveTextureDeadPool ex)")
  case None
  with assms have "newResolveTexture dev desc = (r, dev')" "ex' = ex"
    by (auto simp: acquireResolveTextureForDescription_def split: prod.splits)
  with None show thesis
    by (intro miss) (simp_all add: takeFirst_None_iff)
next
  case (Some a)
  then obtain y ys where a: "a = (y, ys)" by (cases a)
  from takeFirst_Some [OF Some [unfolded a]] obtain as bs where
    "resolveTextureDeadPool ex = as @ y # bs" "ys = as @ bs" "res_matchesDescription y desc"
    "\<forall>a \<in> set as. \<not> res_matchesDescription a desc"
    by blast
  moreover from assms Some a
  have "r = y\<lparr>res_age := 0, res_debugName := desc_debugName desc\<rparr>" "dev' = dev"
    "ex' = ex\<lparr>resolveTextureDeadPool := ys\<rparr>"
    by (auto simp: acquireResolveTextureForDescription_def bind_err_Inr_iff res_reset_Inr)
  ultimately show thesis by (intro hit) simp_all
qed

lemma acquireResolveTextureOutputForID_None [simp]:
  "acquireResolveTextureOutputForID dev graph src None ex = Inr (None, dev, ex)"
  by (simp add: acquireResolveTextureOutputForID_def)

lemma acquireResolveTextureOutputForID_Some:
  assumes "acquireResolveTextureOutputForID dev graph src (Some c) ex = Inr (t, dev', ex')"
  obtains (textured) i renderTarget where "src = Some i"
      "nth_opt (resolveTextureRenderTargetIDs graph) c = Some i"
      "positive (js_get (resolveTextureUseCount ex) c)"
      "js_get (renderTargetAliveForID ex) i = Some renderTarget"
      "rt_texture renderTarget \<noteq> None" "t = None" "dev' = dev" "ex' = ex"
  | (reused) i renderTarget r where "src = Some i"
      "nth_opt (resolveTextureRenderTargetIDs graph) c = Some i"
      "positive (js_get (resolveTextureUseCount ex) c)"
      "js_get (renderTargetAliveForID ex) i = Some renderTarget"
      "rt_texture renderTarget = None" "js_get (resolveTextureForID ex) c = Some r"
      "t = Some (res_texture r)" "dev' = dev" "ex' = ex"
  | (acquired) i renderTarget desc r ex0 where "src = Some i"
      "nth_opt (resolveTextureRenderTargetIDs graph) c = Some i"
      "positive (js_get (resolveTextureUseCount ex) c)"
      "js_get (renderTargetAliveForID ex) i = Some renderTarget"
      "rt_texture renderTarget = None" "js_get (resolveTextureForID ex) c = None"
      "nth_opt (renderTargetDescriptions graph) i = Some desc"
      "acquireResolveTextureForDescription dev desc ex = Inr (r, dev', ex0)"
      "t = Some (res_texture r)"
      "ex' = ex0\<lparr>resolveTextureForID := js_set (resolveTextureForID ex0) c r\<rparr>"
proof -
  from assms have eq: "src = nth_opt (resolveTextureRenderTargetIDs graph) c"
    and pos: "positive (js_get (resolveTextureUseCount ex) c)"
    by (auto simp: acquireResolveTextureOutputForID_def bind_err_Inr_iff)
  from assms obtain i renderTarget where i: "src = Some i"
    and al: "js_get (renderTargetAliveForID ex) i = Some renderTarget"
    by (cases src) (auto simp: acquireResolveTextureOutputForID_def bind_err_Inr_iff
        assertExists_Inr_iff)
  from eq i have o: "nth_opt (resolveTextureRenderTargetIDs graph) c = Some i" by simp
  have unfold: "acquireResolveTextureOutputForID dev graph src (Some c) ex =
      (if rt_texture renderTarget \<noteq> None then Inr (None, dev, ex)
       else (case js_get (resolveTextureForID ex) c of
               Some r \<Rightarrow> Inr (Some (res_texture r), dev, ex)
             | None \<Rightarrow>
                 bind_err (assertExists (nth_opt (renderTargetDescriptions graph) i)) (\<lambda>desc.
                 bind_err (acquireResolveTextureForDescription dev desc ex) (\<lambda>(r, dev', ex').
                   Inr (Some (res_texture r), dev',
                        ex'\<lparr>resolveTextureForID := js_set (resolveTextureForID ex') c r\<rparr>)))))"
    using i o pos al by (simp add: acquireResolveTextureOutputForID_def cong: option.case_cong)
  show thesis
  proof (cases "rt_texture renderTarget")
    case (Some tx)
    with assms unfold have "t = None" "dev' = dev" "ex' = ex" by simp_all
    with i o pos al Some show thesis by (intro textured [of i renderTarget]) simp_all
  next
    case None
    show thesis
    proof (cases "js_get (resolveTextureForID ex) c")
      case (Some r)
      with assms unfold None have "t = Some (res_texture r)" "dev' = dev" "ex' = ex"
        by simp_all
      with i o pos al None Some show thesis by (intro reused [of i renderTarget r]) simp_all
    next
      case n: None
      from assms unfold None n obtain desc where
        d: "nth_opt (renderTargetDescriptions graph) i = Some desc"
        by (cases "nth_opt (renderTargetDescriptions graph) i") simp_all
      from assms unfold None n d obtain r ex0 where
        "acquireResolveTextureForDescription dev desc ex = Inr (r, dev', ex0)"
        "t = Some (res_texture r)"
        "ex' = ex0\<lparr>resolveTextureForID := js_set (resolveTextureForID ex0) c r\<rparr>"
        by (auto simp: bind_err_Inr_iff)
      with i o pos al None n d show thesis
        by (intro acquired [of i renderTarget desc r ex0]) simp_all
    qed
  qed
qed

lemma acquireResolveTextureInputTextureForID_Inr:
  assumes "acquireResolveTextureInputTextureForID graph c ex = Inr (t, ex')"
  obtains (copy) r where "js_get (resolveTextureForID ex) c = Some r" "t = res_texture r"
      "releaseRenderTargetForID (nth_opt (resolveTextureRenderTargetIDs graph) c) ex = Inr ex'"
  | (direct) i renderTarget where "js_get (resolveTextureForID ex) c = None"
      "nth_opt (resolveTextureRenderTargetIDs graph) c = Some i"
      "js_get (renderTargetAliveForID ex) i = Some renderTarget"
      "rt_texture renderTarget = Some t"
      "releaseRenderTargetForID (Some i) ex = Inr ex'"
proof (cases "js_get (resolveTextureForID ex) c")
  case (Some r)
  with assms have "t = res_texture r"
    "releaseRenderTargetForID (nth_opt (resolveTextureRenderTargetIDs graph) c) ex = Inr ex'"
    by (auto simp: acquireResolveTextureInputTextureForID_def bind_err_Inr_iff Let_def)
  with Some show thesis by (rule copy)
next
  case None
  with assms obtain i where i: "nth_opt (resolveTextureRenderTargetIDs graph) c = Some i"
    by (cases "nth_opt (resolveTextureRenderTargetIDs graph) c")
      (auto simp: acquireResolveTextureInputTextureForID_def bind_err_Inr_iff Let_def)
  from assms None i obtain renderTarget where
    "js_get (renderTargetAliveForID ex) i = Some renderTarget"
    "rt_texture renderTarget = Some t"
    "releaseRenderTargetForID (Some i) ex = Inr ex'"
    by (auto simp: acquireResolveTextureInputTextureForID_def bind_err_Inr_iff Let_def
        assertExists_Inr_iff)
  with None i show thesis by (rule direct)
qed

subsection \<open>Use-counts through the hand-out loop\<close>

lemma released_0 [simp]: "released 0 a a"
  by (cases a) (simp_all add: released_def)

lemma released_trans:
  "released d1 a b \<Longrightarrow> released d2 b c \<Longrightarrow> released (d1 + d2) a c"
  by (cases a) (auto simp: released_def)

lemma countsStep_same:
  assumes "renderTargetUseCount ex' = renderTargetUseCount ex"
    "resolveTextureUseCount ex' = resolveTextureUseCount ex"
    "\<forall>i. js_get (renderTargetAliveForID ex') i \<noteq> None \<longrightarrow>
       js_get (renderTargetAliveForID ex) i \<noteq> None \<or> positive (js_get (renderTargetUseCount ex) i)"
  shows "countsStep (\<lambda>_. 0) (\<lambda>_. 0) ex ex'"
  using assms unfolding countsStep_def aliveCounted_def by auto

lemma countsStep_trans:
  assumes "countsStep d1 e1 a b" "countsStep d2 e2 b c"
  shows "countsStep (\<lambda>r. d1 r + d2 r) (\<lambda>r. e1 r + e2 r) a c"
  using assms unfolding countsStep_def by (auto intro: released_trans)

lemma countsStep_cong:
  assumes "countsStep d e a b" "\<And>r. d r = d' r" "\<And>r. e r = e' r"
  shows "countsStep d' e' a b"
proof -
  from assms(2,3) have "d = d'" "e = e'" by auto
  with assms(1) show ?thesis by simp
qed

lemma countsStep_acquireRenderTargetForID:
  assumes "acquireRenderTargetForID dev graph ido ex = Inr (ro, dev', ex')"
  shows "countsStep (\<lambda>_. 0) (\<lambda>_. 0) ex ex'"
proof (cases ido)
  case None
  with assms show ?thesis by (auto intro: countsStep_same)
next
  case (Some i)
  from assms [unfolded Some] show ?thesis
  proof (cases rule: acquireRenderTargetForID_Some)
    case (alive r)
    then show ?thesis by (auto intro: countsStep_same)
  next
    case (fresh r desc ex0)
    from fresh(4) have "renderTargetUseCount ex0 = renderTargetUseCount ex"
      "resolveTextureUseCount ex0 = resolveTextureUseCount ex"
      "renderTargetAliveForID ex0 = renderTargetAliveForID ex"
      by (cases rule: acquireRenderTargetForDescription_Inr; simp)+
    with fresh(1,6) show ?thesis
      by (intro countsStep_same) (auto simp: js_get_js_set)
  qed
qed

lemma countsStep_acquireResolveTextureOutputForID:
  assumes "acquireResolveTextureOutputForID dev graph src co ex = Inr (t, dev', ex')"
  shows "countsStep (\<lambda>_. 0) (\<lambda>_. 0) ex ex'"
proof (cases co)
  case None
  with assms show ?thesis by (auto intro: countsStep_same)
next
  case (Some c)
  from assms [unfolded Some] show ?thesis
  proof (cases rule: acquireResolveTextureOutputForID_Some)
    case (textured i renderTarget)
    then show ?thesis by (auto intro: countsStep_same)
  next
    case (reused i renderTarget r)
    then show ?thesis by (auto intro: countsStep_same)
  next
    case (acquired i renderTarget desc r ex0)
    from acquired(8) have "renderTargetUseCount ex0 = renderTargetUseCount ex"
      "resolveTextureUseCount ex0 = resolveTextureUseCount ex"
      "renderTargetAliveForID ex0 = renderTargetAliveForID ex"
      by (cases rule: acquireResolveTextureForDescription_Inr; simp)+
    with acquired(10) show ?thesis
      by (intro countsStep_same) auto
  qed
qed

lemma released_list_update:
  assumes "js_get xs i = Some (Suc n)"
  shows "released (if r = i then 1 else 0) (js_get xs r) (js_get (xs[i := Some n]) r)"
  using assms js_get_Some_length [OF assms]
  by (auto simp: released_def js_get_list_update split: option.splits)

lemma countsStep_releaseRenderTargetForID:
  assumes "releaseRenderTargetForID ido ex = Inr ex'"
  shows "countsStep (\<lambda>r. if ido = Some r then 1 else 0) (\<lambda>_. 0) ex ex'"
proof (cases ido)
  case None
  with assms show ?thesis by (auto intro: countsStep_same)
next
  case (Some i)
  from releaseRenderTargetForID_Some [OF assms [unfolded Some]]
  obtain n where n: "js_get (renderTargetUseCount ex) i = Some (Suc n)"
    and pos: "n \<noteq> 0 \<Longrightarrow> ex' = ex\<lparr>renderTargetUseCount := (renderTargetUseCount ex)[i := Some n]\<rparr>"
    and zero: "n = 0 \<Longrightarrow> \<exists>r. js_get (renderTargetAliveForID ex) i = Some r \<and>
           ex' = ex\<lparr>renderTargetUseCount := (renderTargetUseCount ex)[i := Some 0],
                     renderTargetAliveForID := js_delete (renderTargetAliveForID ex) i,
                     renderTargetDeadPool := renderTargetDeadPool ex @ [r\<lparr>rt_needsClear := True\<rparr>]\<rparr>"
    by blast
  have len: "i < length (renderTargetUseCount ex)" using n by (rule js_get_Some_length)
  have cnt: "renderTargetUseCount ex' = (renderTargetUseCount ex)[i := Some n]"
    "resolveTextureUseCount ex' = resolveTextureUseCount ex"
    using pos zero by (cases "n = 0"; auto)+
  have al: "js_get (renderTargetAliveForID ex') j =
      (if n = 0 \<and> j = i then None else js_get (renderTargetAliveForID ex) j)" for j
    using pos zero by (cases "n = 0") (auto simp: js_get_js_delete)
  have "aliveCounted ex'" if "aliveCounted ex"
    unfolding aliveCounted_def
  proof (intro allI impI)
    fix j assume j: "js_get (renderTargetAliveForID ex') j \<noteq> None"
    with al have "js_get (renderTargetAliveForID ex) j \<noteq> None" by (auto split: if_splits)
    with that have p: "positive (js_get (renderTargetUseCount ex) j)"
      by (simp add: aliveCounted_def)
    show "positive (js_get (renderTargetUseCount ex') j)"
    proof (cases "j = i")
      case True
      with j al [of i] have "n \<noteq> 0" by (auto split: if_splits)
      with True len show ?thesis by (simp add: cnt js_get_list_update positive_def)
    next
      case False
      with p show ?thesis by (simp add: cnt js_get_list_update)
    qed
  qed
  moreover have "released (if Some i = Some r then 1 else 0) (js_get (renderTargetUseCount ex) r)
            (js_get (renderTargetUseCount ex') r)" for r
    using released_list_update [OF n, of r] by (cases "r = i") (auto simp: cnt)
  ultimately show ?thesis
    unfolding countsStep_def Some by (simp add: cnt)
qed

lemma countsStep_releaseResolveTextureInputForID:
  assumes "releaseResolveTextureInputForID c ex = Inr ex'"
  shows "countsStep (\<lambda>_. 0) (\<lambda>r. if r = c then 1 else 0) ex ex'"
proof -
  from assms obtain n where n: "js_get (resolveTextureUseCount ex) c = Some (Suc n)"
    and ex': "ex' = ex\<lparr>resolveTextureUseCount := (resolveTextureUseCount ex)[c := Some n],
                    resolveTextureDeadPool := resolveTextureDeadPool ex @
                      (if n = 0 then (case js_get (resolveTextureForID ex) c of
                                        None \<Rightarrow> [] | Some r \<Rightarrow> [r]) else [])\<rparr>"
    by (rule releaseResolveTextureInputForID_Inr)
  show ?thesis
    unfolding countsStep_def aliveCounted_def
  proof (intro conjI allI impI)
    fix r
    show "released (if r = c then 1 else 0) (js_get (resolveTextureUseCount ex) r)
            (js_get (resolveTextureUseCount ex') r)"
      using released_list_update [OF n, of r] by (simp add: ex')
  qed (simp_all add: ex')
qed

lemma countsStep_acquireResolveTextureInputTextureForID:
  assumes "acquireResolveTextureInputTextureForID graph c ex = Inr (t, ex')"
  shows "countsStep (\<lambda>r. if nth_opt (resolveTextureRenderTargetIDs graph) c = Some r then 1 else 0)
           (\<lambda>_. 0) ex ex'"
  using assms
  by (cases rule: acquireResolveTextureInputTextureForID_Inr)
    (auto dest: countsStep_releaseRenderTargetForID)

lemma countsStep_acquireInputTextures:
  assumes "acquireInputTextures graph cs i textures ex = Inr (textures', ex')"
  shows "countsStep (inputUses graph cs) (\<lambda>_. 0) ex ex'"
  using assms
proof (induction cs arbitrary: i textures ex)
  case Nil
  then show ?case by (auto simp: inputUses_def intro: countsStep_same)
next
  case (Cons c cs)
  from Cons.prems obtain t ex1 where
    a: "acquireResolveTextureInputTextureForID graph c ex = Inr (t, ex1)"
    and b: "acquireInputTextures graph cs (Suc i) (js_set textures i t) ex1 = Inr (textures', ex')"
    by (auto simp: bind_err_Inr_iff)
  from countsStep_trans [OF countsStep_acquireResolveTextureInputTextureForID [OF a] Cons.IH [OF b]]
  show ?case
    by (rule countsStep_cong) (simp_all add: inputUses_def)
qed

lemma countsStep_releaseRenderTargets:
  assumes "releaseRenderTargets ids ex = Inr ex'"
  shows "countsStep (\<lambda>r. count_list ids (Some r)) (\<lambda>_. 0) ex ex'"
  using assms
proof (induction ids arbitrary: ex)
  case Nil
  then show ?case by (auto intro: countsStep_same)
next
  case (Cons ido ids)
  from Cons.prems obtain ex1 where
    a: "releaseRenderTargetForID ido ex = Inr ex1"
    and b: "releaseRenderTargets ids ex1 = Inr ex'"
    by (auto simp: bind_err_Inr_iff)
  from countsStep_trans [OF countsStep_releaseRenderTargetForID [OF a] Cons.IH [OF b]]
  show ?case
    by (rule countsStep_cong) auto
qed

lemma countsStep_releaseResolveTextureInputs:
  assumes "releaseResolveTextureInputs cs ex = Inr ex'"
  shows "countsStep (\<lambda>_. 0) (count_list cs) ex ex'"
  using assms
proof (induction cs arbitrary: ex)
  case Nil
  then show ?case by (auto intro: countsStep_same)
next
  case (Cons c cs)
  from Cons.prems obtain ex1 where
    a: "releaseResolveTextureInputForID c ex = Inr ex1"
    and b: "releaseResolveTextureInputs cs ex1 = Inr ex'"
    by (auto simp: bind_err_Inr_iff)
  from countsStep_trans [OF countsStep_releaseResolveTextureInputForID [OF a] Cons.IH [OF b]]
  show ?case
    by (rule countsStep_cong) auto
qed

lemma acquireRenderTargetForID_result:
  assumes "acquireRenderTargetForID dev graph ido ex = Inr (ro, dev', ex')"
  shows "ro = (case ido of None \<Rightarrow> None | Some i \<Rightarrow> js_get (renderTargetAliveForID ex') i) \<and>
         (ro \<noteq> None \<longleftrightarrow> ido \<noteq> None) \<and>
         (\<forall>i. ido = Some i \<longrightarrow> positive (js_get (renderTargetUseCount ex) i))"
proof (cases ido)
  case None
  with assms show ?thesis by auto
next
  case (Some i)
  from assms [unfolded Some]
  have "ro = js_get (renderTargetAliveForID ex') i \<and> ro \<noteq> None \<and>
        positive (js_get (renderTargetUseCount ex) i)"
    by (cases rule: acquireRenderTargetForID_Some) (auto simp: js_get_js_set)
  with Some show ?thesis by auto
qed

lemma clearDone_fields:
  "renderTargetUseCount (clearDone ido ro ex) = renderTargetUseCount ex"
  "resolveTextureUseCount (clearDone ido ro ex) = resolveTextureUseCount ex"
  "renderTargetDeadPool (clearDone ido ro ex) = renderTargetDeadPool ex"
  "resolveTextureDeadPool (clearDone ido ro ex) = resolveTextureDeadPool ex"
  "resolveTextureForID (clearDone ido ro ex) = resolveTextureForID ex"
  "ex_currentGraph (clearDone ido ro ex) = ex_currentGraph ex"
  "ex_currentGraphPass (clearDone ido ro ex) = ex_currentGraphPass ex"
  by (simp_all add: clearDone_def split: option.splits)

lemma clearDone_alive:
  "js_get (renderTargetAliveForID (clearDone ido ro ex)) j =
     (case (ido, ro) of
        (Some i, Some r) \<Rightarrow> if j = i then Some (r\<lparr>rt_needsClear := False\<rparr>)
                            else js_get (renderTargetAliveForID ex) j
      | _ \<Rightarrow> js_get (renderTargetAliveForID ex) j)"
  by (simp add: clearDone_def js_get_js_set split: option.splits)

lemma countsStep_clearDone:
  assumes "\<forall>i. ido = Some i \<longrightarrow> positive (js_get (renderTargetUseCount ex) i)"
  shows "countsStep (\<lambda>_. 0) (\<lambda>_. 0) ex (clearDone ido ro ex)"
  using assms
  by (intro countsStep_same) (auto simp: clearDone_fields clearDone_alive split: option.splits if_splits)

lemma countsStep_counts_eq:
  assumes "countsStep (\<lambda>_. 0) (\<lambda>_. 0) ex ex'"
  shows "js_get (renderTargetUseCount ex') r = js_get (renderTargetUseCount ex) r"
proof -
  from assms have "released 0 (js_get (renderTargetUseCount ex) r)
      (js_get (renderTargetUseCount ex') r)"
    by (simp add: countsStep_def)
  then show ?thesis
    by (cases "js_get (renderTargetUseCount ex) r") (simp_all add: released_def)
qed

lemma countsStep_schedulePass:
  assumes "schedulePass dev graph pass presentColorTexture ex = Inr (pass', dev', ex')"
  shows "countsStep (passUses graph pass) (count_list (resolveTextureInputIDs pass)) ex ex'"
proof -
  from assms obtain c0 dev1 ex1 ds dev2 ex2 colorResolve dev3 ex3 dsResolve ex4 textures ex6 ex7
    where a1: "acquireRenderTargetForID dev graph (js_get (renderTargetIDs pass) 0) ex
                = Inr (c0, dev1, ex1)"
      and a2: "acquireRenderTargetForID dev1 graph (js_get (renderTargetIDs pass) 1) ex1
                = Inr (ds, dev2, ex2)"
      and o1: "(if doPresent pass then Inr (presentColorTexture, dev2, ex2)
               else acquireResolveTextureOutputForID dev2 graph (js_get (renderTargetIDs pass) 0)
                      (js_get (resolveTextureOutputIDs pass) 0) ex2) = Inr (colorResolve, dev3, ex3)"
      and o2: "acquireResolveTextureOutputForID dev3 graph (js_get (renderTargetIDs pass) 1)
                 (js_get (resolveTextureOutputIDs pass) 1) ex3 = Inr (dsResolve, dev', ex4)"
      and i: "acquireInputTextures graph (resolveTextureInputIDs pass) 0
                (resolveTextureInputTextures pass)
                (clearDone (js_get (renderTargetIDs pass) 1) ds
                   (clearDone (js_get (renderTargetIDs pass) 0) c0 ex4)) = Inr (textures, ex6)"
      and r1: "releaseRenderTargets (renderTargetIDs pass) ex6 = Inr ex7"
      and r2: "releaseResolveTextureInputs (resolveTextureInputIDs pass) ex7 = Inr ex'"
    by (rule schedulePass_Inr)
  let ?ex5a = "clearDone (js_get (renderTargetIDs pass) 0) c0 ex4"
  let ?ex5 = "clearDone (js_get (renderTargetIDs pass) 1) ds ?ex5a"
  have s1: "countsStep (\<lambda>_. 0) (\<lambda>_. 0) ex ex1"
    using a1 by (rule countsStep_acquireRenderTargetForID)
  have s2: "countsStep (\<lambda>_. 0) (\<lambda>_. 0) ex1 ex2"
    using a2 by (rule countsStep_acquireRenderTargetForID)
  have s3: "countsStep (\<lambda>_. 0) (\<lambda>_. 0) ex2 ex3"
    using o1 by (cases "doPresent pass")
      (auto intro: countsStep_same countsStep_acquireResolveTextureOutputForID)
  have s4: "countsStep (\<lambda>_. 0) (\<lambda>_. 0) ex3 ex4"
    using o2 by (rule countsStep_acquireResolveTextureOutputForID)
  have c4: "js_get (renderTargetUseCount ex4) r = js_get (renderTargetUseCount ex) r"
    and c41: "js_get (renderTargetUseCount ex4) r = js_get (renderTargetUseCount ex1) r" for r
    by (simp_all add: countsStep_counts_eq [OF s1] countsStep_counts_eq [OF s2]
        countsStep_counts_eq [OF s3] countsStep_counts_eq [OF s4])
  have s5a: "countsStep (\<lambda>_. 0) (\<lambda>_. 0) ex4 ?ex5a"
    using acquireRenderTargetForID_result [OF a1] by (intro countsStep_clearDone) (simp add: c4)
  have s5: "countsStep (\<lambda>_. 0) (\<lambda>_. 0) ?ex5a ?ex5"
    using acquireRenderTargetForID_result [OF a2]
    by (intro countsStep_clearDone) (simp add: clearDone_fields c41)
  note s6 = countsStep_acquireInputTextures [OF i]
  note s7 = countsStep_releaseRenderTargets [OF r1]
  note s8 = countsStep_releaseResolveTextureInputs [OF r2]
  note all = countsStep_trans [OF s1 countsStep_trans [OF s2 countsStep_trans [OF s3
      countsStep_trans [OF s4 countsStep_trans [OF s5a countsStep_trans [OF s5
      countsStep_trans [OF s6 countsStep_trans [OF s7 s8]]]]]]]]
  show ?thesis
    by (rule countsStep_cong [OF all]) (simp_all add: passUses_def)
qed

lemma countsStep_schedulePasses:
  assumes "schedulePasses dev graph ps presentColorTexture ex = Inr (ps', dev', ex')"
  shows "countsStep (graphUses graph ps) (copyUses ps) ex ex'"
  using assms
proof (induction ps arbitrary: dev ex ps')
  case Nil
  then show ?case by (auto simp: graphUses_def copyUses_def intro: countsStep_same)
next
  case (Cons p ps)
  from Cons.prems obtain p' dev1 ex1 ps1 where
    a: "schedulePass dev graph p presentColorTexture ex = Inr (p', dev1, ex1)"
    and b: "schedulePasses dev1 graph ps presentColorTexture ex1 = Inr (ps1, dev', ex')"
    by (auto simp: bind_err_Inr_iff)
  from countsStep_trans [OF countsStep_schedulePass [OF a] Cons.IH [OF b]]
  show ?case
    by (rule countsStep_cong) (simp_all add: graphUses_def copyUses_def)
qed

lemma length_js_incr: "length (js_incr xs i) = max (length xs) (Suc i)"
  by (simp add: js_incr_def length_js_put)

lemma scheduleAddUseCount_counts:
  "js_get (renderTargetUseCount (scheduleAddUseCount graph pass ex)) r =
     map_option (\<lambda>n. n + passUses graph pass r) (js_get (renderTargetUseCount ex) r)"
  "js_get (resolveTextureUseCount (scheduleAddUseCount graph pass ex)) c =
     map_option (\<lambda>n. n + count_list (resolveTextureInputIDs pass) c)
       (js_get (resolveTextureUseCount ex) c)"
  by (simp_all add: scheduleAddUseCount_def addResolveTextureUses_renderTargetUseCount
      addResolveTextureUses_resolveTextureUseCount js_get_addRenderTargetUses passUses_def
      option.map_comp comp_def add.assoc)

lemma scheduleAddUseCount_others:
  "renderTargetDeadPool (scheduleAddUseCount graph pass ex) = renderTargetDeadPool ex"
  "resolveTextureDeadPool (scheduleAddUseCount graph pass ex) = resolveTextureDeadPool ex"
  "renderTargetAliveForID (scheduleAddUseCount graph pass ex) = renderTargetAliveForID ex"
  "resolveTextureForID (scheduleAddUseCount graph pass ex) = resolveTextureForID ex"
  "ex_currentGraph (scheduleAddUseCount graph pass ex) = ex_currentGraph ex"
  "ex_currentGraphPass (scheduleAddUseCount graph pass ex) = ex_currentGraphPass ex"
  by (simp_all add: scheduleAddUseCount_def addResolveTextureUses_others)

lemma countPasses_counts:
  "js_get (renderTargetUseCount (countPasses graph ps ex)) r =
     map_option (\<lambda>n. n + graphUses graph ps r) (js_get (renderTargetUseCount ex) r)"
  "js_get (resolveTextureUseCount (countPasses graph ps ex)) c =
     map_option (\<lambda>n. n + copyUses ps c) (js_get (resolveTextureUseCount ex) c)"
  by (induction ps arbitrary: ex)
    (simp_all add: graphUses_def copyUses_def scheduleAddUseCount_counts option.map_ident
      option.map_comp comp_def add.assoc)

lemma countPasses_others:
  "renderTargetDeadPool (countPasses graph ps ex) = renderTargetDeadPool ex"
  "resolveTextureDeadPool (countPasses graph ps ex) = resolveTextureDeadPool ex"
  "renderTargetAliveForID (countPasses graph ps ex) = renderTargetAliveForID ex"
  "resolveTextureForID (countPasses graph ps ex) = resolveTextureForID ex"
  "ex_currentGraph (countPasses graph ps ex) = ex_currentGraph ex"
  "ex_currentGraphPass (countPasses graph ps ex) = ex_currentGraphPass ex"
  by (induction ps arbitrary: ex) (simp_all add: scheduleAddUseCount_others)

lemma length_addRenderTargetUses:
  "r < length (addRenderTargetUses ids useCount) \<Longrightarrow>
     r < length useCount \<or> (\<exists>r'\<ge>r. 0 < count_list ids (Some r'))"
proof (induction ids useCount rule: addRenderTargetUses.induct)
  case (1 useCount)
  then show ?case by simp
next
  case (2 ids useCount)
  then show ?case by simp
next
  case (3 renderTargetID ids useCount)
  from "3.IH" [OF "3.prems" [simplified]]
  show ?case
  proof
    assume "r < length (js_incr useCount renderTargetID)"
    then have "r < length useCount \<or> r \<le> renderTargetID"
      by (auto simp: length_js_incr)
    then show ?thesis by auto
  next
    assume "\<exists>r'\<ge>r. 0 < count_list ids (Some r')"
    then show ?thesis by auto
  qed
qed

lemma length_addResolveTextureUses:
  "r < length (renderTargetUseCount (addResolveTextureUses graph ids ex)) \<Longrightarrow>
     r < length (renderTargetUseCount ex) \<or> (\<exists>r'\<ge>r. 0 < inputUses graph ids r')"
  "c < length (resolveTextureUseCount (addResolveTextureUses graph ids ex)) \<Longrightarrow>
     c < length (resolveTextureUseCount ex) \<or> (\<exists>c'\<ge>c. 0 < count_list ids c')"
proof (induction ids arbitrary: ex)
  case Nil
  { case 1 then show ?case by simp }
  { case 2 then show ?case by simp }
next
  case (Cons i ids)
  { case 1
    from Cons.IH(1) [OF "1" [simplified]]
    show ?case
    proof
      assume a: "r < length (renderTargetUseCount
        (ex\<lparr>resolveTextureUseCount := js_incr (resolveTextureUseCount ex) i,
            renderTargetUseCount :=
              case nth_opt (resolveTextureRenderTargetIDs graph) i of
                None \<Rightarrow> renderTargetUseCount ex
              | Some renderTargetID \<Rightarrow> js_incr (renderTargetUseCount ex) renderTargetID\<rparr>))"
      show ?thesis
      proof (cases "nth_opt (resolveTextureRenderTargetIDs graph) i")
        case None
        with a show ?thesis by simp
      next
        case (Some x)
        with a have "r < length (renderTargetUseCount ex) \<or> r \<le> x"
          by (auto simp: length_js_incr)
        with Some show ?thesis by (auto simp: inputUses_def)
      qed
    next
      assume "\<exists>r'\<ge>r. 0 < inputUses graph ids r'"
      then show ?thesis by (auto simp: inputUses_def)
    qed }
  { case 2
    from Cons.IH(2) [OF "2" [simplified]]
    show ?case
    proof
      assume "c < length (resolveTextureUseCount
        (ex\<lparr>resolveTextureUseCount := js_incr (resolveTextureUseCount ex) i,
            renderTargetUseCount :=
              case nth_opt (resolveTextureRenderTargetIDs graph) i of
                None \<Rightarrow> renderTargetUseCount ex
              | Some renderTargetID \<Rightarrow> js_incr (renderTargetUseCount ex) renderTargetID\<rparr>))"
      then have "c < length (resolveTextureUseCount ex) \<or> c \<le> i"
        by (auto simp: length_js_incr)
      then show ?thesis by auto
    next
      assume "\<exists>c'\<ge>c. 0 < count_list ids c'"
      then show ?thesis by auto
    qed }
qed

lemma length_scheduleAddUseCount:
  "r < length (renderTargetUseCount (scheduleAddUseCount graph pass ex)) \<Longrightarrow>
     r < length (renderTargetUseCount ex) \<or> (\<exists>r'\<ge>r. 0 < passUses graph pass r')"
  "c < length (resolveTextureUseCount (scheduleAddUseCount graph pass ex)) \<Longrightarrow>
     c < length (resolveTextureUseCount ex) \<or>
     (\<exists>c'\<ge>c. 0 < count_list (resolveTextureInputIDs pass) c')"
proof -
  assume "r < length (renderTargetUseCount (scheduleAddUseCount graph pass ex))"
  from length_addResolveTextureUses(1) [OF this [unfolded scheduleAddUseCount_def]]
  show "r < length (renderTargetUseCount ex) \<or> (\<exists>r'\<ge>r. 0 < passUses graph pass r')"
  proof
    assume "r < length (renderTargetUseCount
       (ex\<lparr>renderTargetUseCount :=
             addRenderTargetUses (renderTargetIDs pass) (renderTargetUseCount ex)\<rparr>))"
    then have "r < length (addRenderTargetUses (renderTargetIDs pass) (renderTargetUseCount ex))"
      by simp
    from length_addRenderTargetUses [OF this] show ?thesis
      by (auto simp: passUses_def)
  next
    assume "\<exists>r'\<ge>r. 0 < inputUses graph (resolveTextureInputIDs pass) r'"
    then show ?thesis by (auto simp: passUses_def)
  qed
next
  assume "c < length (resolveTextureUseCount (scheduleAddUseCount graph pass ex))"
  from length_addResolveTextureUses(2) [OF this [unfolded scheduleAddUseCount_def]]
  show "c < length (resolveTextureUseCount ex) \<or>
     (\<exists>c'\<ge>c. 0 < count_list (resolveTextureInputIDs pass) c')"
    by simp
qed

lemma length_countPasses:
  "r < length (renderTargetUseCount (countPasses graph ps ex)) \<Longrightarrow>
     r < length (renderTargetUseCount ex) \<or> (\<exists>r'\<ge>r. 0 < graphUses graph ps r')"
  "c < length (resolveTextureUseCount (countPasses graph ps ex)) \<Longrightarrow>
     c < length (resolveTextureUseCount ex) \<or> (\<exists>c'\<ge>c. 0 < copyUses ps c')"
proof (induction ps arbitrary: ex)
  case Nil
  { case 1 then show ?case by simp }
  { case 2 then show ?case by simp }
next
  case (Cons p ps)
  { case 1
    from Cons.IH(1) [OF "1" [simplified]] show ?case
    proof
      assume "r < length (renderTargetUseCount (scheduleAddUseCount graph p ex))"
      from length_scheduleAddUseCount(1) [OF this] show ?thesis
        by (auto simp: graphUses_def)
    next
      assume "\<exists>r'\<ge>r. 0 < graphUses graph ps r'"
      then show ?thesis by (auto simp: graphUses_def)
    qed }
  { case 2
    from Cons.IH(2) [OF "2" [simplified]] show ?case
    proof
      assume "c < length (resolveTextureUseCount (scheduleAddUseCount graph p ex))"
      from length_scheduleAddUseCount(2) [OF this] show ?thesis
        by (auto simp: copyUses_def)
    next
      assume "\<exists>c'\<ge>c. 0 < copyUses ps c'"
      then show ?thesis by (auto simp: copyUses_def)
    qed }
qed

text \<open>The counts of an array that was filled with zeros, counted up and handed out.\<close>

lemma handed_out_zero:
  assumes fill: "filled = replicate n (Some 0)"
    and count: "\<And>r. js_get counted r = map_option (\<lambda>k. k + uses r) (js_get filled r)"
    and len: "\<And>r. r < length counted \<Longrightarrow> r < length filled \<or> (\<exists>r'\<ge>r. 0 < uses r')"
    and rel: "\<And>r. released (uses r) (js_get counted r) (js_get final r)"
    and same: "length final = length counted"
  shows "list_all (\<lambda>c. c = Some 0) final"
proof -
  have out: "uses r = 0" if "n \<le> r" for r
  proof -
    from that fill have "js_get filled r = None" by (simp add: js_get_def)
    then have "js_get counted r = None" by (simp add: count)
    with rel [of r] show ?thesis by (simp add: released_def)
  qed
  have "final ! r = Some 0" if r: "r < length final" for r
  proof -
    from r same have "r < length counted" by simp
    from len [OF this] have "r < n"
    proof
      assume "r < length filled" then show ?thesis by (simp add: fill)
    next
      assume "\<exists>r'\<ge>r. 0 < uses r'"
      then obtain r' where "r \<le> r'" "0 < uses r'" by blast
      with out [of r'] show ?thesis by (cases "n \<le> r'") auto
    qed
    then have "js_get filled r = Some 0" by (simp add: fill js_get_def)
    then have "js_get counted r = Some (uses r)" by (simp add: count)
    with rel [of r] have "js_get final r = Some 0" by (simp add: released_def)
    with r show ?thesis by (simp add: js_get_def)
  qed
  then show ?thesis by (simp add: list_all_length)
qed

lemma schedulePasses_allHandedOut:
  assumes idle: "list_all (\<lambda>r. r = None) (renderTargetAliveForID ex)"
    and run: "schedulePasses dev graph (passes graph) presentColorTexture
                (countPasses graph (passes graph) (fillUseCounts graph (agePools ex)))
              = Inr (ps, dev', ex')"
  shows "allHandedOut ex'"
proof -
  let ?f = "fillUseCounts graph (agePools ex)"
  let ?c = "countPasses graph (passes graph) ?f"
  note step = countsStep_schedulePasses [OF run]
  have rt: "list_all (\<lambda>c. c = Some 0) (renderTargetUseCount ex')"
  proof (rule handed_out_zero [where uses = "graphUses graph (passes graph)"
        and counted = "renderTargetUseCount ?c" and filled = "renderTargetUseCount ?f"])
    show "renderTargetUseCount ?f = replicate (length (renderTargetDescriptions graph)) (Some 0)"
      by (simp add: fillUseCounts_def)
  qed (use step in \<open>simp_all add: countPasses_counts length_countPasses countsStep_def\<close>)
  have res: "list_all (\<lambda>c. c = Some 0) (resolveTextureUseCount ex')"
  proof (rule handed_out_zero [where uses = "copyUses (passes graph)"
        and counted = "resolveTextureUseCount ?c" and filled = "resolveTextureUseCount ?f"])
    show "resolveTextureUseCount ?f =
        replicate (length (resolveTextureRenderTargetIDs graph)) (Some 0)"
      by (simp add: fillUseCounts_def)
  qed (use step in \<open>simp_all add: countPasses_counts length_countPasses countsStep_def\<close>)
  have "renderTargetAliveForID ?c = renderTargetAliveForID ex"
    by (simp add: countPasses_others fillUseCounts_def agePools_def)
  with idle have "aliveCounted ?c"
    by (auto simp: aliveCounted_def js_get_def list_all_length)
  with step have ac: "aliveCounted ex'" by (simp add: countsStep_def)
  have "js_get (renderTargetAliveForID ex') i = None" for i
  proof (rule ccontr)
    assume "js_get (renderTargetAliveForID ex') i \<noteq> None"
    with ac have p: "positive (js_get (renderTargetUseCount ex') i)"
      by (simp add: aliveCounted_def)
    then have "i < length (renderTargetUseCount ex')"
      by (auto simp: positive_iff dest: js_get_Some_length)
    with rt have "js_get (renderTargetUseCount ex') i = Some 0"
      by (simp add: list_all_length js_get_def)
    with p show False by (simp add: positive_def)
  qed
  then have "list_all (\<lambda>r. r = None) (renderTargetAliveForID ex')"
    unfolding list_all_length by (metis js_get_nth)
  with rt res show ?thesis by (simp add: allHandedOut_def)
qed

lemma scheduleGraph_Inr:
  assumes "scheduleGraph dev graph presentColorTexture ex = Inr (graph1, dev1, ex1)"
  obtains ps dev0 ex0 where
    "renderTargetUseCount ex = []" "resolveTextureUseCount ex = []"
    "schedulePasses dev graph (passes graph) presentColorTexture
       (countPasses graph (passes graph) (fillUseCounts graph (agePools ex)))
     = Inr (ps, dev0, ex0)"
    "allHandedOut ex0" "graph1 = graph\<lparr>passes := ps\<rparr>"
    "dev1 = fst (sweepPools dev0 ex0)"
    "ex1 = (snd (sweepPools dev0 ex0))\<lparr>renderTargetUseCount := [], resolveTextureUseCount := []\<rparr>"
  using assms unfolding scheduleGraph_def bind_err_Inr_iff case_prod_unfold
  by auto

text \<open>
  C1: take any graph, scheduled by an executor whose alive table is empty at entry (as
  it is in a new executor and after every completed \<^verbatim>\<open>scheduleGraph\<close>). If the hand-out
  loop has processed every pass without a failed assertion, then every surface use-count
  and every copy use-count is exactly zero and no alive entry is left. Whenever the state
  after the hand-out loop is not of that kind (which takes a stale alive entry at entry),
  \<^verbatim>\<open>scheduleGraph\<close> ends in a failed assertion. A completed \<^verbatim>\<open>scheduleGraph\<close> leaves
  both use-count arrays empty and the alive table without entries.
\<close>

theorem scheduleGraph_use_counts_zero:
  "(list_all (\<lambda>r. r = None) (renderTargetAliveForID ex) \<and>
    schedulePasses dev graph (passes graph) presentColorTexture
      (countPasses graph (passes graph) (fillUseCounts graph (agePools ex)))
      = Inr (ps, dev', ex')
    \<longrightarrow> list_all (\<lambda>c. c = Some 0) (renderTargetUseCount ex') \<and>
        list_all (\<lambda>c. c = Some 0) (resolveTextureUseCount ex') \<and>
        list_all (\<lambda>r. r = None) (renderTargetAliveForID ex')) \<and>
   (schedulePasses dev graph (passes graph) presentColorTexture
      (countPasses graph (passes graph) (fillUseCounts graph (agePools ex)))
      = Inr (ps, dev', ex') \<and>
    \<not> (list_all (\<lambda>c. c = Some 0) (renderTargetUseCount ex') \<and>
       list_all (\<lambda>c. c = Some 0) (resolveTextureUseCount ex') \<and>
       list_all (\<lambda>r. r = None) (renderTargetAliveForID ex'))
    \<longrightarrow> scheduleGraph dev graph presentColorTexture ex = Inl AssertionFailed) \<and>
   (scheduleGraph dev graph presentColorTexture ex = Inr (graph1, dev1, ex1)
    \<longrightarrow> renderTargetUseCount ex1 = [] \<and> resolveTextureUseCount ex1 = [] \<and>
        list_all (\<lambda>r. r = None) (renderTargetAliveForID ex1))"
proof (intro conjI impI)
  assume a: "list_all (\<lambda>r. r = None) (renderTargetAliveForID ex) \<and>
    schedulePasses dev graph (passes graph) presentColorTexture
      (countPasses graph (passes graph) (fillUseCounts graph (agePools ex)))
      = Inr (ps, dev', ex')"
  then have "allHandedOut ex'"
    by (intro schedulePasses_allHandedOut [of ex dev graph presentColorTexture ps dev' ex']) simp_all
  then show "list_all (\<lambda>c. c = Some 0) (renderTargetUseCount ex')"
    "list_all (\<lambda>c. c = Some 0) (resolveTextureUseCount ex')"
    "list_all (\<lambda>r. r = None) (renderTargetAliveForID ex')"
    by (simp_all add: allHandedOut_def)
next
  assume "schedulePasses dev graph (passes graph) presentColorTexture
      (countPasses graph (passes graph) (fillUseCounts graph (agePools ex)))
      = Inr (ps, dev', ex') \<and>
    \<not> (list_all (\<lambda>c. c = Some 0) (renderTargetUseCount ex') \<and>
       list_all (\<lambda>c. c = Some 0) (resolveTextureUseCount ex') \<and>
       list_all (\<lambda>r. r = None) (renderTargetAliveForID ex'))"
  then show "scheduleGraph dev graph presentColorTexture ex = Inl AssertionFailed"
    by (auto simp: scheduleGraph_def allHandedOut_def assert_def bind_err_def)
next
  assume "scheduleGraph dev graph presentColorTexture ex = Inr (graph1, dev1, ex1)"
  then obtain ps0 dev0 ex0 where "allHandedOut ex0"
    and e: "ex1 = (snd (sweepPools dev0 ex0))\<lparr>renderTargetUseCount := [], resolveTextureUseCount := []\<rparr>"
    by (rule scheduleGraph_Inr)
  then show "renderTargetUseCount ex1 = []" "resolveTextureUseCount ex1 = []"
    "list_all (\<lambda>r. r = None) (renderTargetAliveForID ex1)"
    by (simp_all add: sweepPools_def allHandedOut_def case_prod_unfold)
qed

theorem scheduleGraph_use_counts_zero_witness:
  "list_all (\<lambda>r. r = None) (renderTargetAliveForID newSceneGraphExecutor) \<and>
   (\<exists>ps dev' ex'.
      schedulePasses device0 (scenarioGraph 4) (passes (scenarioGraph 4)) (Some 0)
        (countPasses (scenarioGraph 4) (passes (scenarioGraph 4))
           (fillUseCounts (scenarioGraph 4) (agePools newSceneGraphExecutor)))
        = Inr (ps, dev', ex') \<and>
      list_all (\<lambda>c. c = Some 0) (renderTargetUseCount ex') \<and>
      list_all (\<lambda>c. c = Some 0) (resolveTextureUseCount ex') \<and>
      list_all (\<lambda>r. r = None) (renderTargetAliveForID ex')) \<and>
   (\<exists>graph1 dev1 ex1.
      scheduleGraph device0 (scenarioGraph 4) (Some 0) newSceneGraphExecutor
        = Inr (graph1, dev1, ex1) \<and>
      renderTargetUseCount ex1 = [] \<and> resolveTextureUseCount ex1 = [] \<and>
      list_all (\<lambda>r. r = None) (renderTargetAliveForID ex1)) \<and>
   schedulePasses device0 newSceneGraph (passes newSceneGraph) None
      (countPasses newSceneGraph (passes newSceneGraph)
         (fillUseCounts newSceneGraph (agePools staleExecutor)))
      = Inr ([], device0, staleExecutor) \<and>
   \<not> list_all (\<lambda>r. r = None) (renderTargetAliveForID staleExecutor) \<and>
   scheduleGraph device0 newSceneGraph None staleExecutor = Inl AssertionFailed"
proof -
  let ?g = "scenarioGraph 4"
  let ?run = "schedulePasses device0 ?g (passes ?g) (Some 0)
        (countPasses ?g (passes ?g) (fillUseCounts ?g (agePools newSceneGraphExecutor)))"
  have idle: "list_all (\<lambda>r. r = None) (renderTargetAliveForID newSceneGraphExecutor)"
    by (simp add: newSceneGraphExecutor_def)
  have "\<not> isl ?run" by code_simp
  then obtain ps dev' ex' where run: "?run = Inr (ps, dev', ex')"
    by (cases ?run) auto
  have "\<not> isl (scheduleGraph device0 ?g (Some 0) newSceneGraphExecutor)" by code_simp
  then obtain graph1 dev1 ex1 where
    sg: "scheduleGraph device0 ?g (Some 0) newSceneGraphExecutor = Inr (graph1, dev1, ex1)"
    by (cases "scheduleGraph device0 ?g (Some 0) newSceneGraphExecutor") auto
  have stale: "schedulePasses device0 newSceneGraph (passes newSceneGraph) None
      (countPasses newSceneGraph (passes newSceneGraph)
         (fillUseCounts newSceneGraph (agePools staleExecutor)))
      = Inr ([], device0, staleExecutor)"
    by (simp add: newSceneGraph_def fillUseCounts_def agePools_def staleExecutor_def
        newSceneGraphExecutor_def)
  have nonempty: "\<not> list_all (\<lambda>r. r = None) (renderTargetAliveForID staleExecutor)"
    by (simp add: staleExecutor_def)
  note a = scheduleGraph_use_counts_zero
      [of newSceneGraphExecutor device0 ?g "Some 0" ps dev' ex' graph1 dev1 ex1]
  note b = scheduleGraph_use_counts_zero
      [of staleExecutor device0 newSceneGraph None "[]" device0 staleExecutor]
  from a idle run have 1: "list_all (\<lambda>c. c = Some 0) (renderTargetUseCount ex') \<and>
      list_all (\<lambda>c. c = Some 0) (resolveTextureUseCount ex') \<and>
      list_all (\<lambda>r. r = None) (renderTargetAliveForID ex')"
    by blast
  from a sg have 2: "renderTargetUseCount ex1 = [] \<and> resolveTextureUseCount ex1 = [] \<and>
      list_all (\<lambda>r. r = None) (renderTargetAliveForID ex1)"
    by blast
  from b stale nonempty
  have 3: "scheduleGraph device0 newSceneGraph None staleExecutor = Inl AssertionFailed"
    by blast
  from idle run 1 sg 2 stale nonempty 3 show ?thesis by blast
qed

subsection \<open>The parts of the state that an operation leaves alone\<close>

lemma acquireRenderTargetForID_frame:
  assumes "acquireRenderTargetForID dev graph ido ex = Inr (ro, dev', ex')"
  shows "resolveTextureDeadPool ex' = resolveTextureDeadPool ex \<and>
         resolveTextureForID ex' = resolveTextureForID ex \<and>
         renderTargetUseCount ex' = renderTargetUseCount ex \<and>
         resolveTextureUseCount ex' = resolveTextureUseCount ex"
proof (cases ido)
  case None
  with assms show ?thesis by auto
next
  case (Some i)
  from assms [unfolded Some] show ?thesis
  proof (cases rule: acquireRenderTargetForID_Some)
    case (alive r)
    then show ?thesis by simp
  next
    case (fresh r desc ex0)
    from fresh(4) have "resolveTextureDeadPool ex0 = resolveTextureDeadPool ex \<and>
         resolveTextureForID ex0 = resolveTextureForID ex \<and>
         renderTargetUseCount ex0 = renderTargetUseCount ex \<and>
         resolveTextureUseCount ex0 = resolveTextureUseCount ex"
      by (cases rule: acquireRenderTargetForDescription_Inr) simp_all
    with fresh(6) show ?thesis by simp
  qed
qed

lemma acquireResolveTextureOutputForID_frame:
  assumes "acquireResolveTextureOutputForID dev graph src co ex = Inr (t, dev', ex')"
  shows "renderTargetDeadPool ex' = renderTargetDeadPool ex \<and>
         renderTargetAliveForID ex' = renderTargetAliveForID ex \<and>
         renderTargetUseCount ex' = renderTargetUseCount ex \<and>
         resolveTextureUseCount ex' = resolveTextureUseCount ex"
proof (cases co)
  case None
  with assms show ?thesis by auto
next
  case (Some c)
  from assms [unfolded Some] show ?thesis
  proof (cases rule: acquireResolveTextureOutputForID_Some)
    case (textured i renderTarget)
    then show ?thesis by simp
  next
    case (reused i renderTarget r)
    then show ?thesis by simp
  next
    case (acquired i renderTarget desc r ex0)
    from acquired(8) have "renderTargetDeadPool ex0 = renderTargetDeadPool ex \<and>
         renderTargetAliveForID ex0 = renderTargetAliveForID ex \<and>
         renderTargetUseCount ex0 = renderTargetUseCount ex \<and>
         resolveTextureUseCount ex0 = resolveTextureUseCount ex"
      by (cases rule: acquireResolveTextureForDescription_Inr) simp_all
    with acquired(10) show ?thesis by simp
  qed
qed

lemma releaseRenderTargetForID_frame:
  assumes "releaseRenderTargetForID ido ex = Inr ex'"
  shows "resolveTextureDeadPool ex' = resolveTextureDeadPool ex \<and>
         resolveTextureForID ex' = resolveTextureForID ex \<and>
         resolveTextureUseCount ex' = resolveTextureUseCount ex"
proof (cases ido)
  case None
  with assms show ?thesis by simp
next
  case (Some i)
  from releaseRenderTargetForID_Some [OF assms [unfolded Some]] obtain n where
    pos: "n \<noteq> 0 \<Longrightarrow> ex' = ex\<lparr>renderTargetUseCount := (renderTargetUseCount ex)[i := Some n]\<rparr>"
    and zero: "n = 0 \<Longrightarrow> \<exists>r. js_get (renderTargetAliveForID ex) i = Some r \<and>
           ex' = ex\<lparr>renderTargetUseCount := (renderTargetUseCount ex)[i := Some 0],
                     renderTargetAliveForID := js_delete (renderTargetAliveForID ex) i,
                     renderTargetDeadPool := renderTargetDeadPool ex @ [r\<lparr>rt_needsClear := True\<rparr>]\<rparr>"
    by blast
  show ?thesis
  proof (cases "n = 0")
    case True
    from zero [OF True] show ?thesis by auto
  next
    case False
    from pos [OF False] show ?thesis by simp
  qed
qed

lemma releaseResolveTextureInputs_frame:
  assumes "releaseResolveTextureInputs cs ex = Inr ex'"
  shows "renderTargetDeadPool ex' = renderTargetDeadPool ex \<and>
         renderTargetAliveForID ex' = renderTargetAliveForID ex \<and>
         renderTargetUseCount ex' = renderTargetUseCount ex \<and>
         resolveTextureForID ex' = resolveTextureForID ex"
  using assms
proof (induction cs arbitrary: ex)
  case Nil
  then show ?case by simp
next
  case (Cons c cs)
  from Cons.prems obtain ex1 where
    a: "releaseResolveTextureInputForID c ex = Inr ex1"
    and b: "releaseResolveTextureInputs cs ex1 = Inr ex'"
    by (auto simp: bind_err_Inr_iff)
  from a have "renderTargetDeadPool ex1 = renderTargetDeadPool ex \<and>
         renderTargetAliveForID ex1 = renderTargetAliveForID ex \<and>
         renderTargetUseCount ex1 = renderTargetUseCount ex \<and>
         resolveTextureForID ex1 = resolveTextureForID ex"
    by (rule releaseResolveTextureInputForID_Inr) simp
  with Cons.IH [OF b] show ?case by simp
qed

subsection \<open>The clear flag\<close>

lemma clearInv_releaseRenderTargetForID:
  assumes "releaseRenderTargetForID ido ex = Inr ex'" "clearInv ex"
  shows "clearInv ex'"
proof (cases ido)
  case None
  with assms show ?thesis by simp
next
  case (Some i)
  from releaseRenderTargetForID_Some [OF assms(1) [unfolded Some]] obtain n where
    pos: "n \<noteq> 0 \<Longrightarrow> ex' = ex\<lparr>renderTargetUseCount := (renderTargetUseCount ex)[i := Some n]\<rparr>"
    and zero: "n = 0 \<Longrightarrow> \<exists>r. js_get (renderTargetAliveForID ex) i = Some r \<and>
           ex' = ex\<lparr>renderTargetUseCount := (renderTargetUseCount ex)[i := Some 0],
                     renderTargetAliveForID := js_delete (renderTargetAliveForID ex) i,
                     renderTargetDeadPool := renderTargetDeadPool ex @ [r\<lparr>rt_needsClear := True\<rparr>]\<rparr>"
    by blast
  show ?thesis
  proof (cases "n = 0")
    case True
    from zero [OF True] assms(2) show ?thesis
      by (auto simp: clearInv_def js_get_js_delete split: if_splits)
  next
    case False
    from pos [OF False] assms(2) show ?thesis by (simp add: clearInv_def)
  qed
qed

lemma clearInv_acquireInputTextures:
  assumes "acquireInputTextures graph cs i textures ex = Inr (textures', ex')" "clearInv ex"
  shows "clearInv ex'"
  using assms
proof (induction cs arbitrary: i textures ex)
  case Nil
  then show ?case by simp
next
  case (Cons c cs)
  from Cons.prems(1) obtain t ex1 where
    a: "acquireResolveTextureInputTextureForID graph c ex = Inr (t, ex1)"
    and b: "acquireInputTextures graph cs (Suc i) (js_set textures i t) ex1 = Inr (textures', ex')"
    by (auto simp: bind_err_Inr_iff)
  from a Cons.prems(2) have "clearInv ex1"
    by (cases rule: acquireResolveTextureInputTextureForID_Inr)
      (auto dest: clearInv_releaseRenderTargetForID)
  with Cons.IH [OF b] show ?case by simp
qed

lemma clearInv_releaseRenderTargets:
  assumes "releaseRenderTargets ids ex = Inr ex'" "clearInv ex"
  shows "clearInv ex'"
  using assms
proof (induction ids arbitrary: ex)
  case Nil
  then show ?case by simp
next
  case (Cons ido ids)
  from Cons.prems(1) obtain ex1 where
    a: "releaseRenderTargetForID ido ex = Inr ex1"
    and b: "releaseRenderTargets ids ex1 = Inr ex'"
    by (auto simp: bind_err_Inr_iff)
  from Cons.IH [OF b clearInv_releaseRenderTargetForID [OF a Cons.prems(2)]]
  show ?case .
qed

text \<open>
  What the render target acquired for a slot looks like: its flag tells whether the id had
  no alive entry before the pass.
\<close>

lemma acquireRenderTargetForDescription_needsClear:
  assumes "acquireRenderTargetForDescription dev desc ex = Inr (r, dev', ex')"
    and "\<forall>r \<in> set (renderTargetDeadPool ex). rt_needsClear r"
  shows "rt_needsClear r" "\<forall>r \<in> set (renderTargetDeadPool ex'). rt_needsClear r"
    "renderTargetAliveForID ex' = renderTargetAliveForID ex"
proof -
  from assms(1) have "rt_needsClear r \<and>
        (\<forall>r \<in> set (renderTargetDeadPool ex'). rt_needsClear r) \<and>
        renderTargetAliveForID ex' = renderTargetAliveForID ex"
  proof (cases rule: acquireRenderTargetForDescription_Inr)
    case (hit as y bs)
    with assms(2) show ?thesis by simp
  next
    case miss
    with newRenderTarget_Inr(2) [OF miss(2)] assms(2) show ?thesis by simp
  qed
  then show "rt_needsClear r" "\<forall>r \<in> set (renderTargetDeadPool ex'). rt_needsClear r"
    "renderTargetAliveForID ex' = renderTargetAliveForID ex"
    by simp_all
qed

lemma acquire_pool_needsClear:
  assumes a: "acquireRenderTargetForID dev graph ido ex = Inr (ro, dev', ex')"
    and pool: "\<forall>r \<in> set (renderTargetDeadPool ex). rt_needsClear r"
  shows "\<forall>r \<in> set (renderTargetDeadPool ex'). rt_needsClear r"
proof (cases ido)
  case None
  with a pool show ?thesis by simp
next
  case (Some i)
  from a [unfolded Some] show ?thesis
  proof (cases rule: acquireRenderTargetForID_Some)
    case (alive r)
    with pool show ?thesis by simp
  next
    case (fresh r desc ex0)
    from acquireRenderTargetForDescription_needsClear(2) [OF fresh(4) pool] fresh(6)
    show ?thesis by simp
  qed
qed

lemma acquire_needsClear:
  assumes a: "acquireRenderTargetForID dev graph (Some i) ex = Inr (ro, dev', ex')"
    and pool: "\<forall>r \<in> set (renderTargetDeadPool ex). rt_needsClear r"
  obtains r where "ro = Some r" "js_get (renderTargetAliveForID ex') i = Some r"
    "\<And>j. j \<noteq> i \<Longrightarrow>
        js_get (renderTargetAliveForID ex') j = js_get (renderTargetAliveForID ex) j"
    "js_get (renderTargetAliveForID ex) i = None \<Longrightarrow> rt_needsClear r"
    "\<And>r0. js_get (renderTargetAliveForID ex) i = Some r0 \<Longrightarrow> r = r0"
  using a
proof (cases rule: acquireRenderTargetForID_Some)
  case (alive r)
  show thesis
    by (rule that [of r]) (simp_all add: alive)
next
  case (fresh r desc ex0)
  note d = acquireRenderTargetForDescription_needsClear [OF fresh(4) pool]
  show thesis
    by (rule that [of r]) (simp_all add: fresh(2,5,6) d js_get_js_set)
qed

lemma clearOrLoad_Some:
  assumes "clearOrLoad (Some r) (descriptionAt graph (Some i)) field = Inr v"
  shows "if rt_needsClear r
         then \<exists>d. nth_opt (renderTargetDescriptions graph) i = Some d \<and> v = field d
         else v = Load"
  using assms by (auto simp: clearOrLoad_def descriptionAt_def split: option.splits if_splits)

lemma clearOrLoad_None [simp]: "clearOrLoad None d field = Inr Load"
  by (simp add: clearOrLoad_def)

lemma clearDone_None [simp]: "clearDone None ro ex = ex" "clearDone ido None ex = ex"
  by (simp_all add: clearDone_def split: option.splits)

lemma clearInv_schedulePass:
  assumes run: "schedulePass dev graph pass presentColorTexture ex = Inr (pass', dev', ex')"
    and inv: "clearInv ex"
  shows "clearInv ex'"
    and "\<And>i. js_get (renderTargetIDs pass) 0 = Some i \<Longrightarrow>
           (if js_get (renderTargetAliveForID ex) i = None
            then \<exists>d. nth_opt (renderTargetDescriptions graph) i = Some d \<and>
                   colorClearColor (descriptor pass') = desc_colorClearColor d
            else colorClearColor (descriptor pass') = Load)"
    and "\<And>i. js_get (renderTargetIDs pass) 1 = Some i \<Longrightarrow>
           (if js_get (renderTargetAliveForID ex) i = None
            then \<exists>d. nth_opt (renderTargetDescriptions graph) i = Some d \<and>
                   depthClearValue (descriptor pass') = desc_depthClearValue d \<and>
                   stencilClearValue (descriptor pass') = desc_stencilClearValue d
            else depthClearValue (descriptor pass') = Load \<and>
                 stencilClearValue (descriptor pass') = Load)"
    and "js_get (renderTargetIDs pass) 0 = None \<Longrightarrow> colorClearColor (descriptor pass') = Load"
    and "js_get (renderTargetIDs pass) 1 = None \<Longrightarrow>
           depthClearValue (descriptor pass') = Load \<and> stencilClearValue (descriptor pass') = Load"
proof -
  let ?i0 = "js_get (renderTargetIDs pass) 0" and ?i1 = "js_get (renderTargetIDs pass) 1"
  from run obtain c0 dev1 ex1 colorClear ds dev2 ex2 depthClear stencilClear colorResolve dev3 ex3
    dsResolve ex4 textures ex6 ex7
    where a1: "acquireRenderTargetForID dev graph ?i0 ex = Inr (c0, dev1, ex1)"
      and l0: "clearOrLoad c0 (descriptionAt graph ?i0) desc_colorClearColor = Inr colorClear"
      and a2: "acquireRenderTargetForID dev1 graph ?i1 ex1 = Inr (ds, dev2, ex2)"
      and l1: "clearOrLoad ds (descriptionAt graph ?i1) desc_depthClearValue = Inr depthClear"
      and l2: "clearOrLoad ds (descriptionAt graph ?i1) desc_stencilClearValue = Inr stencilClear"
      and o1: "(if doPresent pass then Inr (presentColorTexture, dev2, ex2)
               else acquireResolveTextureOutputForID dev2 graph ?i0
                      (js_get (resolveTextureOutputIDs pass) 0) ex2) = Inr (colorResolve, dev3, ex3)"
      and o2: "acquireResolveTextureOutputForID dev3 graph ?i1
                 (js_get (resolveTextureOutputIDs pass) 1) ex3 = Inr (dsResolve, dev', ex4)"
      and i: "acquireInputTextures graph (resolveTextureInputIDs pass) 0
                (resolveTextureInputTextures pass)
                (clearDone ?i1 ds (clearDone ?i0 c0 ex4)) = Inr (textures, ex6)"
      and r1: "releaseRenderTargets (renderTargetIDs pass) ex6 = Inr ex7"
      and r2: "releaseResolveTextureInputs (resolveTextureInputIDs pass) ex7 = Inr ex'"
      and p': "colorClearColor (descriptor pass') = colorClear"
        "depthClearValue (descriptor pass') = depthClear"
        "stencilClearValue (descriptor pass') = stencilClear"
    by (rule schedulePass_Inr) simp
  from inv have pool: "\<forall>r \<in> set (renderTargetDeadPool ex). rt_needsClear r"
    and alive: "\<And>j r. js_get (renderTargetAliveForID ex) j = Some r \<Longrightarrow> \<not> rt_needsClear r"
    by (auto simp: clearInv_def)
  \<comment> \<open>the colour slot\<close>
  have pool1: "\<forall>r \<in> set (renderTargetDeadPool ex1). rt_needsClear r"
    by (rule acquire_pool_needsClear [OF a1 pool])
  have n0: "c0 = None \<and> ex1 = ex" if "?i0 = None"
    using a1 that by simp
  have s0: "\<exists>r. c0 = Some r \<and> js_get (renderTargetAliveForID ex1) i0 = Some r \<and>
           (\<forall>j. j \<noteq> i0 \<longrightarrow> js_get (renderTargetAliveForID ex1) j = js_get (renderTargetAliveForID ex) j) \<and>
           (rt_needsClear r \<longleftrightarrow> js_get (renderTargetAliveForID ex) i0 = None)"
    if i0: "?i0 = Some i0" for i0
  proof -
    from a1 [unfolded i0] pool obtain r where r: "c0 = Some r"
      "js_get (renderTargetAliveForID ex1) i0 = Some r"
      "\<And>j. j \<noteq> i0 \<Longrightarrow> js_get (renderTargetAliveForID ex1) j = js_get (renderTargetAliveForID ex) j"
      "js_get (renderTargetAliveForID ex) i0 = None \<Longrightarrow> rt_needsClear r"
      "\<And>r0. js_get (renderTargetAliveForID ex) i0 = Some r0 \<Longrightarrow> r = r0"
      by (rule acquire_needsClear) (rule that; assumption)
    have "rt_needsClear r \<longleftrightarrow> js_get (renderTargetAliveForID ex) i0 = None"
    proof (cases "js_get (renderTargetAliveForID ex) i0")
      case None
      with r(4) show ?thesis by simp
    next
      case (Some r0)
      with r(5) have "r = r0" by simp
      with alive [OF Some] Some show ?thesis by simp
    qed
    with r(1,2,3) show ?thesis by simp
  qed
  \<comment> \<open>the depth-stencil slot\<close>
  have pool2: "\<forall>r \<in> set (renderTargetDeadPool ex2). rt_needsClear r"
    by (rule acquire_pool_needsClear [OF a2 pool1])
  have n1: "ds = None \<and> ex2 = ex1" if "?i1 = None"
    using a2 that by simp
  have s1: "\<exists>r. ds = Some r \<and> js_get (renderTargetAliveForID ex2) i1 = Some r \<and>
           (\<forall>j. j \<noteq> i1 \<longrightarrow> js_get (renderTargetAliveForID ex2) j = js_get (renderTargetAliveForID ex1) j) \<and>
           (rt_needsClear r \<longleftrightarrow> js_get (renderTargetAliveForID ex) i1 = None)"
    if i1: "?i1 = Some i1" for i1
  proof -
    from a2 [unfolded i1] pool1 obtain r where r: "ds = Some r"
      "js_get (renderTargetAliveForID ex2) i1 = Some r"
      "\<And>j. j \<noteq> i1 \<Longrightarrow> js_get (renderTargetAliveForID ex2) j = js_get (renderTargetAliveForID ex1) j"
      "js_get (renderTargetAliveForID ex1) i1 = None \<Longrightarrow> rt_needsClear r"
      "\<And>r0. js_get (renderTargetAliveForID ex1) i1 = Some r0 \<Longrightarrow> r = r0"
      by (rule acquire_needsClear) (rule that; assumption)
    have "rt_needsClear r \<longleftrightarrow> js_get (renderTargetAliveForID ex) i1 = None"
    proof (cases "?i0 = Some i1")
      case True
      from s0 [OF True] obtain r0 where "js_get (renderTargetAliveForID ex1) i1 = Some r0"
        "rt_needsClear r0 \<longleftrightarrow> js_get (renderTargetAliveForID ex) i1 = None"
        by (elim exE conjE)
      with r(5) show ?thesis by simp
    next
      case False
      have e: "js_get (renderTargetAliveForID ex1) i1 = js_get (renderTargetAliveForID ex) i1"
      proof (cases ?i0)
        case None
        with n0 show ?thesis by simp
      next
        case (Some i0)
        with False have "i1 \<noteq> i0" by simp
        with s0 [OF Some] show ?thesis by (elim exE conjE) simp
      qed
      show ?thesis
      proof (cases "js_get (renderTargetAliveForID ex) i1")
        case None
        with r(4) e show ?thesis by simp
      next
        case (Some r0)
        with r(5) e have "r = r0" by simp
        with alive [OF Some] Some show ?thesis by simp
      qed
    qed
    with r(1,2,3) show ?thesis by simp
  qed
  show "\<And>i. ?i0 = Some i \<Longrightarrow>
           (if js_get (renderTargetAliveForID ex) i = None
            then \<exists>d. nth_opt (renderTargetDescriptions graph) i = Some d \<and>
                   colorClearColor (descriptor pass') = desc_colorClearColor d
            else colorClearColor (descriptor pass') = Load)"
  proof -
    fix i assume i0: "?i0 = Some i"
    from s0 [OF i0] obtain r where r: "c0 = Some r"
      "rt_needsClear r \<longleftrightarrow> js_get (renderTargetAliveForID ex) i = None"
      by (elim exE conjE)
    from clearOrLoad_Some [OF l0 [unfolded r(1) i0]] r(2) p'(1)
    show "if js_get (renderTargetAliveForID ex) i = None
            then \<exists>d. nth_opt (renderTargetDescriptions graph) i = Some d \<and>
                   colorClearColor (descriptor pass') = desc_colorClearColor d
            else colorClearColor (descriptor pass') = Load"
      by (cases "rt_needsClear r") auto
  qed
  show "\<And>i. ?i1 = Some i \<Longrightarrow>
           (if js_get (renderTargetAliveForID ex) i = None
            then \<exists>d. nth_opt (renderTargetDescriptions graph) i = Some d \<and>
                   depthClearValue (descriptor pass') = desc_depthClearValue d \<and>
                   stencilClearValue (descriptor pass') = desc_stencilClearValue d
            else depthClearValue (descriptor pass') = Load \<and>
                 stencilClearValue (descriptor pass') = Load)"
  proof -
    fix i assume i1: "?i1 = Some i"
    from s1 [OF i1] obtain r where r: "ds = Some r"
      "rt_needsClear r \<longleftrightarrow> js_get (renderTargetAliveForID ex) i = None"
      by (elim exE conjE)
    from clearOrLoad_Some [OF l1 [unfolded r(1) i1]] clearOrLoad_Some [OF l2 [unfolded r(1) i1]]
      r(2) p'(2,3)
    show "if js_get (renderTargetAliveForID ex) i = None
            then \<exists>d. nth_opt (renderTargetDescriptions graph) i = Some d \<and>
                   depthClearValue (descriptor pass') = desc_depthClearValue d \<and>
                   stencilClearValue (descriptor pass') = desc_stencilClearValue d
            else depthClearValue (descriptor pass') = Load \<and>
                 stencilClearValue (descriptor pass') = Load"
      by (cases "rt_needsClear r") auto
  qed
  show "?i0 = None \<Longrightarrow> colorClearColor (descriptor pass') = Load"
    using n0 l0 p'(1) by simp
  show "?i1 = None \<Longrightarrow>
           depthClearValue (descriptor pass') = Load \<and> stencilClearValue (descriptor pass') = Load"
    using n1 l1 l2 p'(2,3) by simp
  \<comment> \<open>the invariant\<close>
  have f3: "renderTargetDeadPool ex3 = renderTargetDeadPool ex2 \<and>
            renderTargetAliveForID ex3 = renderTargetAliveForID ex2"
    using o1 by (cases "doPresent pass") (auto dest: acquireResolveTextureOutputForID_frame)
  have f4: "renderTargetDeadPool ex4 = renderTargetDeadPool ex2 \<and>
            renderTargetAliveForID ex4 = renderTargetAliveForID ex2"
    using acquireResolveTextureOutputForID_frame [OF o2] f3 by simp
  let ?ex5 = "clearDone ?i1 ds (clearDone ?i0 c0 ex4)"
  have "clearInv ?ex5"
    unfolding clearInv_def
  proof (intro conjI allI impI ballI)
    fix r assume "r \<in> set (renderTargetDeadPool ?ex5)"
    with pool2 f4 show "rt_needsClear r" by (simp add: clearDone_fields)
  next
    fix j r assume j: "js_get (renderTargetAliveForID ?ex5) j = Some r"
    show "\<not> rt_needsClear r"
    proof (cases "?i1 = Some j")
      case True
      from s1 [OF True] obtain r1 where "ds = Some r1" by (elim exE conjE)
      with True j show ?thesis by (auto simp: clearDone_alive)
    next
      case nj1: False
      have j1: "js_get (renderTargetAliveForID (clearDone ?i0 c0 ex4)) j = Some r"
      proof (cases ?i1)
        case None
        with j show ?thesis by simp
      next
        case (Some i1)
        with nj1 have "j \<noteq> i1" by simp
        with j Some show ?thesis by (cases ds) (simp_all add: clearDone_alive)
      qed
      have e21: "js_get (renderTargetAliveForID ex2) j = js_get (renderTargetAliveForID ex1) j"
      proof (cases ?i1)
        case None
        with n1 show ?thesis by simp
      next
        case (Some i1)
        with nj1 have "j \<noteq> i1" by simp
        with s1 [OF Some] show ?thesis by (elim exE conjE) simp
      qed
      show ?thesis
      proof (cases "?i0 = Some j")
        case True
          from s0 [OF True] obtain r0 where "c0 = Some r0" by (elim exE conjE)
        with True j1 show ?thesis by (auto simp: clearDone_alive)
      next
        case nj0: False
        have "js_get (renderTargetAliveForID ex4) j = Some r"
        proof (cases ?i0)
          case None
          with j1 show ?thesis by simp
        next
          case (Some i0)
          with nj0 have "j \<noteq> i0" by simp
          with j1 Some show ?thesis by (cases c0) (simp_all add: clearDone_alive)
        qed
        moreover have "js_get (renderTargetAliveForID ex1) j = js_get (renderTargetAliveForID ex) j"
        proof (cases ?i0)
          case None
          with n0 show ?thesis by simp
        next
          case (Some i0)
          with nj0 have "j \<noteq> i0" by simp
          with s0 [OF Some] show ?thesis by (elim exE conjE) simp
        qed
        ultimately have "js_get (renderTargetAliveForID ex) j = Some r"
          using f4 e21 by simp
        then show ?thesis by (rule alive)
      qed
    qed
  qed
  then have "clearInv ex6" by (rule clearInv_acquireInputTextures [OF i])
  then have "clearInv ex7" by (rule clearInv_releaseRenderTargets [OF r1])
  with releaseResolveTextureInputs_frame [OF r2] show "clearInv ex'"
    by (simp add: clearInv_def)
qed

lemma clearInv_new: "clearInv newSceneGraphExecutor"
  by (simp add: clearInv_def newSceneGraphExecutor_def js_get_def)

lemma clearInv_schedulePasses:
  assumes "schedulePasses dev graph ps presentColorTexture ex = Inr (ps', dev', ex')" "clearInv ex"
  shows "clearInv ex'"
  using assms
proof (induction ps arbitrary: dev ex ps')
  case Nil
  then show ?case by simp
next
  case (Cons p ps)
  from Cons.prems(1) obtain p' dev1 ex1 ps1 where
    a: "schedulePass dev graph p presentColorTexture ex = Inr (p', dev1, ex1)"
    and b: "schedulePasses dev1 graph ps presentColorTexture ex1 = Inr (ps1, dev', ex')"
    by (auto simp: bind_err_Inr_iff)
  from Cons.IH [OF b clearInv_schedulePass(1) [OF a Cons.prems(2)]] show ?case .
qed

lemma clearInv_scheduleGraph:
  assumes "scheduleGraph dev graph presentColorTexture ex = Inr (graph1, dev1, ex1)" "clearInv ex"
  shows "clearInv ex1"
proof -
  from assms(1) obtain ps dev0 ex0 where
    run: "schedulePasses dev graph (passes graph) presentColorTexture
       (countPasses graph (passes graph) (fillUseCounts graph (agePools ex)))
     = Inr (ps, dev0, ex0)"
    and e: "ex1 = (snd (sweepPools dev0 ex0))\<lparr>renderTargetUseCount := [], resolveTextureUseCount := []\<rparr>"
    by (rule scheduleGraph_Inr)
  from assms(2) have "clearInv (countPasses graph (passes graph) (fillUseCounts graph (agePools ex)))"
    by (auto simp: clearInv_def countPasses_others fillUseCounts_def agePools_def)
  from clearInv_schedulePasses [OF run this] have "clearInv ex0" .
  then show ?thesis
    by (simp add: e clearInv_def sweepPools_def case_prod_unfold sweepRenderTargets_pool)
qed



subsection \<open>One physical surface per surface id\<close>

lemma keepsAlive_refl:
  assumes "renderTargetUseCount ex' = renderTargetUseCount ex"
    "renderTargetAliveForID ex' = renderTargetAliveForID ex"
  shows "keepsAlive i ex ex'"
  using assms by (simp add: keepsAlive_def aliveAttachment_def)

lemma keepsAlive_trans:
  assumes "keepsAlive i a b" "keepsAlive i b c"
  shows "keepsAlive i a c"
  using assms unfolding keepsAlive_def by metis

lemma keepsAlive_releaseRenderTargetForID:
  assumes "releaseRenderTargetForID ido ex = Inr ex'"
  shows "keepsAlive i ex ex'"
proof (cases ido)
  case None
  with assms show ?thesis by (simp add: keepsAlive_refl)
next
  case (Some j)
  from releaseRenderTargetForID_Some [OF assms [unfolded Some]] obtain n where
    n: "js_get (renderTargetUseCount ex) j = Some (Suc n)"
    and pos: "n \<noteq> 0 \<Longrightarrow> ex' = ex\<lparr>renderTargetUseCount := (renderTargetUseCount ex)[j := Some n]\<rparr>"
    and zero: "n = 0 \<Longrightarrow> \<exists>r. js_get (renderTargetAliveForID ex) j = Some r \<and>
           ex' = ex\<lparr>renderTargetUseCount := (renderTargetUseCount ex)[j := Some 0],
                     renderTargetAliveForID := js_delete (renderTargetAliveForID ex) j,
                     renderTargetDeadPool := renderTargetDeadPool ex @ [r\<lparr>rt_needsClear := True\<rparr>]\<rparr>"
    by blast
  have len: "j < length (renderTargetUseCount ex)" using n by (rule js_get_Some_length)
  have cnt: "js_get (renderTargetUseCount ex') i =
      (if i = j then Some n else js_get (renderTargetUseCount ex) i)"
    using pos zero len by (cases "n = 0") (auto simp: js_get_list_update)
  have al: "js_get (renderTargetAliveForID ex') i =
      (if n = 0 \<and> i = j then None else js_get (renderTargetAliveForID ex) i)"
    using pos zero by (cases "n = 0") (auto simp: js_get_js_delete)
  show ?thesis
    unfolding keepsAlive_def aliveAttachment_def cnt al
    using n by (auto simp: positive_def)
qed

lemma keepsAlive_acquireInputTextures:
  assumes "acquireInputTextures graph cs k textures ex = Inr (textures', ex')"
  shows "keepsAlive i ex ex'"
  using assms
proof (induction cs arbitrary: k textures ex)
  case Nil
  then show ?case by (simp add: keepsAlive_refl)
next
  case (Cons c cs)
  from Cons.prems obtain t ex1 where
    a: "acquireResolveTextureInputTextureForID graph c ex = Inr (t, ex1)"
    and b: "acquireInputTextures graph cs (Suc k) (js_set textures k t) ex1 = Inr (textures', ex')"
    by (auto simp: bind_err_Inr_iff)
  from a have "keepsAlive i ex ex1"
    by (cases rule: acquireResolveTextureInputTextureForID_Inr)
      (auto dest: keepsAlive_releaseRenderTargetForID)
  with Cons.IH [OF b] show ?case by (rule keepsAlive_trans [rotated])
qed

lemma keepsAlive_releaseRenderTargets:
  assumes "releaseRenderTargets ids ex = Inr ex'"
  shows "keepsAlive i ex ex'"
  using assms
proof (induction ids arbitrary: ex)
  case Nil
  then show ?case by (simp add: keepsAlive_refl)
next
  case (Cons ido ids)
  from Cons.prems obtain ex1 where
    a: "releaseRenderTargetForID ido ex = Inr ex1"
    and b: "releaseRenderTargets ids ex1 = Inr ex'"
    by (auto simp: bind_err_Inr_iff)
  from keepsAlive_releaseRenderTargetForID [OF a] Cons.IH [OF b] show ?case
    by (rule keepsAlive_trans)
qed

lemma acquire_aliveAttachment:
  assumes a: "acquireRenderTargetForID dev graph ido ex = Inr (ro, dev', ex')"
  shows "renderTargetUseCount ex' = renderTargetUseCount ex"
    and "\<And>j r. js_get (renderTargetAliveForID ex) j = Some r \<Longrightarrow>
           js_get (renderTargetAliveForID ex') j = Some r"
    and "\<And>j. ido \<noteq> Some j \<Longrightarrow>
           js_get (renderTargetAliveForID ex') j = js_get (renderTargetAliveForID ex) j"
    and "\<And>j. ido = Some j \<Longrightarrow> ro \<noteq> None \<and> js_get (renderTargetAliveForID ex') j = ro"
    and "ido = None \<Longrightarrow> ro = None"
proof -
  show "renderTargetUseCount ex' = renderTargetUseCount ex"
    using acquireRenderTargetForID_frame [OF a] by simp
  show "ido = None \<Longrightarrow> ro = None" using a by simp
  have some: "ro \<noteq> None \<and> js_get (renderTargetAliveForID ex') j = ro \<and>
      (\<forall>k. k \<noteq> j \<longrightarrow> js_get (renderTargetAliveForID ex') k = js_get (renderTargetAliveForID ex) k) \<and>
      (\<forall>r0. js_get (renderTargetAliveForID ex) j = Some r0 \<longrightarrow> ro = Some r0)"
    if j: "ido = Some j" for j
  proof -
    have pool: "\<forall>r \<in> set []. rt_needsClear r" by simp
    from a [unfolded j] show ?thesis
    proof (cases rule: acquireRenderTargetForID_Some)
      case (alive r)
      then show ?thesis by simp
    next
      case (fresh r desc ex0)
      from fresh(4) have "renderTargetAliveForID ex0 = renderTargetAliveForID ex"
        by (cases rule: acquireRenderTargetForDescription_Inr) simp_all
      with fresh(2,5,6) show ?thesis by (simp add: js_get_js_set)
    qed
  qed
  show "\<And>j. ido = Some j \<Longrightarrow> ro \<noteq> None \<and> js_get (renderTargetAliveForID ex') j = ro"
    using some by simp
  show "js_get (renderTargetAliveForID ex') j = js_get (renderTargetAliveForID ex) j"
    if "ido \<noteq> Some j" for j
  proof (cases ido)
    case None
    with a show ?thesis by simp
  next
    case (Some k)
    with that have "j \<noteq> k" by simp
    with some [OF Some] show ?thesis by simp
  qed
  show "js_get (renderTargetAliveForID ex') j = Some r"
    if r: "js_get (renderTargetAliveForID ex) j = Some r" for j r
  proof (cases "ido = Some j")
    case True
    from some [OF True] r show ?thesis by simp
  next
    case False
    show ?thesis
    proof (cases ido)
      case None
      with a r show ?thesis by simp
    next
      case (Some k)
      with False have "j \<noteq> k" by simp
      with some [OF Some] r show ?thesis by simp
    qed
  qed
qed

lemma clearDone_aliveAttachment:
  assumes "\<And>j r. ido = Some j \<Longrightarrow> ro = Some r \<Longrightarrow> aliveAttachment ex j = Some (rt_attachment r)"
  shows "aliveAttachment (clearDone ido ro ex) i = aliveAttachment ex i"
proof (cases ido)
  case None
  then show ?thesis by simp
next
  case j: (Some j)
  show ?thesis
  proof (cases ro)
    case None
    then show ?thesis by simp
  next
    case (Some r)
    from assms [OF j Some] obtain z where "js_get (renderTargetAliveForID ex) j = Some z"
      "rt_attachment z = rt_attachment r"
      by (auto simp: aliveAttachment_def)
    with j Some show ?thesis
      by (simp add: aliveAttachment_def clearDone_alive)
  qed
qed

lemma schedulePass_attachments:
  assumes run: "schedulePass dev graph pass presentColorTexture ex = Inr (pass', dev', ex')"
  shows "\<exists>ao.
    (\<forall>slot. js_get (renderTargetIDs pass) (slotIndex slot) = Some i \<longrightarrow>
       attachmentAt slot (descriptor pass') = ao \<and> ao \<noteq> None) \<and>
    (aliveAttachment ex i \<noteq> None \<longrightarrow> ao = aliveAttachment ex i) \<and>
    (positive (js_get (renderTargetUseCount ex') i) \<longrightarrow> aliveAttachment ex' i = ao) \<and>
    (ao = None \<longrightarrow> aliveAttachment ex' i = None) \<and>
    ((\<forall>slot. js_get (renderTargetIDs pass) (slotIndex slot) \<noteq> Some i) \<and>
       aliveAttachment ex i = None \<longrightarrow> ao = None)"
proof -
  let ?i0 = "js_get (renderTargetIDs pass) 0" and ?i1 = "js_get (renderTargetIDs pass) 1"
  from run obtain c0 dev1 ex1 ds dev2 ex2 colorResolve dev3 ex3 dsResolve ex4 textures ex6 ex7
    where a1: "acquireRenderTargetForID dev graph ?i0 ex = Inr (c0, dev1, ex1)"
      and a2: "acquireRenderTargetForID dev1 graph ?i1 ex1 = Inr (ds, dev2, ex2)"
      and o1: "(if doPresent pass then Inr (presentColorTexture, dev2, ex2)
               else acquireResolveTextureOutputForID dev2 graph ?i0
                      (js_get (resolveTextureOutputIDs pass) 0) ex2) = Inr (colorResolve, dev3, ex3)"
      and o2: "acquireResolveTextureOutputForID dev3 graph ?i1
                 (js_get (resolveTextureOutputIDs pass) 1) ex3 = Inr (dsResolve, dev', ex4)"
      and inp: "acquireInputTextures graph (resolveTextureInputIDs pass) 0
                (resolveTextureInputTextures pass)
                (clearDone ?i1 ds (clearDone ?i0 c0 ex4)) = Inr (textures, ex6)"
      and r1: "releaseRenderTargets (renderTargetIDs pass) ex6 = Inr ex7"
      and r2: "releaseResolveTextureInputs (resolveTextureInputIDs pass) ex7 = Inr ex'"
      and att: "colorAttachment (descriptor pass') = map_option rt_attachment c0"
        "depthStencilAttachment (descriptor pass') = map_option rt_attachment ds"
    by (rule schedulePass_Inr) simp
  note q1 = acquire_aliveAttachment [OF a1]
  note q2 = acquire_aliveAttachment [OF a2]
  have f3: "renderTargetAliveForID ex3 = renderTargetAliveForID ex2 \<and>
            renderTargetUseCount ex3 = renderTargetUseCount ex2"
    using o1 by (cases "doPresent pass") (auto dest: acquireResolveTextureOutputForID_frame)
  have f4: "renderTargetAliveForID ex4 = renderTargetAliveForID ex2"
    "renderTargetUseCount ex4 = renderTargetUseCount ex2"
    using acquireResolveTextureOutputForID_frame [OF o2] f3 by simp_all
  have aa4: "aliveAttachment ex4 j = aliveAttachment ex2 j" for j
    by (simp add: aliveAttachment_def f4)
  \<comment> \<open>the two local variables hold the alive entries of their ids\<close>
  have c0: "c0 \<noteq> None \<and> js_get (renderTargetAliveForID ex2) j = c0" if "?i0 = Some j" for j
  proof -
    from q1(4) [OF that] obtain r where "c0 = Some r" "js_get (renderTargetAliveForID ex1) j = Some r"
      by (cases c0) simp_all
    with q2(2) [of j r] show ?thesis by simp
  qed
  have ds: "ds \<noteq> None \<and> js_get (renderTargetAliveForID ex2) j = ds" if "?i1 = Some j" for j
    using q2(4) [OF that] by simp
  let ?ex5a = "clearDone ?i0 c0 ex4"
  let ?ex5 = "clearDone ?i1 ds ?ex5a"
  have aa5a: "aliveAttachment ?ex5a j = aliveAttachment ex2 j" for j
  proof -
    have "aliveAttachment ?ex5a j = aliveAttachment ex4 j"
    proof (rule clearDone_aliveAttachment)
      fix k r assume "?i0 = Some k" "c0 = Some r"
      with c0 [of k] show "aliveAttachment ex4 k = Some (rt_attachment r)"
        by (simp add: aliveAttachment_def f4)
    qed
    then show ?thesis by (simp add: aa4)
  qed
  have aa5: "aliveAttachment ?ex5 j = aliveAttachment ex2 j" for j
  proof -
    have "aliveAttachment ?ex5 j = aliveAttachment ?ex5a j"
    proof (rule clearDone_aliveAttachment)
      fix k r assume "?i1 = Some k" "ds = Some r"
      with ds [of k] have "aliveAttachment ex2 k = Some (rt_attachment r)"
        by (simp add: aliveAttachment_def)
      then show "aliveAttachment ?ex5a k = Some (rt_attachment r)" by (simp add: aa5a)
    qed
    then show ?thesis by (simp add: aa5a)
  qed
  have cnt5: "renderTargetUseCount ?ex5 = renderTargetUseCount ex2"
    by (simp add: clearDone_fields f4)
  \<comment> \<open>from the acquisitions to the end of the pass\<close>
  have k56: "keepsAlive i ?ex5 ex6" by (rule keepsAlive_acquireInputTextures [OF inp])
  have k67: "keepsAlive i ex6 ex7" by (rule keepsAlive_releaseRenderTargets [OF r1])
  have k78: "keepsAlive i ex7 ex'"
    using releaseResolveTextureInputs_frame [OF r2] by (simp add: keepsAlive_refl)
  note k = keepsAlive_trans [OF k56 keepsAlive_trans [OF k67 k78]]
  let ?ao = "aliveAttachment ex2 i"
  from k have k': "?ao \<noteq> None \<and> positive (js_get (renderTargetUseCount ex') i) \<longrightarrow>
        aliveAttachment ex' i = ?ao"
    "?ao = None \<longrightarrow> aliveAttachment ex' i = None"
    unfolding keepsAlive_def aa5 by blast+
  have b1: "attachmentAt slot (descriptor pass') = ?ao \<and> ?ao \<noteq> None"
    if "js_get (renderTargetIDs pass) (slotIndex slot) = Some i" for slot
  proof (cases slot)
    case Color0
    with that have "?i0 = Some i" by simp
    from c0 [OF this] Color0 show ?thesis
      by (auto simp: att aliveAttachment_def)
  next
    case DepthStencil
    with that have "?i1 = Some i" by simp
    from ds [OF this] DepthStencil show ?thesis
      by (auto simp: att aliveAttachment_def)
  qed
  have b2: "?ao = aliveAttachment ex i" if "aliveAttachment ex i \<noteq> None"
  proof -
    from that obtain r where r: "js_get (renderTargetAliveForID ex) i = Some r"
      by (auto simp: aliveAttachment_def)
    from q2(2) [OF q1(2) [OF r]] r show ?thesis by (simp add: aliveAttachment_def)
  qed
  have b3: "aliveAttachment ex' i = ?ao" if "positive (js_get (renderTargetUseCount ex') i)"
  proof (cases "?ao = None")
    case True
    with k'(2) show ?thesis by simp
  next
    case False
    with k'(1) that show ?thesis by simp
  qed
  have b4: "aliveAttachment ex' i = None" if "?ao = None"
    using k'(2) that by simp
  have b5: "?ao = None"
    if "\<forall>slot. js_get (renderTargetIDs pass) (slotIndex slot) \<noteq> Some i"
      and "aliveAttachment ex i = None"
  proof -
    from that(1) [THEN spec, of Color0] have "?i0 \<noteq> Some i" by simp
    moreover from that(1) [THEN spec, of DepthStencil] have "?i1 \<noteq> Some i" by simp
    ultimately have "js_get (renderTargetAliveForID ex2) i = js_get (renderTargetAliveForID ex) i"
      using q1(3) [of i] q2(3) [of i] by simp
    with that(2) show ?thesis by (simp add: aliveAttachment_def)
  qed
  show ?thesis
    apply (rule exI [of _ ?ao])
    using b1 b2 b3 b4 b5 by blast
qed

lemma bound_passUses:
  assumes "js_get (renderTargetIDs pass) k = Some i"
  shows "0 < passUses graph pass i"
proof -
  from assms have "k < length (renderTargetIDs pass)" "renderTargetIDs pass ! k = Some i"
    by (auto simp: js_get_def split: if_splits)
  then have "Some i \<in> set (renderTargetIDs pass)"
    by (metis nth_mem)
  then have "count_list (renderTargetIDs pass) (Some i) \<noteq> 0"
    by (simp add: count_list_0_iff)
  then have "0 < count_list (renderTargetIDs pass) (Some i)"
    by simp
  then show ?thesis by (simp add: passUses_def)
qed

lemma bound_graphUses:
  assumes "k < length ps" "js_get (renderTargetIDs (ps ! k)) s = Some i"
  shows "0 < graphUses graph ps i"
proof -
  from assms(1) have "ps ! k \<in> set ps" by simp
  moreover from assms(2) have "0 < passUses graph (ps ! k) i" by (rule bound_passUses)
  ultimately have "\<exists>p \<in> set ps. 0 < passUses graph p i" by blast
  then show ?thesis
    by (induction ps) (auto simp: graphUses_def)
qed

lemma schedulePasses_positive:
  assumes "schedulePasses dev graph ps presentColorTexture ex = Inr (ps', dev', ex')"
    and "0 < graphUses graph ps i"
  shows "positive (js_get (renderTargetUseCount ex) i)"
proof -
  from countsStep_schedulePasses [OF assms(1)]
  have "released (graphUses graph ps i) (js_get (renderTargetUseCount ex) i)
          (js_get (renderTargetUseCount ex') i)"
    by (simp add: countsStep_def)
  with assms(2) show ?thesis
    by (cases "js_get (renderTargetUseCount ex) i") (auto simp: released_def positive_def)
qed

lemma schedulePasses_one_attachment:
  assumes "schedulePasses dev graph ps presentColorTexture ex = Inr (ps', dev', ex')"
  shows "\<exists>a. (aliveAttachment ex i \<noteq> None \<longrightarrow> aliveAttachment ex i = Some a) \<and>
           (\<forall>k<length ps. \<forall>slot.
              js_get (renderTargetIDs (ps ! k)) (slotIndex slot) = Some i \<longrightarrow>
              attachmentAt slot (descriptor (ps' ! k)) = Some a)"
  using assms
proof (induction ps arbitrary: dev ex ps')
  case Nil
  show ?case
    by (cases "aliveAttachment ex i") auto
next
  case (Cons p ps)
  from Cons.prems obtain p' dev1 ex1 ps1 where
    a: "schedulePass dev graph p presentColorTexture ex = Inr (p', dev1, ex1)"
    and b: "schedulePasses dev1 graph ps presentColorTexture ex1 = Inr (ps1, dev', ex')"
    and ps': "ps' = p' # ps1"
    by (auto simp: bind_err_Inr_iff)
  from schedulePass_attachments [OF a, of i] obtain ao where
    H: "(\<forall>slot. js_get (renderTargetIDs p) (slotIndex slot) = Some i \<longrightarrow>
           attachmentAt slot (descriptor p') = ao \<and> ao \<noteq> None) \<and>
        (aliveAttachment ex i \<noteq> None \<longrightarrow> ao = aliveAttachment ex i) \<and>
        (positive (js_get (renderTargetUseCount ex1) i) \<longrightarrow> aliveAttachment ex1 i = ao) \<and>
        (ao = None \<longrightarrow> aliveAttachment ex1 i = None) \<and>
        ((\<forall>slot. js_get (renderTargetIDs p) (slotIndex slot) \<noteq> Some i) \<and>
           aliveAttachment ex i = None \<longrightarrow> ao = None)"
    by (rule exE)
  have h1: "attachmentAt slot (descriptor p') = ao \<and> ao \<noteq> None"
    if "js_get (renderTargetIDs p) (slotIndex slot) = Some i" for slot
    using H [THEN conjunct1, THEN spec, of slot] that by simp
  have h2: "ao = aliveAttachment ex i" if "aliveAttachment ex i \<noteq> None"
    using H [THEN conjunct2, THEN conjunct1] that by simp
  have h3: "aliveAttachment ex1 i = ao" if "positive (js_get (renderTargetUseCount ex1) i)"
    using H [THEN conjunct2, THEN conjunct2, THEN conjunct1] that by simp
  from Cons.IH [OF b] obtain a1 where
    T: "(aliveAttachment ex1 i \<noteq> None \<longrightarrow> aliveAttachment ex1 i = Some a1) \<and>
        (\<forall>k<length ps. \<forall>slot.
              js_get (renderTargetIDs (ps ! k)) (slotIndex slot) = Some i \<longrightarrow>
              attachmentAt slot (descriptor (ps1 ! k)) = Some a1)"
    by (rule exE)
  have t1: "aliveAttachment ex1 i = Some a1" if "aliveAttachment ex1 i \<noteq> None"
    using T [THEN conjunct1] that by simp
  have t2: "attachmentAt slot (descriptor (ps1 ! k)) = Some a1"
    if "k < length ps" "js_get (renderTargetIDs (ps ! k)) (slotIndex slot) = Some i"
    for k slot
    using T [THEN conjunct2, THEN spec, of k] that by simp
  show ?case
  proof (cases "\<exists>k<length ps. \<exists>slot. js_get (renderTargetIDs (ps ! k)) (slotIndex slot) = Some i")
    case True
    then obtain k slot where "k < length ps"
      "js_get (renderTargetIDs (ps ! k)) (slotIndex slot) = Some i"
      by blast
    then have "0 < graphUses graph ps i" by (rule bound_graphUses)
    from schedulePasses_positive [OF b this] have e: "aliveAttachment ex1 i = ao" by (rule h3)
    have ao: "ao = Some a1" if "ao \<noteq> None"
      using t1 e that by simp
    show ?thesis
    proof (intro exI [of _ a1] conjI allI impI)
      assume "aliveAttachment ex i \<noteq> None"
      with h2 ao show "aliveAttachment ex i = Some a1" by simp
    next
      fix k slot
      assume k: "k < length (p # ps)"
        and s: "js_get (renderTargetIDs ((p # ps) ! k)) (slotIndex slot) = Some i"
      show "attachmentAt slot (descriptor (ps' ! k)) = Some a1"
      proof (cases k)
        case 0
        with s h1 [of slot] ao show ?thesis by (simp add: ps')
      next
        case (Suc k')
        with k s t2 [of k' slot] show ?thesis by (simp add: ps')
      qed
    qed
  next
    case False
    obtain a0 where a0: "ao \<noteq> None \<Longrightarrow> ao = Some a0"
      by (cases ao) auto
    show ?thesis
    proof (intro exI [of _ a0] conjI allI impI)
      assume "aliveAttachment ex i \<noteq> None"
      with h2 a0 show "aliveAttachment ex i = Some a0" by simp
    next
      fix k slot
      assume k: "k < length (p # ps)"
        and s: "js_get (renderTargetIDs ((p # ps) ! k)) (slotIndex slot) = Some i"
      show "attachmentAt slot (descriptor (ps' ! k)) = Some a0"
      proof (cases k)
        case 0
        with s h1 [of slot] a0 show ?thesis by (simp add: ps')
      next
        case (Suc k')
        with k s False show ?thesis by auto
      qed
    qed
  qed
qed

lemma acquire_alive_or_fresh:
  assumes "acquireRenderTargetForID dev graph (Some i) ex = Inr (ro, dev1, ex1)"
  shows "positive (js_get (renderTargetUseCount ex) i) \<and> ro \<noteq> None \<and>
         js_get (renderTargetAliveForID ex1) i = ro \<and>
         (\<forall>r. js_get (renderTargetAliveForID ex) i = Some r \<longrightarrow>
              ro = Some r \<and> dev1 = dev \<and> ex1 = ex)"
  using assms
proof (cases rule: acquireRenderTargetForID_Some)
  case (alive r)
  then show ?thesis by simp
next
  case (fresh r desc ex0)
  then show ?thesis by (simp add: js_get_js_set)
qed

lemma release_keeps_or_pools:
  assumes rel: "releaseRenderTargetForID (Some i) ex = Inr ex2"
    and al: "js_get (renderTargetAliveForID ex) i = Some r"
  shows "if js_get (renderTargetUseCount ex2) i = Some 0
         then js_get (renderTargetAliveForID ex2) i = None \<and>
              renderTargetDeadPool ex2 = renderTargetDeadPool ex @ [r\<lparr>rt_needsClear := True\<rparr>]
         else positive (js_get (renderTargetUseCount ex2) i) \<and>
              renderTargetAliveForID ex2 = renderTargetAliveForID ex \<and>
              renderTargetDeadPool ex2 = renderTargetDeadPool ex"
proof -
  from releaseRenderTargetForID_Some [OF rel] obtain n where
    n: "js_get (renderTargetUseCount ex) i = Some (Suc n)"
    and pos: "n \<noteq> 0 \<Longrightarrow> ex2 = ex\<lparr>renderTargetUseCount := (renderTargetUseCount ex)[i := Some n]\<rparr>"
    and zero: "n = 0 \<Longrightarrow> \<exists>r. js_get (renderTargetAliveForID ex) i = Some r \<and>
           ex2 = ex\<lparr>renderTargetUseCount := (renderTargetUseCount ex)[i := Some 0],
                     renderTargetAliveForID := js_delete (renderTargetAliveForID ex) i,
                     renderTargetDeadPool := renderTargetDeadPool ex @ [r\<lparr>rt_needsClear := True\<rparr>]\<rparr>"
    by blast
  have len: "i < length (renderTargetUseCount ex)" using n by (rule js_get_Some_length)
  show ?thesis
  proof (cases "n = 0")
    case True
    from zero [OF True] al len show ?thesis
      by (auto simp: js_get_list_update js_get_js_delete)
  next
    case False
    from pos [OF False] False len show ?thesis
      by (simp add: js_get_list_update positive_def)
  qed
qed

text \<open>
  C9: in a run of the hand-out loop over any list of passes, all passes that bind surface
  id \<open>i\<close> in a slot get one and the same attachment in their descriptors, and it is the
  attachment of the render target that was alive for \<open>i\<close> at the start if there was one
  (between two passes that bind \<open>i\<close> the use-count of \<open>i\<close> is positive, since the later
  pass is counted). Acquisition is lazy: \<^verbatim>\<open>acquireRenderTargetForID\<close> asserts a positive
  count, returns the alive entry unchanged when there is one and otherwise stores the
  acquired render target in the alive table. A release that leaves the count positive
  changes neither the alive table nor the pool; the release that brings the count to zero
  removes the entry and appends the render target to the dead pool.
\<close>

theorem one_physical_surface_per_id:
  "(schedulePasses dev graph ps presentColorTexture ex = Inr (ps', dev', ex') \<longrightarrow>
      (\<exists>a. (aliveAttachment ex i \<noteq> None \<longrightarrow> aliveAttachment ex i = Some a) \<and>
           (\<forall>k<length ps. \<forall>slot.
              js_get (renderTargetIDs (ps ! k)) (slotIndex slot) = Some i \<longrightarrow>
              attachmentAt slot (descriptor (ps' ! k)) = Some a))) \<and>
   (acquireRenderTargetForID dev graph (Some i) ex = Inr (ro, dev1, ex1) \<longrightarrow>
      positive (js_get (renderTargetUseCount ex) i) \<and> ro \<noteq> None \<and>
      js_get (renderTargetAliveForID ex1) i = ro \<and>
      (\<forall>r. js_get (renderTargetAliveForID ex) i = Some r \<longrightarrow>
           ro = Some r \<and> dev1 = dev \<and> ex1 = ex)) \<and>
   (releaseRenderTargetForID (Some i) ex = Inr ex2 \<and>
    js_get (renderTargetAliveForID ex) i = Some r \<longrightarrow>
      (if js_get (renderTargetUseCount ex2) i = Some 0
       then js_get (renderTargetAliveForID ex2) i = None \<and>
            renderTargetDeadPool ex2 = renderTargetDeadPool ex @ [r\<lparr>rt_needsClear := True\<rparr>]
       else positive (js_get (renderTargetUseCount ex2) i) \<and>
            renderTargetAliveForID ex2 = renderTargetAliveForID ex \<and>
            renderTargetDeadPool ex2 = renderTargetDeadPool ex))"
proof -
  have 1: "schedulePasses dev graph ps presentColorTexture ex = Inr (ps', dev', ex') \<longrightarrow>
      (\<exists>a. (aliveAttachment ex i \<noteq> None \<longrightarrow> aliveAttachment ex i = Some a) \<and>
           (\<forall>k<length ps. \<forall>slot.
              js_get (renderTargetIDs (ps ! k)) (slotIndex slot) = Some i \<longrightarrow>
              attachmentAt slot (descriptor (ps' ! k)) = Some a))"
    by (rule impI) (rule schedulePasses_one_attachment)
  have 2: "acquireRenderTargetForID dev graph (Some i) ex = Inr (ro, dev1, ex1) \<longrightarrow>
      positive (js_get (renderTargetUseCount ex) i) \<and> ro \<noteq> None \<and>
      js_get (renderTargetAliveForID ex1) i = ro \<and>
      (\<forall>r. js_get (renderTargetAliveForID ex) i = Some r \<longrightarrow>
           ro = Some r \<and> dev1 = dev \<and> ex1 = ex)"
    by (rule impI) (rule acquire_alive_or_fresh)
  have 3: "releaseRenderTargetForID (Some i) ex = Inr ex2 \<and>
    js_get (renderTargetAliveForID ex) i = Some r \<longrightarrow>
      (if js_get (renderTargetUseCount ex2) i = Some 0
       then js_get (renderTargetAliveForID ex2) i = None \<and>
            renderTargetDeadPool ex2 = renderTargetDeadPool ex @ [r\<lparr>rt_needsClear := True\<rparr>]
       else positive (js_get (renderTargetUseCount ex2) i) \<and>
            renderTargetAliveForID ex2 = renderTargetAliveForID ex \<and>
            renderTargetDeadPool ex2 = renderTargetDeadPool ex)"
    by (rule impI, erule conjE) (rule release_keeps_or_pools)
  show ?thesis by (rule conjI [OF 1 conjI [OF 2 3]])
qed

theorem one_physical_surface_per_id_witness:
  "\<exists>ps' dev' ex' ro dev1 ex1 r ex2 a.
     schedulePasses device0 twoWriterGraph (passes twoWriterGraph) None
       (countedExecutor twoWriterGraph) = Inr (ps', dev', ex') \<and>
     attachmentAt Color0 (descriptor (ps' ! 0)) = Some a \<and>
     attachmentAt DepthStencil (descriptor (ps' ! 1)) = Some a \<and>
     acquireRenderTargetForID device0 twoWriterGraph (Some 0) (countedExecutor twoWriterGraph)
       = Inr (ro, dev1, ex1) \<and>
     js_get (renderTargetAliveForID ex1) 0 = ro \<and> ro = Some r \<and>
     releaseRenderTargetForID (Some 0) ex1 = Inr ex2 \<and>
     js_get (renderTargetUseCount ex2) 0 = Some 1 \<and>
     renderTargetAliveForID ex2 = renderTargetAliveForID ex1"
proof -
  let ?g = twoWriterGraph and ?ex = "countedExecutor twoWriterGraph"
  let ?run = "schedulePasses device0 ?g (passes ?g) None ?ex"
  let ?acq = "acquireRenderTargetForID device0 ?g (Some 0) ?ex"
  have "\<not> isl ?run" by code_simp
  then obtain ps' dev' ex' where run: "?run = Inr (ps', dev', ex')"
    by (cases ?run) auto
  have "\<not> isl ?acq" by code_simp
  then obtain ro dev1 ex1 where acq: "?acq = Inr (ro, dev1, ex1)"
    by (cases ?acq) auto
  have "\<not> isl (bind_err ?acq (\<lambda>(ro, dev1, ex1). releaseRenderTargetForID (Some 0) ex1))"
    by code_simp
  with acq obtain ex2 where rel: "releaseRenderTargetForID (Some 0) ex1 = Inr ex2"
    by (cases "releaseRenderTargetForID (Some 0) ex1") auto
  have "bind_err ?acq (\<lambda>(ro, dev1, ex1). bind_err (releaseRenderTargetForID (Some 0) ex1)
          (\<lambda>ex2. Inr (js_get (renderTargetUseCount ex2) 0))) = Inr (Some 1)"
    by code_simp
  with acq rel have cnt: "js_get (renderTargetUseCount ex2) 0 = Some 1" by simp
  have b: "length (passes ?g) = 2"
    "js_get (renderTargetIDs (passes ?g ! 0)) (slotIndex Color0) = Some 0"
    "js_get (renderTargetIDs (passes ?g ! 1)) (slotIndex DepthStencil) = Some 0"
    by code_simp+
  note t = one_physical_surface_per_id [of device0 ?g "passes ?g" None ?ex ps' dev' ex' 0]
  from t run obtain a where
    a: "\<forall>k<length (passes ?g). \<forall>slot.
              js_get (renderTargetIDs (passes ?g ! k)) (slotIndex slot) = Some 0 \<longrightarrow>
              attachmentAt slot (descriptor (ps' ! k)) = Some a"
    by blast
  from a b(1) have "\<forall>slot. js_get (renderTargetIDs (passes ?g ! 0)) (slotIndex slot) = Some 0 \<longrightarrow>
              attachmentAt slot (descriptor (ps' ! 0)) = Some a"
    by simp
  from this [THEN spec, of Color0] b(2)
  have a0: "attachmentAt Color0 (descriptor (ps' ! 0)) = Some a"
    by (rule mp)
  from a b(1) have "\<forall>slot. js_get (renderTargetIDs (passes ?g ! 1)) (slotIndex slot) = Some 0 \<longrightarrow>
              attachmentAt slot (descriptor (ps' ! 1)) = Some a"
    by simp
  from this [THEN spec, of DepthStencil] b(3)
  have a1: "attachmentAt DepthStencil (descriptor (ps' ! 1)) = Some a"
    by (rule mp)
  note u = one_physical_surface_per_id
    [of device0 ?g "[]" None ?ex "[]" device0 ?ex 0 ro dev1 ex1,
      THEN conjunct2, THEN conjunct1, THEN mp, OF acq]
  from u obtain r where ro: "ro = Some r" "js_get (renderTargetAliveForID ex1) 0 = ro"
    by (cases ro) simp_all
  note v = one_physical_surface_per_id
    [of device0 ?g "[]" None ex1 "[]" device0 ex1 0 ro dev1 ex1 ex2 r,
      THEN conjunct2, THEN conjunct2, THEN mp, OF conjI, OF rel]
  from ro have "js_get (renderTargetAliveForID ex1) 0 = Some r" by simp
  from v [OF this] cnt have keep: "renderTargetAliveForID ex2 = renderTargetAliveForID ex1"
    by simp
  from run a0 a1 acq ro rel cnt keep show ?thesis by blast
qed

subsection \<open>The per-copy-id table\<close>

lemma acquireResolveTextureOutputForID_table:
  assumes "acquireResolveTextureOutputForID dev graph src co ex = Inr (t, dev', ex')"
    and "js_get (resolveTextureForID ex) c = Some r"
  shows "js_get (resolveTextureForID ex') c = Some r"
proof (cases co)
  case None
  with assms show ?thesis by simp
next
  case (Some c')
  from assms(1) [unfolded Some] show ?thesis
  proof (cases rule: acquireResolveTextureOutputForID_Some)
    case (textured i renderTarget)
    with assms(2) show ?thesis by simp
  next
    case (reused i renderTarget r')
    with assms(2) show ?thesis by simp
  next
    case (acquired i renderTarget desc r' ex0)
    from acquired(8) have "resolveTextureForID ex0 = resolveTextureForID ex"
      by (cases rule: acquireResolveTextureForDescription_Inr) simp_all
    moreover from acquired(6) assms(2) have "c \<noteq> c'" by auto
    ultimately show ?thesis using assms(2) acquired(10) by (simp add: js_get_js_set)
  qed
qed

lemma acquireInputTextures_table:
  assumes "acquireInputTextures graph cs k textures ex = Inr (textures', ex')"
  shows "resolveTextureForID ex' = resolveTextureForID ex \<and>
         resolveTextureDeadPool ex' = resolveTextureDeadPool ex \<and>
         resolveTextureUseCount ex' = resolveTextureUseCount ex"
  using assms
proof (induction cs arbitrary: k textures ex)
  case Nil
  then show ?case by simp
next
  case (Cons c cs)
  from Cons.prems obtain t ex1 where
    a: "acquireResolveTextureInputTextureForID graph c ex = Inr (t, ex1)"
    and b: "acquireInputTextures graph cs (Suc k) (js_set textures k t) ex1 = Inr (textures', ex')"
    by (auto simp: bind_err_Inr_iff)
  from a have "resolveTextureForID ex1 = resolveTextureForID ex \<and>
         resolveTextureDeadPool ex1 = resolveTextureDeadPool ex \<and>
         resolveTextureUseCount ex1 = resolveTextureUseCount ex"
    by (cases rule: acquireResolveTextureInputTextureForID_Inr)
      (auto dest: releaseRenderTargetForID_frame)
  with Cons.IH [OF b] show ?case by simp
qed

lemma releaseRenderTargets_frame:
  assumes "releaseRenderTargets ids ex = Inr ex'"
  shows "resolveTextureForID ex' = resolveTextureForID ex \<and>
         resolveTextureDeadPool ex' = resolveTextureDeadPool ex \<and>
         resolveTextureUseCount ex' = resolveTextureUseCount ex"
  using assms
proof (induction ids arbitrary: ex)
  case Nil
  then show ?case by simp
next
  case (Cons ido ids)
  from Cons.prems obtain ex1 where
    a: "releaseRenderTargetForID ido ex = Inr ex1"
    and b: "releaseRenderTargets ids ex1 = Inr ex'"
    by (auto simp: bind_err_Inr_iff)
  from releaseRenderTargetForID_frame [OF a] Cons.IH [OF b] show ?case by simp
qed

text \<open>The textures stored for the inputs whose copy id has an entry in the table.\<close>

lemma acquireInputTextures_textures:
  assumes "acquireInputTextures graph cs k textures ex = Inr (textures', ex')"
  shows "(\<forall>j<k. js_get textures' j = js_get textures j) \<and>
         (\<forall>n<length cs. \<forall>r. js_get (resolveTextureForID ex) (cs ! n) = Some r \<longrightarrow>
            js_get textures' (k + n) = Some (res_texture r))"
  using assms
proof (induction cs arbitrary: k textures ex)
  case Nil
  then show ?case by simp
next
  case (Cons c cs)
  from Cons.prems obtain t ex1 where
    a: "acquireResolveTextureInputTextureForID graph c ex = Inr (t, ex1)"
    and b: "acquireInputTextures graph cs (Suc k) (js_set textures k t) ex1 = Inr (textures', ex')"
    by (auto simp: bind_err_Inr_iff)
  from a have tab: "resolveTextureForID ex1 = resolveTextureForID ex"
    by (cases rule: acquireResolveTextureInputTextureForID_Inr)
      (auto dest: releaseRenderTargetForID_frame)
  from a have t: "\<forall>r. js_get (resolveTextureForID ex) c = Some r \<longrightarrow> t = res_texture r"
    by (cases rule: acquireResolveTextureInputTextureForID_Inr) auto
  note ih = Cons.IH [OF b]
  from ih have ih1: "\<And>j. j < Suc k \<Longrightarrow> js_get textures' j = js_get (js_set textures k t) j"
    by simp
  from ih have ih2: "\<And>n r. n < length cs \<Longrightarrow> js_get (resolveTextureForID ex) (cs ! n) = Some r
      \<Longrightarrow> js_get textures' (Suc k + n) = Some (res_texture r)"
    by (simp add: tab)
  show ?case
  proof (intro conjI allI impI)
    fix j assume "j < k"
    with ih1 [of j] show "js_get textures' j = js_get textures j"
      by (simp add: js_get_js_set)
  next
    fix n r assume n: "n < length (c # cs)"
      and r: "js_get (resolveTextureForID ex) ((c # cs) ! n) = Some r"
    show "js_get textures' (k + n) = Some (res_texture r)"
    proof (cases n)
      case 0
      with r t have "t = res_texture r" by simp
      with ih1 [of k] 0 show ?thesis by (simp add: js_get_js_set)
    next
      case (Suc m)
      with n r ih2 [of m r] show ?thesis by simp
    qed
  qed
qed

lemma schedulePass_lookup:
  assumes run: "schedulePass dev graph pass presentColorTexture ex = Inr (pass', dev', ex')"
    and c: "c \<in> set (resolveTextureInputIDs pass)"
    and r: "js_get (resolveTextureForID ex) c = Some r"
  shows "js_get (resolveTextureForID ex') c = Some r"
    and "getResolveTextureForID (exq\<lparr>ex_currentGraphPass := Some pass'\<rparr>) c = Inr (res_texture r)"
proof -
  let ?i0 = "js_get (renderTargetIDs pass) 0" and ?i1 = "js_get (renderTargetIDs pass) 1"
  from run obtain c0 dev1 ex1 ds dev2 ex2 colorResolve dev3 ex3 dsResolve ex4 textures ex6 ex7
    where a1: "acquireRenderTargetForID dev graph ?i0 ex = Inr (c0, dev1, ex1)"
      and a2: "acquireRenderTargetForID dev1 graph ?i1 ex1 = Inr (ds, dev2, ex2)"
      and o1: "(if doPresent pass then Inr (presentColorTexture, dev2, ex2)
               else acquireResolveTextureOutputForID dev2 graph ?i0
                      (js_get (resolveTextureOutputIDs pass) 0) ex2) = Inr (colorResolve, dev3, ex3)"
      and o2: "acquireResolveTextureOutputForID dev3 graph ?i1
                 (js_get (resolveTextureOutputIDs pass) 1) ex3 = Inr (dsResolve, dev', ex4)"
      and inp: "acquireInputTextures graph (resolveTextureInputIDs pass) 0
                (resolveTextureInputTextures pass)
                (clearDone ?i1 ds (clearDone ?i0 c0 ex4)) = Inr (textures, ex6)"
      and r1: "releaseRenderTargets (renderTargetIDs pass) ex6 = Inr ex7"
      and r2: "releaseResolveTextureInputs (resolveTextureInputIDs pass) ex7 = Inr ex'"
      and p': "resolveTextureInputIDs pass' = resolveTextureInputIDs pass"
        "resolveTextureInputTextures pass' = textures"
    by (rule schedulePass_Inr) simp
  have t2: "js_get (resolveTextureForID ex2) c = Some r"
    using acquireRenderTargetForID_frame [OF a1] acquireRenderTargetForID_frame [OF a2] r
    by simp
  have t3: "js_get (resolveTextureForID ex3) c = Some r"
  proof (cases "doPresent pass")
    case True
    with o1 t2 show ?thesis by simp
  next
    case False
    with o1 have "acquireResolveTextureOutputForID dev2 graph ?i0
                      (js_get (resolveTextureOutputIDs pass) 0) ex2 = Inr (colorResolve, dev3, ex3)"
      by simp
    from acquireResolveTextureOutputForID_table [OF this t2] show ?thesis .
  qed
  have t4: "js_get (resolveTextureForID ex4) c = Some r"
    by (rule acquireResolveTextureOutputForID_table [OF o2 t3])
  let ?ex5 = "clearDone ?i1 ds (clearDone ?i0 c0 ex4)"
  have t5: "js_get (resolveTextureForID ?ex5) c = Some r"
    using t4 by (simp add: clearDone_fields)
  have t6: "js_get (resolveTextureForID ex6) c = Some r"
    using acquireInputTextures_table [OF inp] t5 by simp
  have t7: "js_get (resolveTextureForID ex7) c = Some r"
    using releaseRenderTargets_frame [OF r1] t6 by simp
  show "js_get (resolveTextureForID ex') c = Some r"
    using releaseResolveTextureInputs_frame [OF r2] t7 by simp
  from c obtain n where n: "indexOf (resolveTextureInputIDs pass) c = Some n"
    using indexOf_None_iff [of "resolveTextureInputIDs pass" c] by auto
  from indexOf_Some [OF n] have "n < length (resolveTextureInputIDs pass)"
    "resolveTextureInputIDs pass ! n = c"
    by simp_all
  with acquireInputTextures_textures [OF inp] t5
  have "js_get textures (0 + n) = Some (res_texture r)" by blast
  then show "getResolveTextureForID (exq\<lparr>ex_currentGraphPass := Some pass'\<rparr>) c
      = Inr (res_texture r)"
    by (simp add: getResolveTextureForID_def p' n)
qed

lemma releaseResolveTextureInputs_pool_mono:
  assumes "releaseResolveTextureInputs cs ex = Inr ex'"
  shows "set (resolveTextureDeadPool ex) \<subseteq> set (resolveTextureDeadPool ex')"
  using assms
proof (induction cs arbitrary: ex)
  case Nil
  then show ?case by simp
next
  case (Cons c cs)
  from Cons.prems obtain ex1 where
    a: "releaseResolveTextureInputForID c ex = Inr ex1"
    and b: "releaseResolveTextureInputs cs ex1 = Inr ex'"
    by (auto simp: bind_err_Inr_iff)
  from a obtain n where "ex1 = ex\<lparr>resolveTextureUseCount := (resolveTextureUseCount ex)[c := Some n],
                    resolveTextureDeadPool := resolveTextureDeadPool ex @
                      (if n = 0 then (case js_get (resolveTextureForID ex) c of
                                        None \<Rightarrow> [] | Some r \<Rightarrow> [r]) else [])\<rparr>"
    by (rule releaseResolveTextureInputForID_Inr)
  then have "resolveTextureDeadPool ex1 = resolveTextureDeadPool ex @
                      (if n = 0 then (case js_get (resolveTextureForID ex) c of
                                        None \<Rightarrow> [] | Some r \<Rightarrow> [r]) else [])"
    by simp
  then obtain zs where "resolveTextureDeadPool ex1 = resolveTextureDeadPool ex @ zs"
    by blast
  then have "set (resolveTextureDeadPool ex) \<subseteq> set (resolveTextureDeadPool ex1)"
    by simp
  with Cons.IH [OF b] show ?case by blast
qed

lemma releaseResolveTextureInputs_untouched:
  assumes "releaseResolveTextureInputs cs ex = Inr ex'" "c \<notin> set cs"
  shows "js_get (resolveTextureUseCount ex') c = js_get (resolveTextureUseCount ex) c"
proof -
  from countsStep_releaseResolveTextureInputs [OF assms(1)]
  have "released (count_list cs c) (js_get (resolveTextureUseCount ex) c)
          (js_get (resolveTextureUseCount ex') c)"
    by (simp add: countsStep_def)
  with assms(2) show ?thesis
    by (cases "js_get (resolveTextureUseCount ex) c") (simp_all add: released_def)
qed

lemma releaseResolveTextureInputs_pooled:
  assumes "releaseResolveTextureInputs cs ex = Inr ex'" "c \<in> set cs"
    and "js_get (resolveTextureForID ex) c = Some r"
    and "js_get (resolveTextureUseCount ex') c = Some 0"
  shows "r \<in> set (resolveTextureDeadPool ex')"
  using assms
proof (induction cs arbitrary: ex)
  case Nil
  then show ?case by simp
next
  case (Cons c0 cs)
  from Cons.prems(1) obtain ex1 where
    a: "releaseResolveTextureInputForID c0 ex = Inr ex1"
    and b: "releaseResolveTextureInputs cs ex1 = Inr ex'"
    by (auto simp: bind_err_Inr_iff)
  from a obtain n where n: "js_get (resolveTextureUseCount ex) c0 = Some (Suc n)"
    and ex1: "ex1 = ex\<lparr>resolveTextureUseCount := (resolveTextureUseCount ex)[c0 := Some n],
                    resolveTextureDeadPool := resolveTextureDeadPool ex @
                      (if n = 0 then (case js_get (resolveTextureForID ex) c0 of
                                        None \<Rightarrow> [] | Some r \<Rightarrow> [r]) else [])\<rparr>"
    by (rule releaseResolveTextureInputForID_Inr)
  have tab: "js_get (resolveTextureForID ex1) c = Some r"
    using Cons.prems(3) by (simp add: ex1)
  show ?case
  proof (cases "c \<in> set cs")
    case True
    from Cons.IH [OF b True tab Cons.prems(4)] show ?thesis .
  next
    case False
    with Cons.prems(2) have c0: "c0 = c" by simp
    from releaseResolveTextureInputs_untouched [OF b False] Cons.prems(4)
    have "js_get (resolveTextureUseCount ex1) c = Some 0" by simp
    with n c0 have "n = 0"
      using js_get_Some_length [OF n] by (simp add: ex1 js_get_list_update)
    with c0 Cons.prems(3) have "r \<in> set (resolveTextureDeadPool ex1)"
      by (simp add: ex1)
    with releaseResolveTextureInputs_pool_mono [OF b] show ?thesis by blast
  qed
qed

lemma schedulePass_pooled:
  assumes run: "schedulePass dev graph pass presentColorTexture ex = Inr (pass', dev', ex')"
    and c: "c \<in> set (resolveTextureInputIDs pass)"
    and r: "js_get (resolveTextureForID ex) c = Some r"
    and z: "js_get (resolveTextureUseCount ex') c = Some 0"
  shows "r \<in> set (resolveTextureDeadPool ex')"
proof -
  from run obtain ex7 where
    r2: "releaseResolveTextureInputs (resolveTextureInputIDs pass) ex7 = Inr ex'"
    by (rule schedulePass_Inr)
  from schedulePass_lookup(1) [OF run c r] releaseResolveTextureInputs_frame [OF r2]
  have "js_get (resolveTextureForID ex7) c = Some r" by simp
  from releaseResolveTextureInputs_pooled [OF r2 c this z] show ?thesis .
qed

lemma execPass_table:
  assumes "execPass dev pass ex = Inr (dev', ex')"
  shows "ex' = ex"
  using assms
  by (auto simp: execPass_def bind_err_Inr_iff Let_def)

lemma execPasses_table:
  assumes "execPasses dev ps ex = Inr (dev', ex')"
  shows "ex' = ex"
  using assms
proof (induction ps arbitrary: dev ex)
  case Nil
  then show ?case by simp
next
  case (Cons p ps)
  from Cons.prems obtain dev1 ex1 where
    a: "execPass dev p ex = Inr (dev1, ex1)"
    and b: "execPasses dev1 ps ex1 = Inr (dev', ex')"
    by (auto simp: bind_err_Inr_iff)
  from execPass_table [OF a] Cons.IH [OF b] show ?case by simp
qed

lemma execGraph_Inr:
  assumes "execGraph dev graph presentColorTexture ex = Inr (graph', dev', ex')"
  obtains dev1 ex1 where
    "scheduleGraph dev graph presentColorTexture ex = Inr (graph', dev1, ex1)"
    "ex_currentGraph ex1 = None"
    "execPasses dev1 (passes graph') (ex1\<lparr>ex_currentGraph := Some graph'\<rparr>)
       = Inr (dev', ex1\<lparr>ex_currentGraph := Some graph'\<rparr>)"
    "ex' = ex1\<lparr>ex_currentGraph := None, resolveTextureForID := []\<rparr>"
proof -
  from assms obtain g1 dev1 ex1 where
    s1: "scheduleGraph dev graph presentColorTexture ex = Inr (g1, dev1, ex1)"
    and rest: "bind_err (assert (ex_currentGraph ex1 = None)) (\<lambda>_.
        bind_err (execPasses dev1 (passes g1) (ex1\<lparr>ex_currentGraph := Some g1\<rparr>))
          (\<lambda>(dev2, ex2).
             Inr (g1, dev2, ex2\<lparr>ex_currentGraph := None, resolveTextureForID := []\<rparr>)))
        = Inr (graph', dev', ex')"
    by (auto simp: execGraph_def bind_err_Inr_iff)
  from rest have n: "ex_currentGraph ex1 = None"
    and rest2: "bind_err (execPasses dev1 (passes g1) (ex1\<lparr>ex_currentGraph := Some g1\<rparr>))
          (\<lambda>(dev2, ex2).
             Inr (g1, dev2, ex2\<lparr>ex_currentGraph := None, resolveTextureForID := []\<rparr>))
        = Inr (graph', dev', ex')"
    by (auto simp: bind_err_Inr_iff)
  from rest2 obtain dev2 ex2 where
    e1: "execPasses dev1 (passes g1) (ex1\<lparr>ex_currentGraph := Some g1\<rparr>) = Inr (dev2, ex2)"
    and g: "graph' = g1"
    and r: "dev' = dev2" "ex' = ex2\<lparr>ex_currentGraph := None, resolveTextureForID := []\<rparr>"
    by (auto simp: bind_err_Inr_iff)
  from s1 g have s: "scheduleGraph dev graph presentColorTexture ex = Inr (graph', dev1, ex1)"
    by simp
  from e1 g have e: "execPasses dev1 (passes graph') (ex1\<lparr>ex_currentGraph := Some graph'\<rparr>)
       = Inr (dev2, ex2)"
    by simp
  from execPasses_table [OF e] have "ex2 = ex1\<lparr>ex_currentGraph := Some graph'\<rparr>" .
  with s n e r show thesis by (intro that [of dev1 ex1]) simp_all
qed

subsection \<open>Single-sampled surfaces need no copy\<close>

lemma textureBacked_update [simp]:
  "textureBacked (r\<lparr>rt_needsClear := b\<rparr>) = textureBacked r"
  "textureBacked (r\<lparr>rt_age := n\<rparr>) = textureBacked r"
  by (simp_all add: textureBacked_def)

lemma newRenderTarget_textureBacked:
  assumes "newRenderTarget dev desc = Inr (r, dev')"
  shows "textureBacked r"
  using newRenderTarget_Inr(1,5,8) [OF assms] by (auto simp: textureBacked_def)

lemma acquireRenderTargetForDescription_textureBacked:
  assumes "acquireRenderTargetForDescription dev desc ex = Inr (r, dev', ex')"
    and "\<forall>r \<in> set (renderTargetDeadPool ex). textureBacked r"
  shows "textureBacked r \<and> rt_numSamples r = desc_numSamples desc \<and>
         (\<forall>r \<in> set (renderTargetDeadPool ex'). textureBacked r) \<and>
         renderTargetAliveForID ex' = renderTargetAliveForID ex"
  using assms(1)
proof (cases rule: acquireRenderTargetForDescription_Inr)
  case (hit as y bs)
  with assms(2) show ?thesis
    by (simp add: rt_matchesDescription_def)
next
  case miss
  with newRenderTarget_textureBacked [OF miss(2)] newRenderTarget_Inr(8) [OF miss(2)] assms(2)
  show ?thesis by simp
qed

lemma backedInv_acquireRenderTargetForID:
  assumes "acquireRenderTargetForID dev graph ido ex = Inr (ro, dev', ex')" "backedInv ex"
  shows "backedInv ex'"
proof (cases ido)
  case None
  with assms show ?thesis by simp
next
  case (Some i)
  from assms(1) [unfolded Some] show ?thesis
  proof (cases rule: acquireRenderTargetForID_Some)
    case (alive r)
    with assms(2) show ?thesis by simp
  next
    case (fresh r desc ex0)
    from assms(2) have "\<forall>r \<in> set (renderTargetDeadPool ex). textureBacked r"
      by (simp add: backedInv_def)
    from acquireRenderTargetForDescription_textureBacked [OF fresh(4) this] assms(2) fresh(6)
    show ?thesis
      by (auto simp: backedInv_def js_get_js_set split: if_splits)
  qed
qed

lemma backedInv_clearDone:
  assumes "backedInv ex" "\<forall>r. ro = Some r \<longrightarrow> textureBacked r"
  shows "backedInv (clearDone ido ro ex)"
  using assms
  by (auto simp: backedInv_def clearDone_fields clearDone_alive
      split: option.splits if_splits)

lemma backedInv_releaseRenderTargetForID:
  assumes "releaseRenderTargetForID ido ex = Inr ex'" "backedInv ex"
  shows "backedInv ex'"
proof (cases ido)
  case None
  with assms show ?thesis by simp
next
  case (Some i)
  from releaseRenderTargetForID_Some [OF assms(1) [unfolded Some]] obtain n where
    pos: "n \<noteq> 0 \<Longrightarrow> ex' = ex\<lparr>renderTargetUseCount := (renderTargetUseCount ex)[i := Some n]\<rparr>"
    and zero: "n = 0 \<Longrightarrow> \<exists>r. js_get (renderTargetAliveForID ex) i = Some r \<and>
           ex' = ex\<lparr>renderTargetUseCount := (renderTargetUseCount ex)[i := Some 0],
                     renderTargetAliveForID := js_delete (renderTargetAliveForID ex) i,
                     renderTargetDeadPool := renderTargetDeadPool ex @ [r\<lparr>rt_needsClear := True\<rparr>]\<rparr>"
    by blast
  show ?thesis
  proof (cases "n = 0")
    case True
    from zero [OF True] assms(2) show ?thesis
      by (auto simp: backedInv_def js_get_js_delete split: if_splits)
  next
    case False
    from pos [OF False] assms(2) show ?thesis by (simp add: backedInv_def)
  qed
qed

lemma backedInv_acquireInputTextures:
  assumes "acquireInputTextures graph cs i textures ex = Inr (textures', ex')" "backedInv ex"
  shows "backedInv ex'"
  using assms
proof (induction cs arbitrary: i textures ex)
  case Nil
  then show ?case by simp
next
  case (Cons c cs)
  from Cons.prems(1) obtain t ex1 where
    a: "acquireResolveTextureInputTextureForID graph c ex = Inr (t, ex1)"
    and b: "acquireInputTextures graph cs (Suc i) (js_set textures i t) ex1 = Inr (textures', ex')"
    by (auto simp: bind_err_Inr_iff)
  from a Cons.prems(2) have "backedInv ex1"
    by (cases rule: acquireResolveTextureInputTextureForID_Inr)
      (auto dest: backedInv_releaseRenderTargetForID)
  with Cons.IH [OF b] show ?case by simp
qed

lemma backedInv_releaseRenderTargets:
  assumes "releaseRenderTargets ids ex = Inr ex'" "backedInv ex"
  shows "backedInv ex'"
  using assms
proof (induction ids arbitrary: ex)
  case Nil
  then show ?case by simp
next
  case (Cons ido ids)
  from Cons.prems(1) obtain ex1 where
    a: "releaseRenderTargetForID ido ex = Inr ex1"
    and b: "releaseRenderTargets ids ex1 = Inr ex'"
    by (auto simp: bind_err_Inr_iff)
  from Cons.IH [OF b backedInv_releaseRenderTargetForID [OF a Cons.prems(2)]]
  show ?case .
qed

lemma backedInv_frame:
  assumes "renderTargetDeadPool ex' = renderTargetDeadPool ex"
    "renderTargetAliveForID ex' = renderTargetAliveForID ex" "backedInv ex"
  shows "backedInv ex'"
  using assms by (simp add: backedInv_def)

lemma backedInv_schedulePass:
  assumes run: "schedulePass dev graph pass presentColorTexture ex = Inr (pass', dev', ex')"
    and inv: "backedInv ex"
  shows "backedInv ex'"
proof -
  let ?i0 = "js_get (renderTargetIDs pass) 0" and ?i1 = "js_get (renderTargetIDs pass) 1"
  from run obtain c0 dev1 ex1 ds dev2 ex2 colorResolve dev3 ex3 dsResolve ex4 textures ex6 ex7
    where a1: "acquireRenderTargetForID dev graph ?i0 ex = Inr (c0, dev1, ex1)"
      and a2: "acquireRenderTargetForID dev1 graph ?i1 ex1 = Inr (ds, dev2, ex2)"
      and o1: "(if doPresent pass then Inr (presentColorTexture, dev2, ex2)
               else acquireResolveTextureOutputForID dev2 graph ?i0
                      (js_get (resolveTextureOutputIDs pass) 0) ex2) = Inr (colorResolve, dev3, ex3)"
      and o2: "acquireResolveTextureOutputForID dev3 graph ?i1
                 (js_get (resolveTextureOutputIDs pass) 1) ex3 = Inr (dsResolve, dev', ex4)"
      and inp: "acquireInputTextures graph (resolveTextureInputIDs pass) 0
                (resolveTextureInputTextures pass)
                (clearDone ?i1 ds (clearDone ?i0 c0 ex4)) = Inr (textures, ex6)"
      and r1: "releaseRenderTargets (renderTargetIDs pass) ex6 = Inr ex7"
      and r2: "releaseResolveTextureInputs (resolveTextureInputIDs pass) ex7 = Inr ex'"
    by (rule schedulePass_Inr)
  have i1: "backedInv ex1" by (rule backedInv_acquireRenderTargetForID [OF a1 inv])
  have i2: "backedInv ex2" by (rule backedInv_acquireRenderTargetForID [OF a2 i1])
  have c0: "\<forall>r. c0 = Some r \<longrightarrow> textureBacked r"
  proof (cases ?i0)
    case None
    with a1 show ?thesis by simp
  next
    case (Some j)
    from acquire_aliveAttachment(4) [OF a1 Some] i1 show ?thesis
      by (auto simp: backedInv_def)
  qed
  have ds: "\<forall>r. ds = Some r \<longrightarrow> textureBacked r"
  proof (cases ?i1)
    case None
    with a2 show ?thesis by simp
  next
    case (Some j)
    from acquire_aliveAttachment(4) [OF a2 Some] i2 show ?thesis
      by (auto simp: backedInv_def)
  qed
  have f3: "renderTargetDeadPool ex3 = renderTargetDeadPool ex2 \<and>
            renderTargetAliveForID ex3 = renderTargetAliveForID ex2"
    using o1 by (cases "doPresent pass") (auto dest: acquireResolveTextureOutputForID_frame)
  have i4: "backedInv ex4"
    using acquireResolveTextureOutputForID_frame [OF o2] f3 i2
    by (intro backedInv_frame [of ex4 ex2]) simp_all
  have i5: "backedInv (clearDone ?i1 ds (clearDone ?i0 c0 ex4))"
    by (intro backedInv_clearDone i4 c0 ds)
  from backedInv_acquireInputTextures [OF inp i5] have "backedInv ex6" .
  from backedInv_releaseRenderTargets [OF r1 this] have "backedInv ex7" .
  with releaseResolveTextureInputs_frame [OF r2] show ?thesis
    by (intro backedInv_frame [of ex' ex7]) simp_all
qed

lemma acquireRenderTargetForDescription_numSamples:
  assumes "acquireRenderTargetForDescription dev desc ex = Inr (r, dev', ex')"
  shows "rt_numSamples r = desc_numSamples desc"
  using assms
proof (cases rule: acquireRenderTargetForDescription_Inr)
  case (hit as y bs)
  then show ?thesis by (simp add: rt_matchesDescription_def)
next
  case miss
  from newRenderTarget_Inr(8) [OF miss(2)] show ?thesis .
qed

lemma aliveDescribed_acquireRenderTargetForID:
  assumes "acquireRenderTargetForID dev graph ido ex = Inr (ro, dev', ex')"
    "aliveDescribed graph ex"
  shows "aliveDescribed graph ex'"
proof (cases ido)
  case None
  with assms show ?thesis by simp
next
  case (Some i)
  from assms(1) [unfolded Some] show ?thesis
  proof (cases rule: acquireRenderTargetForID_Some)
    case (alive r)
    with assms(2) show ?thesis by simp
  next
    case (fresh r desc ex0)
    from fresh(4) have "renderTargetAliveForID ex0 = renderTargetAliveForID ex"
      by (cases rule: acquireRenderTargetForDescription_Inr) simp_all
    with acquireRenderTargetForDescription_numSamples [OF fresh(4)] assms(2) fresh(3,6)
    show ?thesis
      by (auto simp: aliveDescribed_def js_get_js_set split: if_splits)
  qed
qed

lemma single_sampled_textured:
  assumes "backedInv ex" "aliveDescribed graph ex" "singleSampled graph i"
    "js_get (renderTargetAliveForID ex) i = Some r"
  shows "rt_texture r \<noteq> None"
proof -
  from assms(2,4) obtain d where "nth_opt (renderTargetDescriptions graph) i = Some d"
    "rt_numSamples r = desc_numSamples d"
    by (auto simp: aliveDescribed_def)
  with assms(3) have "rt_numSamples r = 1" by (simp add: singleSampled_def)
  moreover from assms(1,4) have "textureBacked r" by (auto simp: backedInv_def)
  ultimately show ?thesis by (simp add: textureBacked_def)
qed

text \<open>
  A request for the resolve target of a copy of a single-sampled surface acquires nothing,
  and no request changes the table entry of such a copy.
\<close>

lemma output_single_sampled:
  assumes run: "acquireResolveTextureOutputForID dev graph src co ex = Inr (t, dev', ex')"
    and inv: "backedInv ex" "aliveDescribed graph ex"
    and c: "nth_opt (resolveTextureRenderTargetIDs graph) c = Some i" "singleSampled graph i"
  shows "js_get (resolveTextureForID ex') c = js_get (resolveTextureForID ex) c"
    and "co = Some c \<Longrightarrow> t = None \<and> dev' = dev \<and> ex' = ex"
proof -
  have "js_get (resolveTextureForID ex') c = js_get (resolveTextureForID ex) c \<and>
        (co = Some c \<longrightarrow> t = None \<and> dev' = dev \<and> ex' = ex)"
  proof (cases co)
    case None
    with run show ?thesis by simp
  next
    case (Some c')
    from run [unfolded Some] show ?thesis
    proof (cases rule: acquireResolveTextureOutputForID_Some)
      case (textured j renderTarget)
      then show ?thesis by simp
    next
      case (reused j renderTarget r)
      have "c' \<noteq> c"
      proof
        assume "c' = c"
        with reused(2) c(1) have "j = i" by simp
        with single_sampled_textured [OF inv c(2)] reused(4,5) show False by simp
      qed
      with reused Some show ?thesis by simp
    next
      case (acquired j renderTarget desc r ex0)
      have ne: "c' \<noteq> c"
      proof
        assume "c' = c"
        with acquired(2) c(1) have "j = i" by simp
        with single_sampled_textured [OF inv c(2)] acquired(4,5) show False by simp
      qed
      from acquired(8) have "resolveTextureForID ex0 = resolveTextureForID ex"
        by (cases rule: acquireResolveTextureForDescription_Inr) simp_all
      with ne acquired(10) Some show ?thesis by (simp add: js_get_js_set)
    qed
  qed
  then show "js_get (resolveTextureForID ex') c = js_get (resolveTextureForID ex) c"
    and "co = Some c \<Longrightarrow> t = None \<and> dev' = dev \<and> ex' = ex"
    by simp_all
qed

text \<open>The releases only take entries out of the alive table.\<close>

lemma releaseRenderTargetForID_alive_sub:
  assumes "releaseRenderTargetForID ido ex = Inr ex'"
    "js_get (renderTargetAliveForID ex') j = Some r"
  shows "js_get (renderTargetAliveForID ex) j = Some r"
proof (cases ido)
  case None
  with assms show ?thesis by simp
next
  case (Some i)
  from releaseRenderTargetForID_Some [OF assms(1) [unfolded Some]] obtain n where
    pos: "n \<noteq> 0 \<Longrightarrow> ex' = ex\<lparr>renderTargetUseCount := (renderTargetUseCount ex)[i := Some n]\<rparr>"
    and zero: "n = 0 \<Longrightarrow> \<exists>r. js_get (renderTargetAliveForID ex) i = Some r \<and>
           ex' = ex\<lparr>renderTargetUseCount := (renderTargetUseCount ex)[i := Some 0],
                     renderTargetAliveForID := js_delete (renderTargetAliveForID ex) i,
                     renderTargetDeadPool := renderTargetDeadPool ex @ [r\<lparr>rt_needsClear := True\<rparr>]\<rparr>"
    by blast
  show ?thesis
  proof (cases "n = 0")
    case True
    from zero [OF True] assms(2) show ?thesis
      by (auto simp: js_get_js_delete split: if_splits)
  next
    case False
    from pos [OF False] assms(2) show ?thesis by simp
  qed
qed

lemma acquireResolveTextureInputTextureForID_alive_sub:
  assumes "acquireResolveTextureInputTextureForID graph c ex = Inr (t, ex')"
  shows "resolveTextureForID ex' = resolveTextureForID ex"
    and "js_get (renderTargetAliveForID ex') j = Some r \<Longrightarrow>
         js_get (renderTargetAliveForID ex) j = Some r"
  using assms
  by (cases rule: acquireResolveTextureInputTextureForID_Inr;
      auto dest: releaseRenderTargetForID_alive_sub releaseRenderTargetForID_frame)+

lemma acquireInputTextures_alive_sub:
  assumes "acquireInputTextures graph cs k textures ex = Inr (textures', ex')"
    "js_get (renderTargetAliveForID ex') j = Some r"
  shows "js_get (renderTargetAliveForID ex) j = Some r"
  using assms
proof (induction cs arbitrary: k textures ex)
  case Nil
  then show ?case by simp
next
  case (Cons c cs)
  from Cons.prems(1) obtain t ex1 where
    a: "acquireResolveTextureInputTextureForID graph c ex = Inr (t, ex1)"
    and b: "acquireInputTextures graph cs (Suc k) (js_set textures k t) ex1 = Inr (textures', ex')"
    by (auto simp: bind_err_Inr_iff)
  from Cons.IH [OF b Cons.prems(2)] show ?case
    by (rule acquireResolveTextureInputTextureForID_alive_sub(2) [OF a])
qed

lemma releaseRenderTargets_alive_sub:
  assumes "releaseRenderTargets ids ex = Inr ex'"
    "js_get (renderTargetAliveForID ex') j = Some r"
  shows "js_get (renderTargetAliveForID ex) j = Some r"
  using assms
proof (induction ids arbitrary: ex)
  case Nil
  then show ?case by simp
next
  case (Cons ido ids)
  from Cons.prems(1) obtain ex1 where
    a: "releaseRenderTargetForID ido ex = Inr ex1"
    and b: "releaseRenderTargets ids ex1 = Inr ex'"
    by (auto simp: bind_err_Inr_iff)
  from Cons.IH [OF b Cons.prems(2)] show ?case
    by (rule releaseRenderTargetForID_alive_sub [OF a])
qed

lemma aliveDescribed_sub:
  assumes "aliveDescribed graph ex"
    "\<And>j r. js_get (renderTargetAliveForID ex') j = Some r \<Longrightarrow>
            js_get (renderTargetAliveForID ex) j = Some r"
  shows "aliveDescribed graph ex'"
  using assms unfolding aliveDescribed_def by blast

text \<open>
  An input whose copy id has no entry in the table gets the texture of the render target
  that is alive for the originating surface.
\<close>

lemma acquireInputTextures_direct:
  assumes "acquireInputTextures graph cs k textures ex = Inr (textures', ex')"
  shows "\<forall>n<length cs. js_get (resolveTextureForID ex) (cs ! n) = None \<longrightarrow>
     (\<exists>i rt t. nth_opt (resolveTextureRenderTargetIDs graph) (cs ! n) = Some i \<and>
        js_get (renderTargetAliveForID ex) i = Some rt \<and> rt_texture rt = Some t \<and>
        js_get textures' (k + n) = Some t)"
  using assms
proof (induction cs arbitrary: k textures ex)
  case Nil
  then show ?case by simp
next
  case (Cons c cs)
  from Cons.prems obtain t ex1 where
    a: "acquireResolveTextureInputTextureForID graph c ex = Inr (t, ex1)"
    and b: "acquireInputTextures graph cs (Suc k) (js_set textures k t) ex1 = Inr (textures', ex')"
    by (auto simp: bind_err_Inr_iff)
  note tab = acquireResolveTextureInputTextureForID_alive_sub(1) [OF a]
  from acquireInputTextures_textures [OF b] have
    kept: "js_get textures' k = Some t" by (simp add: js_get_js_set)
  note ih = Cons.IH [OF b]
  show ?case
  proof (intro allI impI)
    fix n assume n: "n < length (c # cs)"
      and none: "js_get (resolveTextureForID ex) ((c # cs) ! n) = None"
    show "\<exists>i rt t. nth_opt (resolveTextureRenderTargetIDs graph) ((c # cs) ! n) = Some i \<and>
        js_get (renderTargetAliveForID ex) i = Some rt \<and> rt_texture rt = Some t \<and>
        js_get textures' (k + n) = Some t"
    proof (cases n)
      case 0
      from a show ?thesis
      proof (cases rule: acquireResolveTextureInputTextureForID_Inr)
        case (copy r)
        with none 0 show ?thesis by simp
      next
        case (direct i renderTarget)
        with kept 0 show ?thesis by simp
      qed
    next
      case (Suc m)
      with n none tab have "m < length cs" "js_get (resolveTextureForID ex1) (cs ! m) = None"
        by simp_all
      with ih obtain i rt t' where
        "nth_opt (resolveTextureRenderTargetIDs graph) (cs ! m) = Some i"
        "js_get (renderTargetAliveForID ex1) i = Some rt" "rt_texture rt = Some t'"
        "js_get textures' (Suc k + m) = Some t'"
        by blast
      with acquireResolveTextureInputTextureForID_alive_sub(2) [OF a, of i rt] Suc
      show ?thesis by simp
    qed
  qed
qed

lemma single_sampled_schedulePass:
  assumes run: "schedulePass dev graph pass presentColorTexture ex = Inr (pass', dev', ex')"
    and inv: "backedInv ex" "aliveDescribed graph ex"
  shows "aliveDescribed graph ex'"
    and "\<And>c i. nth_opt (resolveTextureRenderTargetIDs graph) c = Some i \<Longrightarrow>
           singleSampled graph i \<Longrightarrow>
           js_get (resolveTextureForID ex') c = js_get (resolveTextureForID ex) c"
    and "\<And>i c. js_get (renderTargetIDs pass) 0 = Some i \<Longrightarrow>
           js_get (resolveTextureOutputIDs pass) 0 = Some c \<Longrightarrow> singleSampled graph i \<Longrightarrow>
           \<not> doPresent pass \<Longrightarrow> colorResolveTo (descriptor pass') = None"
    and "\<And>i c. js_get (renderTargetIDs pass) 1 = Some i \<Longrightarrow>
           js_get (resolveTextureOutputIDs pass) 1 = Some c \<Longrightarrow> singleSampled graph i \<Longrightarrow>
           depthStencilResolveTo (descriptor pass') = None"
    and "\<And>n i rt. n < length (resolveTextureInputIDs pass) \<Longrightarrow>
           nth_opt (resolveTextureRenderTargetIDs graph) (resolveTextureInputIDs pass ! n) = Some i \<Longrightarrow>
           singleSampled graph i \<Longrightarrow>
           js_get (resolveTextureForID ex) (resolveTextureInputIDs pass ! n) = None \<Longrightarrow>
           js_get (renderTargetAliveForID ex) i = Some rt \<Longrightarrow>
           rt_texture rt \<noteq> None \<and>
           js_get (resolveTextureInputTextures pass') n = rt_texture rt"
proof -
  let ?i0 = "js_get (renderTargetIDs pass) 0" and ?i1 = "js_get (renderTargetIDs pass) 1"
  from run obtain c0 dev1 ex1 colorClear ds dev2 ex2 depthClear stencilClear colorResolve dev3 ex3
    dsResolve ex4 textures ex6 ex7
    where a1: "acquireRenderTargetForID dev graph ?i0 ex = Inr (c0, dev1, ex1)"
      and a2: "acquireRenderTargetForID dev1 graph ?i1 ex1 = Inr (ds, dev2, ex2)"
      and o1: "(if doPresent pass then Inr (presentColorTexture, dev2, ex2)
               else acquireResolveTextureOutputForID dev2 graph ?i0
                      (js_get (resolveTextureOutputIDs pass) 0) ex2) = Inr (colorResolve, dev3, ex3)"
      and o2: "acquireResolveTextureOutputForID dev3 graph ?i1
                 (js_get (resolveTextureOutputIDs pass) 1) ex3 = Inr (dsResolve, dev', ex4)"
      and inp: "acquireInputTextures graph (resolveTextureInputIDs pass) 0
                (resolveTextureInputTextures pass)
                (clearDone ?i1 ds (clearDone ?i0 c0 ex4)) = Inr (textures, ex6)"
      and r1: "releaseRenderTargets (renderTargetIDs pass) ex6 = Inr ex7"
      and r2: "releaseResolveTextureInputs (resolveTextureInputIDs pass) ex7 = Inr ex'"
      and p': "pass' = pass\<lparr>descriptor :=
                \<lparr> colorAttachment = map_option rt_attachment c0,
                  colorResolveTo = colorResolve,
                  depthStencilAttachment = map_option rt_attachment ds,
                  depthStencilResolveTo = dsResolve,
                  colorClearColor = colorClear,
                  depthClearValue = depthClear,
                  stencilClearValue = stencilClear \<rparr>,
              resolveTextureInputTextures := textures\<rparr>"
    by (rule schedulePass_Inr)
  let ?ex5 = "clearDone ?i1 ds (clearDone ?i0 c0 ex4)"
  have b1: "backedInv ex1" by (rule backedInv_acquireRenderTargetForID [OF a1 inv(1)])
  have b2: "backedInv ex2" by (rule backedInv_acquireRenderTargetForID [OF a2 b1])
  have d1: "aliveDescribed graph ex1" by (rule aliveDescribed_acquireRenderTargetForID [OF a1 inv(2)])
  have d2: "aliveDescribed graph ex2" by (rule aliveDescribed_acquireRenderTargetForID [OF a2 d1])
  have f3: "renderTargetDeadPool ex3 = renderTargetDeadPool ex2 \<and>
            renderTargetAliveForID ex3 = renderTargetAliveForID ex2"
    using o1 by (cases "doPresent pass") (auto dest: acquireResolveTextureOutputForID_frame)
  have b3: "backedInv ex3" using f3 b2 by (intro backedInv_frame [of ex3 ex2]) simp_all
  have d3: "aliveDescribed graph ex3" using f3 d2 by (simp add: aliveDescribed_def)
  have f4: "renderTargetAliveForID ex4 = renderTargetAliveForID ex2"
    using acquireResolveTextureOutputForID_frame [OF o2] f3 by simp
  have d4: "aliveDescribed graph ex4" using f4 d2 by (simp add: aliveDescribed_def)
  have al0: "\<And>j. ?i0 = Some j \<Longrightarrow> c0 \<noteq> None \<and> js_get (renderTargetAliveForID ex2) j = c0"
    using acquire_aliveAttachment(4) [OF a1] acquire_aliveAttachment(2) [OF a2] by fastforce
  have al1: "\<And>j. ?i1 = Some j \<Longrightarrow> ds \<noteq> None \<and> js_get (renderTargetAliveForID ex2) j = ds"
    using acquire_aliveAttachment(4) [OF a2] by blast
  have n0: "?i0 = None \<Longrightarrow> c0 = None" by (rule acquire_aliveAttachment(5) [OF a1])
  have n1: "?i1 = None \<Longrightarrow> ds = None" by (rule acquire_aliveAttachment(5) [OF a2])
  have al5: "js_get (renderTargetAliveForID ?ex5) j =
             map_option (\<lambda>r. if ?i0 = Some j \<or> ?i1 = Some j then r\<lparr>rt_needsClear := False\<rparr> else r)
               (js_get (renderTargetAliveForID ex2) j)" for j
  proof (cases ?i0)
    case None
    note i0 = this n0 [OF this]
    show ?thesis
    proof (cases ?i1)
      case None
      with i0 n1 [OF None] show ?thesis
        by (simp add: clearDone_alive f4 option.map_ident)
    next
      case (Some b)
      from al1 [OF Some] obtain r where "ds = Some r" "js_get (renderTargetAliveForID ex2) b = Some r"
        by (cases ds) auto
      with i0 Some show ?thesis
        by (cases "js_get (renderTargetAliveForID ex2) j") (auto simp: clearDone_alive f4)
    qed
  next
    case (Some a)
    from al0 [OF Some] obtain r where r: "c0 = Some r" "js_get (renderTargetAliveForID ex2) a = Some r"
      by (cases c0) auto
    show ?thesis
    proof (cases ?i1)
      case None
      with r Some n1 [OF None] show ?thesis
        by (cases "js_get (renderTargetAliveForID ex2) j") (auto simp: clearDone_alive f4)
    next
      case (Some b)
      from al1 [OF Some] obtain q where "ds = Some q" "js_get (renderTargetAliveForID ex2) b = Some q"
        by (cases ds) auto
      with r \<open>?i0 = Some a\<close> Some show ?thesis
        by (cases "js_get (renderTargetAliveForID ex2) j") (auto simp: clearDone_alive f4)
    qed
  qed
  have d5: "aliveDescribed graph ?ex5"
    unfolding aliveDescribed_def
  proof (intro allI impI)
    fix j r assume "js_get (renderTargetAliveForID ?ex5) j = Some r"
    with al5 [of j] obtain r0 where "js_get (renderTargetAliveForID ex2) j = Some r0"
      "rt_numSamples r = rt_numSamples r0"
      by (cases "js_get (renderTargetAliveForID ex2) j") (auto split: if_splits)
    with d2 show "\<exists>d. nth_opt (renderTargetDescriptions graph) j = Some d \<and>
             rt_numSamples r = desc_numSamples d"
      by (auto simp: aliveDescribed_def)
  qed
  have d6: "aliveDescribed graph ex6"
    by (rule aliveDescribed_sub [OF d5]) (rule acquireInputTextures_alive_sub [OF inp])
  have d7: "aliveDescribed graph ex7"
    by (rule aliveDescribed_sub [OF d6]) (rule releaseRenderTargets_alive_sub [OF r1])
  from releaseResolveTextureInputs_frame [OF r2] d7
  show "aliveDescribed graph ex'" by (simp add: aliveDescribed_def)
  have t2: "resolveTextureForID ex2 = resolveTextureForID ex"
    using acquireRenderTargetForID_frame [OF a1] acquireRenderTargetForID_frame [OF a2] by simp
  have tab4: "js_get (resolveTextureForID ex4) c = js_get (resolveTextureForID ex) c"
    if c: "nth_opt (resolveTextureRenderTargetIDs graph) c = Some i" "singleSampled graph i"
    for c i
  proof -
    have "js_get (resolveTextureForID ex3) c = js_get (resolveTextureForID ex2) c"
    proof (cases "doPresent pass")
      case True
      with o1 show ?thesis by simp
    next
      case False
      with o1 have "acquireResolveTextureOutputForID dev2 graph ?i0
                      (js_get (resolveTextureOutputIDs pass) 0) ex2 = Inr (colorResolve, dev3, ex3)"
        by simp
      from output_single_sampled(1) [OF this b2 d2 c] show ?thesis .
    qed
    with output_single_sampled(1) [OF o2 b3 d3 c] t2 show ?thesis by simp
  qed
  have t5: "resolveTextureForID ?ex5 = resolveTextureForID ex4"
    by (simp add: clearDone_fields)
  have t': "resolveTextureForID ex' = resolveTextureForID ex4"
    using acquireInputTextures_table [OF inp] releaseRenderTargets_frame [OF r1]
      releaseResolveTextureInputs_frame [OF r2] t5 by simp
  show "js_get (resolveTextureForID ex') c = js_get (resolveTextureForID ex) c"
    if "nth_opt (resolveTextureRenderTargetIDs graph) c = Some i" "singleSampled graph i" for c i
    using tab4 [OF that] t' by simp
  show "colorResolveTo (descriptor pass') = None"
    if i: "?i0 = Some i" and c: "js_get (resolveTextureOutputIDs pass) 0 = Some c"
      and s: "singleSampled graph i" and np: "\<not> doPresent pass" for i c
  proof -
    from o1 np have o: "acquireResolveTextureOutputForID dev2 graph (Some i) (Some c) ex2
        = Inr (colorResolve, dev3, ex3)"
      unfolding i c by simp
    then have "nth_opt (resolveTextureRenderTargetIDs graph) c = Some i"
      by (cases rule: acquireResolveTextureOutputForID_Some) simp_all
    from output_single_sampled(2) [OF o b2 d2 this s] p' show ?thesis by simp
  qed
  show "depthStencilResolveTo (descriptor pass') = None"
    if i: "?i1 = Some i" and c: "js_get (resolveTextureOutputIDs pass) 1 = Some c"
      and s: "singleSampled graph i" for i c
  proof -
    from o2 have o: "acquireResolveTextureOutputForID dev3 graph (Some i) (Some c) ex3
        = Inr (dsResolve, dev', ex4)"
      unfolding i c .
    then have "nth_opt (resolveTextureRenderTargetIDs graph) c = Some i"
      by (cases rule: acquireResolveTextureOutputForID_Some) simp_all
    from output_single_sampled(2) [OF o b3 d3 this s] p' show ?thesis by simp
  qed
  show "rt_texture rt \<noteq> None \<and> js_get (resolveTextureInputTextures pass') n = rt_texture rt"
    if n: "n < length (resolveTextureInputIDs pass)"
      and c: "nth_opt (resolveTextureRenderTargetIDs graph) (resolveTextureInputIDs pass ! n) = Some i"
      and s: "singleSampled graph i"
      and none: "js_get (resolveTextureForID ex) (resolveTextureInputIDs pass ! n) = None"
      and al: "js_get (renderTargetAliveForID ex) i = Some rt" for n i rt
  proof -
    from tab4 [OF c s] none t5
    have "js_get (resolveTextureForID ?ex5) (resolveTextureInputIDs pass ! n) = None" by simp
    with acquireInputTextures_direct [OF inp] n obtain i' rt' t where
      i': "nth_opt (resolveTextureRenderTargetIDs graph) (resolveTextureInputIDs pass ! n) = Some i'"
      and rt': "js_get (renderTargetAliveForID ?ex5) i' = Some rt'" "rt_texture rt' = Some t"
      and t: "js_get textures (0 + n) = Some t"
      by blast
    from i' c have "i' = i" by simp
    from acquire_aliveAttachment(2) [OF a2 acquire_aliveAttachment(2) [OF a1 al]]
    have "js_get (renderTargetAliveForID ex2) i = Some rt" .
    with al5 [of i] rt'(1) \<open>i' = i\<close> have "rt_texture rt' = rt_texture rt"
      by (auto split: if_splits)
    with rt'(2) t p' show ?thesis by simp
  qed
qed

lemma backedInv_schedulePasses:
  assumes "schedulePasses dev graph ps presentColorTexture ex = Inr (ps', dev', ex')"
    "backedInv ex" "aliveDescribed graph ex"
  shows "backedInv ex' \<and> aliveDescribed graph ex'"
  using assms
proof (induction ps arbitrary: dev ex ps')
  case Nil
  then show ?case by simp
next
  case (Cons p ps)
  from Cons.prems(1) obtain p' dev1 ex1 ps1 where
    a: "schedulePass dev graph p presentColorTexture ex = Inr (p', dev1, ex1)"
    and b: "schedulePasses dev1 graph ps presentColorTexture ex1 = Inr (ps1, dev', ex')"
    by (auto simp: bind_err_Inr_iff)
  from Cons.IH [OF b backedInv_schedulePass [OF a Cons.prems(2)]
      single_sampled_schedulePass(1) [OF a Cons.prems(2,3)]]
  show ?case .
qed

lemma backedInv_scheduleGraph:
  assumes "scheduleGraph dev graph presentColorTexture ex = Inr (graph1, dev1, ex1)"
    "backedInv ex" "aliveDescribed graph ex"
  shows "backedInv ex1"
proof -
  from assms(1) obtain ps dev0 ex0 where
    run: "schedulePasses dev graph (passes graph) presentColorTexture
       (countPasses graph (passes graph) (fillUseCounts graph (agePools ex)))
     = Inr (ps, dev0, ex0)"
    and e: "ex1 = (snd (sweepPools dev0 ex0))\<lparr>renderTargetUseCount := [], resolveTextureUseCount := []\<rparr>"
    by (rule scheduleGraph_Inr)
  let ?ex = "countPasses graph (passes graph) (fillUseCounts graph (agePools ex))"
  from assms(2) have "backedInv ?ex"
    by (auto simp: backedInv_def countPasses_others fillUseCounts_def agePools_def)
  moreover from assms(3) have "aliveDescribed graph ?ex"
    by (auto simp: aliveDescribed_def countPasses_others fillUseCounts_def agePools_def)
  ultimately have "backedInv ex0" using backedInv_schedulePasses [OF run] by blast
  then show ?thesis
    by (simp add: e backedInv_def sweepPools_def case_prod_unfold sweepRenderTargets_pool)
qed



lemma schedulePass_table_kept:
  assumes run: "schedulePass dev graph pass presentColorTexture ex = Inr (pass', dev', ex')"
    and r: "js_get (resolveTextureForID ex) c = Some r"
  shows "js_get (resolveTextureForID ex') c = Some r"
proof -
  let ?i0 = "js_get (renderTargetIDs pass) 0" and ?i1 = "js_get (renderTargetIDs pass) 1"
  from run obtain c0 dev1 ex1 ds dev2 ex2 colorResolve dev3 ex3 dsResolve ex4 textures ex6 ex7
    where a1: "acquireRenderTargetForID dev graph ?i0 ex = Inr (c0, dev1, ex1)"
      and a2: "acquireRenderTargetForID dev1 graph ?i1 ex1 = Inr (ds, dev2, ex2)"
      and o1: "(if doPresent pass then Inr (presentColorTexture, dev2, ex2)
               else acquireResolveTextureOutputForID dev2 graph ?i0
                      (js_get (resolveTextureOutputIDs pass) 0) ex2) = Inr (colorResolve, dev3, ex3)"
      and o2: "acquireResolveTextureOutputForID dev3 graph ?i1
                 (js_get (resolveTextureOutputIDs pass) 1) ex3 = Inr (dsResolve, dev', ex4)"
      and inp: "acquireInputTextures graph (resolveTextureInputIDs pass) 0
                (resolveTextureInputTextures pass)
                (clearDone ?i1 ds (clearDone ?i0 c0 ex4)) = Inr (textures, ex6)"
      and r1: "releaseRenderTargets (renderTargetIDs pass) ex6 = Inr ex7"
      and r2: "releaseResolveTextureInputs (resolveTextureInputIDs pass) ex7 = Inr ex'"
    by (rule schedulePass_Inr)
  have t2: "js_get (resolveTextureForID ex2) c = Some r"
    using acquireRenderTargetForID_frame [OF a1] acquireRenderTargetForID_frame [OF a2] r by simp
  have t3: "js_get (resolveTextureForID ex3) c = Some r"
  proof (cases "doPresent pass")
    case True
    with o1 t2 show ?thesis by simp
  next
    case False
    with o1 have "acquireResolveTextureOutputForID dev2 graph ?i0
                      (js_get (resolveTextureOutputIDs pass) 0) ex2 = Inr (colorResolve, dev3, ex3)"
      by simp
    from acquireResolveTextureOutputForID_table [OF this t2] show ?thesis .
  qed
  have t4: "js_get (resolveTextureForID ex4) c = Some r"
    by (rule acquireResolveTextureOutputForID_table [OF o2 t3])
  have "resolveTextureForID ex' = resolveTextureForID ex4"
    using acquireInputTextures_table [OF inp] releaseRenderTargets_frame [OF r1]
      releaseResolveTextureInputs_frame [OF r2]
    by (simp add: clearDone_fields)
  with t4 show ?thesis by simp
qed

lemma schedulePasses_lookup:
  assumes "schedulePasses dev graph ps presentColorTexture ex = Inr (ps', dev', ex')"
    and "js_get (resolveTextureForID ex) c = Some r"
  shows "js_get (resolveTextureForID ex') c = Some r \<and> length ps' = length ps \<and>
    (\<forall>k<length ps. c \<in> set (resolveTextureInputIDs (ps ! k)) \<longrightarrow>
       (\<forall>exq. getResolveTextureForID (exq\<lparr>ex_currentGraphPass := Some (ps' ! k)\<rparr>) c
              = Inr (res_texture r)))"
  using assms
proof (induction ps arbitrary: dev ex ps')
  case Nil
  then show ?case by auto
next
  case (Cons p ps)
  from Cons.prems(1) obtain p' dev1 ex1 ps1 where
    a: "schedulePass dev graph p presentColorTexture ex = Inr (p', dev1, ex1)"
    and b: "schedulePasses dev1 graph ps presentColorTexture ex1 = Inr (ps1, dev', ex')"
    and ps': "ps' = p' # ps1"
    by (auto simp: bind_err_Inr_iff)
  note t1 = schedulePass_table_kept [OF a Cons.prems(2)]
  note ih = Cons.IH [OF b t1]
  have "getResolveTextureForID (exq\<lparr>ex_currentGraphPass := Some (ps' ! k)\<rparr>) c
          = Inr (res_texture r)"
    if k: "k < length (p # ps)" and c: "c \<in> set (resolveTextureInputIDs ((p # ps) ! k))"
    for k exq
  proof (cases k)
    case 0
    with c have "c \<in> set (resolveTextureInputIDs p)" by simp
    from schedulePass_lookup(2) [OF a this Cons.prems(2)] 0 show ?thesis by (simp add: ps')
  next
    case (Suc m)
    with k c ih show ?thesis by (simp add: ps')
  qed
  with ih show ?case by (simp add: ps')
qed

lemma scheduleGraph_table:
  assumes "scheduleGraph dev graph presentColorTexture ex = Inr (graph1, dev1, ex1)"
  obtains dev0 ex0 where
    "schedulePasses dev graph (passes graph) presentColorTexture
       (countPasses graph (passes graph) (fillUseCounts graph (agePools ex)))
     = Inr (passes graph1, dev0, ex0)"
    "resolveTextureForID (countPasses graph (passes graph) (fillUseCounts graph (agePools ex)))
     = resolveTextureForID ex"
    "resolveTextureForID ex1 = resolveTextureForID ex0"
proof -
  let ?ex = "countPasses graph (passes graph) (fillUseCounts graph (agePools ex))"
  from assms obtain ps dev0 ex0 where
    run: "schedulePasses dev graph (passes graph) presentColorTexture ?ex = Inr (ps, dev0, ex0)"
    and g: "graph1 = graph\<lparr>passes := ps\<rparr>"
    and e: "ex1 = (snd (sweepPools dev0 ex0))\<lparr>renderTargetUseCount := [], resolveTextureUseCount := []\<rparr>"
    by (rule scheduleGraph_Inr)
  have t: "resolveTextureForID ?ex = resolveTextureForID ex"
    by (simp add: countPasses_others fillUseCounts_def agePools_def)
  have t1: "resolveTextureForID ex1 = resolveTextureForID ex0"
    by (simp add: e sweepPools_def case_prod_unfold)
  show thesis
  proof (rule that [of dev0 ex0])
    show "schedulePasses dev graph (passes graph) presentColorTexture ?ex
          = Inr (passes graph1, dev0, ex0)"
      using run g by simp
    show "resolveTextureForID ?ex = resolveTextureForID ex" by (rule t)
    show "resolveTextureForID ex1 = resolveTextureForID ex0" by (rule t1)
  qed
qed

text \<open>
  Execution: a pass is executed exactly when no pass is current and its callback, run on
  the lookup of the scope in which the pass is the current one, does not fail.
\<close>

lemma execPass_Inr_iff:
  "execPass dev pass ex = Inr (dev2, ex2) \<longleftrightarrow>
     ex_currentGraphPass ex = None \<and>
     (\<forall>f. func pass = Some f \<longrightarrow>
          f (getResolveTextureForID (ex\<lparr>ex_currentGraphPass := Some pass\<rparr>)) = Inr ()) \<and>
     dev2 = submitPass dev (descriptor pass) \<and> ex2 = ex"
proof (cases "func pass")
  case None
  then show ?thesis
    by (cases "ex_currentGraphPass ex") (auto simp: execPass_def bind_err_Inr_iff Let_def)
next
  case (Some f)
  then show ?thesis
    by (cases "ex_currentGraphPass ex") (auto simp: execPass_def bind_err_Inr_iff Let_def)
qed

lemma execPasses_Inr_iff:
  "execPasses dev ps ex = Inr (dev2, ex2) \<longleftrightarrow>
     (ps \<noteq> [] \<longrightarrow> ex_currentGraphPass ex = None) \<and>
     (\<forall>k<length ps. \<forall>f. func (ps ! k) = Some f \<longrightarrow>
          f (getResolveTextureForID (ex\<lparr>ex_currentGraphPass := Some (ps ! k)\<rparr>)) = Inr ()) \<and>
     dev2 = fold (\<lambda>p d. submitPass d (descriptor p)) ps dev \<and> ex2 = ex"
proof (induction ps arbitrary: dev)
  case Nil
  then show ?case by auto
next
  case (Cons p ps)
  have "execPasses dev (p # ps) ex = Inr (dev2, ex2) \<longleftrightarrow>
        (\<exists>d1 e1. execPass dev p ex = Inr (d1, e1) \<and> execPasses d1 ps e1 = Inr (dev2, ex2))"
    by (auto simp: bind_err_Inr_iff)
  also have "\<dots> \<longleftrightarrow> ex_currentGraphPass ex = None \<and>
     (\<forall>f. func p = Some f \<longrightarrow>
          f (getResolveTextureForID (ex\<lparr>ex_currentGraphPass := Some p\<rparr>)) = Inr ()) \<and>
     execPasses (submitPass dev (descriptor p)) ps ex = Inr (dev2, ex2)"
    by (auto simp: execPass_Inr_iff)
  also have "\<dots> \<longleftrightarrow> ex_currentGraphPass ex = None \<and>
     (\<forall>f. func p = Some f \<longrightarrow>
          f (getResolveTextureForID (ex\<lparr>ex_currentGraphPass := Some p\<rparr>)) = Inr ()) \<and>
     (\<forall>k<length ps. \<forall>f. func (ps ! k) = Some f \<longrightarrow>
          f (getResolveTextureForID (ex\<lparr>ex_currentGraphPass := Some (ps ! k)\<rparr>)) = Inr ()) \<and>
     dev2 = fold (\<lambda>p d. submitPass d (descriptor p)) (p # ps) dev \<and> ex2 = ex"
    unfolding Cons.IH by auto
  also have "\<dots> \<longleftrightarrow> (p # ps \<noteq> [] \<longrightarrow> ex_currentGraphPass ex = None) \<and>
     (\<forall>k<length (p # ps). \<forall>f. func ((p # ps) ! k) = Some f \<longrightarrow>
          f (getResolveTextureForID (ex\<lparr>ex_currentGraphPass := Some ((p # ps) ! k)\<rparr>)) = Inr ()) \<and>
     dev2 = fold (\<lambda>p d. submitPass d (descriptor p)) (p # ps) dev \<and> ex2 = ex"
    by (auto simp: All_less_Suc2)
  finally show ?case .
qed

text \<open>
  A copy made by a pass is recorded in the table: a resolve target that the pass gets for a
  requested copy-output is the texture of the table's entry for the copy id after the pass.
\<close>

lemma output_recorded:
  assumes "acquireResolveTextureOutputForID dev graph src (Some c) ex = Inr (Some t, dev', ex')"
  shows "\<exists>r. js_get (resolveTextureForID ex') c = Some r \<and> res_texture r = t"
  using assms
proof (cases rule: acquireResolveTextureOutputForID_Some)
  case (textured i renderTarget)
  then show ?thesis by simp
next
  case (reused i renderTarget r)
  then show ?thesis by simp
next
  case (acquired i renderTarget desc r ex0)
  then show ?thesis by (simp add: js_get_js_set)
qed

lemma schedulePass_copy_made:
  assumes run: "schedulePass dev graph pass presentColorTexture ex = Inr (pass', dev', ex')"
    and out: "js_get (resolveTextureOutputIDs pass) (slotIndex slot) = Some c"
    and np: "slot = Color0 \<longrightarrow> \<not> doPresent pass"
    and t: "resolveAt slot (descriptor pass') = Some t"
  shows "\<exists>r. js_get (resolveTextureForID ex') c = Some r \<and> res_texture r = t"
proof -
  let ?i0 = "js_get (renderTargetIDs pass) 0" and ?i1 = "js_get (renderTargetIDs pass) 1"
  from run obtain c0 dev1 ex1 colorClear ds dev2 ex2 depthClear stencilClear colorResolve dev3 ex3
    dsResolve ex4 textures ex6 ex7
    where o1: "(if doPresent pass then Inr (presentColorTexture, dev2, ex2)
               else acquireResolveTextureOutputForID dev2 graph ?i0
                      (js_get (resolveTextureOutputIDs pass) 0) ex2) = Inr (colorResolve, dev3, ex3)"
      and o2: "acquireResolveTextureOutputForID dev3 graph ?i1
                 (js_get (resolveTextureOutputIDs pass) 1) ex3 = Inr (dsResolve, dev', ex4)"
      and inp: "acquireInputTextures graph (resolveTextureInputIDs pass) 0
                (resolveTextureInputTextures pass)
                (clearDone ?i1 ds (clearDone ?i0 c0 ex4)) = Inr (textures, ex6)"
      and r1: "releaseRenderTargets (renderTargetIDs pass) ex6 = Inr ex7"
      and r2: "releaseResolveTextureInputs (resolveTextureInputIDs pass) ex7 = Inr ex'"
      and p': "pass' = pass\<lparr>descriptor :=
                \<lparr> colorAttachment = map_option rt_attachment c0,
                  colorResolveTo = colorResolve,
                  depthStencilAttachment = map_option rt_attachment ds,
                  depthStencilResolveTo = dsResolve,
                  colorClearColor = colorClear,
                  depthClearValue = depthClear,
                  stencilClearValue = stencilClear \<rparr>,
              resolveTextureInputTextures := textures\<rparr>"
    by (rule schedulePass_Inr)
  have t': "resolveTextureForID ex' = resolveTextureForID ex4"
    using acquireInputTextures_table [OF inp] releaseRenderTargets_frame [OF r1]
      releaseResolveTextureInputs_frame [OF r2]
    by (simp add: clearDone_fields)
  have "\<exists>r. js_get (resolveTextureForID ex4) c = Some r \<and> res_texture r = t"
  proof (cases slot)
    case Color0
    with np o1 out t p' have "acquireResolveTextureOutputForID dev2 graph ?i0 (Some c) ex2
        = Inr (Some t, dev3, ex3)"
      by simp
    from output_recorded [OF this] obtain r where
      r: "js_get (resolveTextureForID ex3) c = Some r" "res_texture r = t" by blast
    from acquireResolveTextureOutputForID_table [OF o2 r(1)] r(2) show ?thesis by blast
  next
    case DepthStencil
    with out have "js_get (resolveTextureOutputIDs pass) 1 = Some c" by simp
    with o2 t p' DepthStencil
    have "acquireResolveTextureOutputForID dev3 graph ?i1 (Some c) ex3 = Inr (Some t, dev', ex4)"
      by simp
    from output_recorded [OF this] show ?thesis .
  qed
  with t' show ?thesis by simp
qed

text \<open>
  The lookup of an input in a scheduled pass returns the texture of the table's entry for
  the copy id after the pass.
\<close>

lemma schedulePass_lookup_after:
  assumes run: "schedulePass dev graph pass presentColorTexture ex = Inr (pass', dev', ex')"
    and c: "c \<in> set (resolveTextureInputIDs pass)"
    and r: "js_get (resolveTextureForID ex') c = Some r"
  shows "getResolveTextureForID (exq\<lparr>ex_currentGraphPass := Some pass'\<rparr>) c = Inr (res_texture r)"
proof -
  let ?i0 = "js_get (renderTargetIDs pass) 0" and ?i1 = "js_get (renderTargetIDs pass) 1"
  from run obtain c0 dev1 ex1 colorClear ds dev2 ex2 depthClear stencilClear colorResolve dev3 ex3
    dsResolve ex4 textures ex6 ex7
    where inp: "acquireInputTextures graph (resolveTextureInputIDs pass) 0
                (resolveTextureInputTextures pass)
                (clearDone ?i1 ds (clearDone ?i0 c0 ex4)) = Inr (textures, ex6)"
      and r1: "releaseRenderTargets (renderTargetIDs pass) ex6 = Inr ex7"
      and r2: "releaseResolveTextureInputs (resolveTextureInputIDs pass) ex7 = Inr ex'"
      and p': "pass' = pass\<lparr>descriptor :=
                \<lparr> colorAttachment = map_option rt_attachment c0,
                  colorResolveTo = colorResolve,
                  depthStencilAttachment = map_option rt_attachment ds,
                  depthStencilResolveTo = dsResolve,
                  colorClearColor = colorClear,
                  depthClearValue = depthClear,
                  stencilClearValue = stencilClear \<rparr>,
              resolveTextureInputTextures := textures\<rparr>"
    by (rule schedulePass_Inr)
  let ?ex5 = "clearDone ?i1 ds (clearDone ?i0 c0 ex4)"
  have "resolveTextureForID ex' = resolveTextureForID ?ex5"
    using acquireInputTextures_table [OF inp] releaseRenderTargets_frame [OF r1]
      releaseResolveTextureInputs_frame [OF r2]
    by simp
  with r have t5: "js_get (resolveTextureForID ?ex5) c = Some r" by simp
  from c obtain n where n: "indexOf (resolveTextureInputIDs pass) c = Some n"
    using indexOf_None_iff [of "resolveTextureInputIDs pass" c] by auto
  from indexOf_Some [OF n] have "n < length (resolveTextureInputIDs pass)"
    "resolveTextureInputIDs pass ! n = c"
    by simp_all
  with acquireInputTextures_textures [OF inp] t5
  have "js_get textures (0 + n) = Some (res_texture r)" by blast
  then show ?thesis
    by (simp add: getResolveTextureForID_def p' n)
qed

text \<open>
  Through the hand-out loop: the copy that pass \<open>j\<close> made for copy id \<open>c\<close> is what the
  lookup of \<open>c\<close> returns in pass \<open>j\<close> and in every later pass that has \<open>c\<close> among its
  inputs, and the table still holds it after the last pass.
\<close>

lemma schedulePasses_producer_consumer:
  assumes "schedulePasses dev graph ps presentColorTexture ex = Inr (ps', dev', ex')"
    and "j < length ps"
    and "js_get (resolveTextureOutputIDs (ps ! j)) (slotIndex slot) = Some c"
    and "slot = Color0 \<longrightarrow> \<not> doPresent (ps ! j)"
    and "resolveAt slot (descriptor (ps' ! j)) = Some t"
  shows "(\<exists>r. js_get (resolveTextureForID ex') c = Some r \<and> res_texture r = t) \<and>
    (\<forall>k<length ps. j \<le> k \<and> c \<in> set (resolveTextureInputIDs (ps ! k)) \<longrightarrow>
       (\<forall>exq. getResolveTextureForID (exq\<lparr>ex_currentGraphPass := Some (ps' ! k)\<rparr>) c = Inr t))"
  using assms
proof (induction ps arbitrary: dev ex ps' j)
  case Nil
  then show ?case by simp
next
  case (Cons p ps)
  from Cons.prems(1) obtain p' dev1 ex1 ps1 where
    a: "schedulePass dev graph p presentColorTexture ex = Inr (p', dev1, ex1)"
    and b: "schedulePasses dev1 graph ps presentColorTexture ex1 = Inr (ps1, dev', ex')"
    and ps': "ps' = p' # ps1"
    by (auto simp: bind_err_Inr_iff)
  show ?case
  proof (cases j)
    case 0
    with Cons.prems(3,4,5) ps' have
      "js_get (resolveTextureOutputIDs p) (slotIndex slot) = Some c"
      "slot = Color0 \<longrightarrow> \<not> doPresent p" "resolveAt slot (descriptor p') = Some t"
      by simp_all
    from schedulePass_copy_made [OF a this] obtain r where
      r: "js_get (resolveTextureForID ex1) c = Some r" "res_texture r = t" by blast
    note tail = schedulePasses_lookup [OF b r(1)]
    have "getResolveTextureForID (exq\<lparr>ex_currentGraphPass := Some (ps' ! k)\<rparr>) c = Inr t"
      if k: "k < length (p # ps)" and c: "c \<in> set (resolveTextureInputIDs ((p # ps) ! k))"
      for k exq
    proof (cases k)
      case 0
      with c have "c \<in> set (resolveTextureInputIDs p)" by simp
      from schedulePass_lookup_after [OF a this r(1)] r(2) 0 show ?thesis by (simp add: ps')
    next
      case (Suc m)
      with k c tail r(2) show ?thesis by (simp add: ps')
    qed
    with tail r(2) show ?thesis by blast
  next
    case (Suc j')
    with Cons.prems(2,3,4,5) ps' have "j' < length ps"
      "js_get (resolveTextureOutputIDs (ps ! j')) (slotIndex slot) = Some c"
      "slot = Color0 \<longrightarrow> \<not> doPresent (ps ! j')"
      "resolveAt slot (descriptor (ps1 ! j')) = Some t"
      by simp_all
    note ih = Cons.IH [OF b this]
    have "getResolveTextureForID (exq\<lparr>ex_currentGraphPass := Some (ps' ! k)\<rparr>) c = Inr t"
      if k: "k < length (p # ps)" "j \<le> k"
        and c: "c \<in> set (resolveTextureInputIDs ((p # ps) ! k))"
      for k exq
    proof -
      from k(2) Suc obtain m where m: "k = Suc m" "j' \<le> m" by (cases k) auto
      with k c ih show ?thesis by (simp add: ps')
    qed
    with ih show ?thesis by blast
  qed
qed

lemma schedulePasses_length:
  assumes "schedulePasses dev graph ps presentColorTexture ex = Inr (ps', dev', ex')"
  shows "length ps' = length ps"
  using assms
proof (induction ps arbitrary: dev ex ps')
  case Nil
  then show ?case by auto
next
  case (Cons p ps)
  from Cons.prems obtain p' dev1 ex1 ps1 where
    b: "schedulePasses dev1 graph ps presentColorTexture ex1 = Inr (ps1, dev', ex')"
    and ps': "ps' = p' # ps1"
    by (auto simp: bind_err_Inr_iff)
  from Cons.IH [OF b] ps' show ?case by simp
qed

text \<open>
  C10: the release that brings a copy's use-count to zero appends its resolve texture to
  the dead pool and leaves the per-copy-id table as it is. A pass keeps every entry that
  the table has, for any copy id, and the lookup of an input in the scheduled pass returns
  the texture of the table's entry for it. So through the hand-out loop an entry stays to
  the end, and the copy that a pass made for a copy id is what the lookup returns in that
  pass and every later pass that has the id among its inputs, also after the count has
  come to zero. Passes are executed exactly when each callback, run on the lookup of the
  scope of its pass, succeeds, and execution leaves the executor as it is. \<^verbatim>\<open>execGraph\<close>
  schedules, executes the scheduled passes on the executor that scheduling left, table
  included, and empties the table after that.
\<close>

theorem resolve_texture_kept_for_scope:
  "(\<forall>c ex ex1 r.
      releaseResolveTextureInputForID c ex = Inr ex1 \<and>
      js_get (resolveTextureUseCount ex) c = Some 1 \<and>
      js_get (resolveTextureForID ex) c = Some r \<longrightarrow>
        js_get (resolveTextureUseCount ex1) c = Some 0 \<and>
        resolveTextureDeadPool ex1 = resolveTextureDeadPool ex @ [r] \<and>
        resolveTextureForID ex1 = resolveTextureForID ex) \<and>
   (\<forall>dev graph pass presentColorTexture ex pass' dev' ex'.
      schedulePass dev graph pass presentColorTexture ex = Inr (pass', dev', ex') \<longrightarrow>
        (\<forall>c r. js_get (resolveTextureForID ex) c = Some r \<longrightarrow>
           js_get (resolveTextureForID ex') c = Some r) \<and>
        (\<forall>c r. c \<in> set (resolveTextureInputIDs pass) \<and>
           js_get (resolveTextureForID ex') c = Some r \<longrightarrow>
           (\<forall>exq. getResolveTextureForID (exq\<lparr>ex_currentGraphPass := Some pass'\<rparr>) c
                  = Inr (res_texture r))) \<and>
        (\<forall>c r. c \<in> set (resolveTextureInputIDs pass) \<and>
           js_get (resolveTextureForID ex) c = Some r \<and>
           js_get (resolveTextureUseCount ex') c = Some 0 \<longrightarrow>
           r \<in> set (resolveTextureDeadPool ex'))) \<and>
   (\<forall>dev graph ps presentColorTexture ex ps' dev' ex'.
      schedulePasses dev graph ps presentColorTexture ex = Inr (ps', dev', ex') \<longrightarrow>
        length ps' = length ps \<and>
        (\<forall>c r. js_get (resolveTextureForID ex) c = Some r \<longrightarrow>
           js_get (resolveTextureForID ex') c = Some r \<and>
           (\<forall>k<length ps. c \<in> set (resolveTextureInputIDs (ps ! k)) \<longrightarrow>
              (\<forall>exq. getResolveTextureForID (exq\<lparr>ex_currentGraphPass := Some (ps' ! k)\<rparr>) c
                     = Inr (res_texture r)))) \<and>
        (\<forall>j slot c t. j < length ps \<and>
           js_get (resolveTextureOutputIDs (ps ! j)) (slotIndex slot) = Some c \<and>
           (slot = Color0 \<longrightarrow> \<not> doPresent (ps ! j)) \<and>
           resolveAt slot (descriptor (ps' ! j)) = Some t \<longrightarrow>
           (\<exists>r. js_get (resolveTextureForID ex') c = Some r \<and> res_texture r = t) \<and>
           (\<forall>k<length ps. j \<le> k \<and> c \<in> set (resolveTextureInputIDs (ps ! k)) \<longrightarrow>
              (\<forall>exq. getResolveTextureForID (exq\<lparr>ex_currentGraphPass := Some (ps' ! k)\<rparr>) c
                     = Inr t)))) \<and>
   (\<forall>dev ps ex dev2 ex2.
      execPasses dev ps ex = Inr (dev2, ex2) \<longleftrightarrow>
        (ps \<noteq> [] \<longrightarrow> ex_currentGraphPass ex = None) \<and>
        (\<forall>k<length ps. \<forall>f. func (ps ! k) = Some f \<longrightarrow>
           f (getResolveTextureForID (ex\<lparr>ex_currentGraphPass := Some (ps ! k)\<rparr>)) = Inr ()) \<and>
        dev2 = fold (\<lambda>p d. submitPass d (descriptor p)) ps dev \<and> ex2 = ex) \<and>
   (\<forall>dev graph presentColorTexture ex graph3 dev3 ex3.
      execGraph dev graph presentColorTexture ex = Inr (graph3, dev3, ex3) \<longrightarrow>
        (\<exists>dev0 ex0 dev1 ex1.
           schedulePasses dev graph (passes graph) presentColorTexture
             (countPasses graph (passes graph) (fillUseCounts graph (agePools ex)))
             = Inr (passes graph3, dev0, ex0) \<and>
           scheduleGraph dev graph presentColorTexture ex = Inr (graph3, dev1, ex1) \<and>
           resolveTextureForID ex1 = resolveTextureForID ex0 \<and>
           execPasses dev1 (passes graph3) (ex1\<lparr>ex_currentGraph := Some graph3\<rparr>)
             = Inr (dev3, ex1\<lparr>ex_currentGraph := Some graph3\<rparr>) \<and>
           ex3 = ex1\<lparr>ex_currentGraph := None, resolveTextureForID := []\<rparr>) \<and>
        resolveTextureForID ex3 = [])"
proof -
  have 1: "\<forall>c ex ex1 r.
      releaseResolveTextureInputForID c ex = Inr ex1 \<and>
      js_get (resolveTextureUseCount ex) c = Some 1 \<and>
      js_get (resolveTextureForID ex) c = Some r \<longrightarrow>
        js_get (resolveTextureUseCount ex1) c = Some 0 \<and>
        resolveTextureDeadPool ex1 = resolveTextureDeadPool ex @ [r] \<and>
        resolveTextureForID ex1 = resolveTextureForID ex"
  proof (intro allI, rule impI, elim conjE)
    fix c ex ex1 r
    assume a: "releaseResolveTextureInputForID c ex = Inr ex1"
      and u: "js_get (resolveTextureUseCount ex) c = Some 1"
      and t: "js_get (resolveTextureForID ex) c = Some r"
    from a obtain n where n: "js_get (resolveTextureUseCount ex) c = Some (Suc n)"
      and e: "ex1 = ex\<lparr>resolveTextureUseCount := (resolveTextureUseCount ex)[c := Some n],
                    resolveTextureDeadPool := resolveTextureDeadPool ex @
                      (if n = 0 then (case js_get (resolveTextureForID ex) c of
                                        None \<Rightarrow> [] | Some r \<Rightarrow> [r]) else [])\<rparr>"
      by (rule releaseResolveTextureInputForID_Inr)
    from n u have "n = 0" by simp
    with e t js_get_Some_length [OF n]
    show "js_get (resolveTextureUseCount ex1) c = Some 0 \<and>
      resolveTextureDeadPool ex1 = resolveTextureDeadPool ex @ [r] \<and>
      resolveTextureForID ex1 = resolveTextureForID ex"
      by (simp add: js_get_list_update)
  qed
  have 2: "\<forall>dev graph pass presentColorTexture ex pass' dev' ex'.
      schedulePass dev graph pass presentColorTexture ex = Inr (pass', dev', ex') \<longrightarrow>
        (\<forall>c r. js_get (resolveTextureForID ex) c = Some r \<longrightarrow>
           js_get (resolveTextureForID ex') c = Some r) \<and>
        (\<forall>c r. c \<in> set (resolveTextureInputIDs pass) \<and>
           js_get (resolveTextureForID ex') c = Some r \<longrightarrow>
           (\<forall>exq. getResolveTextureForID (exq\<lparr>ex_currentGraphPass := Some pass'\<rparr>) c
                  = Inr (res_texture r))) \<and>
        (\<forall>c r. c \<in> set (resolveTextureInputIDs pass) \<and>
           js_get (resolveTextureForID ex) c = Some r \<and>
           js_get (resolveTextureUseCount ex') c = Some 0 \<longrightarrow>
           r \<in> set (resolveTextureDeadPool ex'))"
  proof (intro allI, rule impI)
    fix dev graph pass presentColorTexture ex pass' dev' ex'
    assume a: "schedulePass dev graph pass presentColorTexture ex = Inr (pass', dev', ex')"
    have x: "\<forall>c r. js_get (resolveTextureForID ex) c = Some r \<longrightarrow>
           js_get (resolveTextureForID ex') c = Some r"
      using schedulePass_table_kept [OF a] by blast
    have y: "\<forall>c r. c \<in> set (resolveTextureInputIDs pass) \<and>
           js_get (resolveTextureForID ex') c = Some r \<longrightarrow>
           (\<forall>exq. getResolveTextureForID (exq\<lparr>ex_currentGraphPass := Some pass'\<rparr>) c
                  = Inr (res_texture r))"
      using schedulePass_lookup_after [OF a] by blast
    have z: "\<forall>c r. c \<in> set (resolveTextureInputIDs pass) \<and>
           js_get (resolveTextureForID ex) c = Some r \<and>
           js_get (resolveTextureUseCount ex') c = Some 0 \<longrightarrow>
           r \<in> set (resolveTextureDeadPool ex')"
      using schedulePass_pooled [OF a] by blast
    from x y z show "(\<forall>c r. js_get (resolveTextureForID ex) c = Some r \<longrightarrow>
           js_get (resolveTextureForID ex') c = Some r) \<and>
        (\<forall>c r. c \<in> set (resolveTextureInputIDs pass) \<and>
           js_get (resolveTextureForID ex') c = Some r \<longrightarrow>
           (\<forall>exq. getResolveTextureForID (exq\<lparr>ex_currentGraphPass := Some pass'\<rparr>) c
                  = Inr (res_texture r))) \<and>
        (\<forall>c r. c \<in> set (resolveTextureInputIDs pass) \<and>
           js_get (resolveTextureForID ex) c = Some r \<and>
           js_get (resolveTextureUseCount ex') c = Some 0 \<longrightarrow>
           r \<in> set (resolveTextureDeadPool ex'))"
      by (intro conjI)
  qed
  have 3: "\<forall>dev graph ps presentColorTexture ex ps' dev' ex'.
      schedulePasses dev graph ps presentColorTexture ex = Inr (ps', dev', ex') \<longrightarrow>
        length ps' = length ps \<and>
        (\<forall>c r. js_get (resolveTextureForID ex) c = Some r \<longrightarrow>
           js_get (resolveTextureForID ex') c = Some r \<and>
           (\<forall>k<length ps. c \<in> set (resolveTextureInputIDs (ps ! k)) \<longrightarrow>
              (\<forall>exq. getResolveTextureForID (exq\<lparr>ex_currentGraphPass := Some (ps' ! k)\<rparr>) c
                     = Inr (res_texture r)))) \<and>
        (\<forall>j slot c t. j < length ps \<and>
           js_get (resolveTextureOutputIDs (ps ! j)) (slotIndex slot) = Some c \<and>
           (slot = Color0 \<longrightarrow> \<not> doPresent (ps ! j)) \<and>
           resolveAt slot (descriptor (ps' ! j)) = Some t \<longrightarrow>
           (\<exists>r. js_get (resolveTextureForID ex') c = Some r \<and> res_texture r = t) \<and>
           (\<forall>k<length ps. j \<le> k \<and> c \<in> set (resolveTextureInputIDs (ps ! k)) \<longrightarrow>
              (\<forall>exq. getResolveTextureForID (exq\<lparr>ex_currentGraphPass := Some (ps' ! k)\<rparr>) c
                     = Inr t)))"
  proof (intro allI, rule impI)
    fix dev graph ps presentColorTexture ex ps' dev' ex'
    assume a: "schedulePasses dev graph ps presentColorTexture ex = Inr (ps', dev', ex')"
    have x: "length ps' = length ps" by (rule schedulePasses_length [OF a])
    have y: "\<forall>c r. js_get (resolveTextureForID ex) c = Some r \<longrightarrow>
           js_get (resolveTextureForID ex') c = Some r \<and>
           (\<forall>k<length ps. c \<in> set (resolveTextureInputIDs (ps ! k)) \<longrightarrow>
              (\<forall>exq. getResolveTextureForID (exq\<lparr>ex_currentGraphPass := Some (ps' ! k)\<rparr>) c
                     = Inr (res_texture r)))"
      using schedulePasses_lookup [OF a] by blast
    have z: "\<forall>j slot c t. j < length ps \<and>
           js_get (resolveTextureOutputIDs (ps ! j)) (slotIndex slot) = Some c \<and>
           (slot = Color0 \<longrightarrow> \<not> doPresent (ps ! j)) \<and>
           resolveAt slot (descriptor (ps' ! j)) = Some t \<longrightarrow>
           (\<exists>r. js_get (resolveTextureForID ex') c = Some r \<and> res_texture r = t) \<and>
           (\<forall>k<length ps. j \<le> k \<and> c \<in> set (resolveTextureInputIDs (ps ! k)) \<longrightarrow>
              (\<forall>exq. getResolveTextureForID (exq\<lparr>ex_currentGraphPass := Some (ps' ! k)\<rparr>) c
                     = Inr t))"
    proof (intro allI, rule impI, elim conjE)
      fix j slot c t
      assume "j < length ps"
        "js_get (resolveTextureOutputIDs (ps ! j)) (slotIndex slot) = Some c"
        "slot = Color0 \<longrightarrow> \<not> doPresent (ps ! j)"
        "resolveAt slot (descriptor (ps' ! j)) = Some t"
      then show "(\<exists>r. js_get (resolveTextureForID ex') c = Some r \<and> res_texture r = t) \<and>
           (\<forall>k<length ps. j \<le> k \<and> c \<in> set (resolveTextureInputIDs (ps ! k)) \<longrightarrow>
              (\<forall>exq. getResolveTextureForID (exq\<lparr>ex_currentGraphPass := Some (ps' ! k)\<rparr>) c
                     = Inr t))"
        by (rule schedulePasses_producer_consumer [OF a])
    qed
    from x y z show "length ps' = length ps \<and>
        (\<forall>c r. js_get (resolveTextureForID ex) c = Some r \<longrightarrow>
           js_get (resolveTextureForID ex') c = Some r \<and>
           (\<forall>k<length ps. c \<in> set (resolveTextureInputIDs (ps ! k)) \<longrightarrow>
              (\<forall>exq. getResolveTextureForID (exq\<lparr>ex_currentGraphPass := Some (ps' ! k)\<rparr>) c
                     = Inr (res_texture r)))) \<and>
        (\<forall>j slot c t. j < length ps \<and>
           js_get (resolveTextureOutputIDs (ps ! j)) (slotIndex slot) = Some c \<and>
           (slot = Color0 \<longrightarrow> \<not> doPresent (ps ! j)) \<and>
           resolveAt slot (descriptor (ps' ! j)) = Some t \<longrightarrow>
           (\<exists>r. js_get (resolveTextureForID ex') c = Some r \<and> res_texture r = t) \<and>
           (\<forall>k<length ps. j \<le> k \<and> c \<in> set (resolveTextureInputIDs (ps ! k)) \<longrightarrow>
              (\<forall>exq. getResolveTextureForID (exq\<lparr>ex_currentGraphPass := Some (ps' ! k)\<rparr>) c
                     = Inr t)))"
      by (intro conjI)
  qed
  have 4: "\<forall>dev ps ex dev2 ex2.
      execPasses dev ps ex = Inr (dev2, ex2) \<longleftrightarrow>
        (ps \<noteq> [] \<longrightarrow> ex_currentGraphPass ex = None) \<and>
        (\<forall>k<length ps. \<forall>f. func (ps ! k) = Some f \<longrightarrow>
           f (getResolveTextureForID (ex\<lparr>ex_currentGraphPass := Some (ps ! k)\<rparr>)) = Inr ()) \<and>
        dev2 = fold (\<lambda>p d. submitPass d (descriptor p)) ps dev \<and> ex2 = ex"
    by (intro allI) (rule execPasses_Inr_iff)
  have 5: "\<forall>dev graph presentColorTexture ex graph3 dev3 ex3.
      execGraph dev graph presentColorTexture ex = Inr (graph3, dev3, ex3) \<longrightarrow>
        (\<exists>dev0 ex0 dev1 ex1.
           schedulePasses dev graph (passes graph) presentColorTexture
             (countPasses graph (passes graph) (fillUseCounts graph (agePools ex)))
             = Inr (passes graph3, dev0, ex0) \<and>
           scheduleGraph dev graph presentColorTexture ex = Inr (graph3, dev1, ex1) \<and>
           resolveTextureForID ex1 = resolveTextureForID ex0 \<and>
           execPasses dev1 (passes graph3) (ex1\<lparr>ex_currentGraph := Some graph3\<rparr>)
             = Inr (dev3, ex1\<lparr>ex_currentGraph := Some graph3\<rparr>) \<and>
           ex3 = ex1\<lparr>ex_currentGraph := None, resolveTextureForID := []\<rparr>) \<and>
        resolveTextureForID ex3 = []"
  proof (intro allI, rule impI)
    fix dev graph presentColorTexture ex graph3 dev3 ex3
    assume "execGraph dev graph presentColorTexture ex = Inr (graph3, dev3, ex3)"
    then obtain dev1 ex1 where
      s: "scheduleGraph dev graph presentColorTexture ex = Inr (graph3, dev1, ex1)"
      and e: "execPasses dev1 (passes graph3) (ex1\<lparr>ex_currentGraph := Some graph3\<rparr>)
         = Inr (dev3, ex1\<lparr>ex_currentGraph := Some graph3\<rparr>)"
      and x: "ex3 = ex1\<lparr>ex_currentGraph := None, resolveTextureForID := []\<rparr>"
      by (rule execGraph_Inr)
    from s obtain dev0 ex0 where
      h: "schedulePasses dev graph (passes graph) presentColorTexture
       (countPasses graph (passes graph) (fillUseCounts graph (agePools ex)))
       = Inr (passes graph3, dev0, ex0)"
      and t: "resolveTextureForID ex1 = resolveTextureForID ex0"
      by (rule scheduleGraph_table)
    from x have "resolveTextureForID ex3 = []" by simp
    with h s t e x show "(\<exists>dev0 ex0 dev1 ex1.
           schedulePasses dev graph (passes graph) presentColorTexture
             (countPasses graph (passes graph) (fillUseCounts graph (agePools ex)))
             = Inr (passes graph3, dev0, ex0) \<and>
           scheduleGraph dev graph presentColorTexture ex = Inr (graph3, dev1, ex1) \<and>
           resolveTextureForID ex1 = resolveTextureForID ex0 \<and>
           execPasses dev1 (passes graph3) (ex1\<lparr>ex_currentGraph := Some graph3\<rparr>)
             = Inr (dev3, ex1\<lparr>ex_currentGraph := Some graph3\<rparr>) \<and>
           ex3 = ex1\<lparr>ex_currentGraph := None, resolveTextureForID := []\<rparr>) \<and>
        resolveTextureForID ex3 = []"
      by blast
  qed
  show ?thesis by (rule conjI [OF 1 conjI [OF 2 conjI [OF 3 conjI [OF 4 5]]]])
qed

theorem resolve_texture_kept_for_scope_witness:
  "(\<exists>ex1 r. releaseResolveTextureInputForID 0 copyExecutor = Inr ex1 \<and>
      js_get (resolveTextureUseCount copyExecutor) 0 = Some 1 \<and>
      js_get (resolveTextureForID copyExecutor) 0 = Some r \<and>
      js_get (resolveTextureUseCount ex1) 0 = Some 0 \<and>
      resolveTextureDeadPool ex1 = [r] \<and>
      resolveTextureForID ex1 = resolveTextureForID copyExecutor) \<and>
   (\<exists>p0 d1 e1 p1 d2 e2 r.
      schedulePass device0 (scenarioGraph 4) (passes (scenarioGraph 4) ! 0) (Some 0)
        (countedExecutor (scenarioGraph 4)) = Inr (p0, d1, e1) \<and>
      schedulePass d1 (scenarioGraph 4) (passes (scenarioGraph 4) ! 1) (Some 0) e1
        = Inr (p1, d2, e2) \<and>
      0 \<in> set (resolveTextureInputIDs (passes (scenarioGraph 4) ! 1)) \<and>
      js_get (resolveTextureForID e1) 0 = Some r \<and>
      js_get (resolveTextureUseCount e2) 0 = Some 0 \<and>
      js_get (resolveTextureForID e2) 0 = Some r \<and>
      r \<in> set (resolveTextureDeadPool e2) \<and>
      getResolveTextureForID (newSceneGraphExecutor\<lparr>ex_currentGraphPass := Some p1\<rparr>) 0
        = Inr (res_texture r)) \<and>
   (\<exists>graph3 dev3 ex3 dev0 ex0 dev1 ex1 r f.
      execGraph device0 samplingGraph (Some 0) newSceneGraphExecutor = Inr (graph3, dev3, ex3) \<and>
      schedulePasses device0 samplingGraph (passes samplingGraph) (Some 0)
        (countedExecutor samplingGraph) = Inr (passes graph3, dev0, ex0) \<and>
      scheduleGraph device0 samplingGraph (Some 0) newSceneGraphExecutor
        = Inr (graph3, dev1, ex1) \<and>
      js_get (resolveTextureOutputIDs (passes samplingGraph ! 0)) (slotIndex Color0) = Some 0 \<and>
      resolveAt Color0 (descriptor (passes graph3 ! 0)) = Some 2 \<and>
      0 \<in> set (resolveTextureInputIDs (passes samplingGraph ! 1)) \<and>
      js_get (resolveTextureUseCount ex0) 0 = Some 0 \<and>
      js_get (resolveTextureForID ex1) 0 = Some r \<and> res_texture r = 2 \<and>
      func (passes graph3 ! 1) = Some f \<and>
      getResolveTextureForID
        (ex1\<lparr>ex_currentGraph := Some graph3, ex_currentGraphPass := Some (passes graph3 ! 1)\<rparr>) 0
        = Inr 2 \<and>
      f (getResolveTextureForID
          (ex1\<lparr>ex_currentGraph := Some graph3,
               ex_currentGraphPass := Some (passes graph3 ! 1)\<rparr>)) = Inr () \<and>
      resolveTextureForID ex3 = [])"
proof -
  note P1 = resolve_texture_kept_for_scope [THEN conjunct1, rule_format]
  note P2 = resolve_texture_kept_for_scope [THEN conjunct2, THEN conjunct1, rule_format]
  note P3 = resolve_texture_kept_for_scope
    [THEN conjunct2, THEN conjunct2, THEN conjunct1, rule_format]
  note P4 = resolve_texture_kept_for_scope
    [THEN conjunct2, THEN conjunct2, THEN conjunct2, THEN conjunct1, rule_format]
  note P5 = resolve_texture_kept_for_scope
    [THEN conjunct2, THEN conjunct2, THEN conjunct2, THEN conjunct2, rule_format]
  let ?g = "scenarioGraph 4" and ?ex = "countedExecutor (scenarioGraph 4)"
  let ?run0 = "schedulePass device0 ?g (passes ?g ! 0) (Some 0) ?ex"
  \<comment> \<open>the release that brings the count to zero\<close>
  have "\<not> isl (releaseResolveTextureInputForID 0 copyExecutor)" by code_simp
  then obtain ex1 where rel: "releaseResolveTextureInputForID 0 copyExecutor = Inr ex1"
    by (cases "releaseResolveTextureInputForID 0 copyExecutor") auto
  have u: "js_get (resolveTextureUseCount copyExecutor) 0 = Some 1" by code_simp
  have "js_get (resolveTextureForID copyExecutor) 0 \<noteq> None" by code_simp
  then obtain r0 where t0: "js_get (resolveTextureForID copyExecutor) 0 = Some r0"
    by auto
  have pool0: "resolveTextureDeadPool copyExecutor = []"
    by (simp add: copyExecutor_def newSceneGraphExecutor_def)
  from P1 [OF conjI [OF rel conjI [OF u t0]]] pool0
  have 1: "js_get (resolveTextureUseCount ex1) 0 = Some 0 \<and>
      resolveTextureDeadPool ex1 = [r0] \<and>
      resolveTextureForID ex1 = resolveTextureForID copyExecutor"
    by simp
  from rel u t0 1 have A: "\<exists>ex1 r. releaseResolveTextureInputForID 0 copyExecutor = Inr ex1 \<and>
      js_get (resolveTextureUseCount copyExecutor) 0 = Some 1 \<and>
      js_get (resolveTextureForID copyExecutor) 0 = Some r \<and>
      js_get (resolveTextureUseCount ex1) 0 = Some 0 \<and>
      resolveTextureDeadPool ex1 = [r] \<and>
      resolveTextureForID ex1 = resolveTextureForID copyExecutor"
    by blast
  \<comment> \<open>the producer and the consumer of copy 0\<close>
  have "\<not> isl ?run0" by code_simp
  then obtain p0 d1 e1 where run0: "?run0 = Inr (p0, d1, e1)"
    by (cases ?run0) auto
  have "\<not> isl (bind_err ?run0 (\<lambda>(p0, d1, e1).
      schedulePass d1 ?g (passes ?g ! 1) (Some 0) e1))"
    by code_simp
  with run0 obtain p1 d2 e2 where
    run1: "schedulePass d1 ?g (passes ?g ! 1) (Some 0) e1 = Inr (p1, d2, e2)"
    by (cases "schedulePass d1 ?g (passes ?g ! 1) (Some 0) e1") auto
  have c: "0 \<in> set (resolveTextureInputIDs (passes ?g ! 1))" by code_simp
  have "map_sum id (\<lambda>(p0, d1, e1). js_get (resolveTextureForID e1) 0 \<noteq> None) ?run0 = Inr True"
    by code_simp
  with run0 obtain r where t: "js_get (resolveTextureForID e1) 0 = Some r" by auto
  have "bind_err ?run0 (\<lambda>(p0, d1, e1).
      bind_err (schedulePass d1 ?g (passes ?g ! 1) (Some 0) e1) (\<lambda>(p1, d2, e2).
        Inr (js_get (resolveTextureUseCount e2) 0))) = Inr (Some 0)"
    by code_simp
  with run0 run1 have z: "js_get (resolveTextureUseCount e2) 0 = Some 0" by simp
  note b = P2 [OF run1]
  from b t have t2: "js_get (resolveTextureForID e2) 0 = Some r" by blast
  from b c t z have pooled: "r \<in> set (resolveTextureDeadPool e2)" by blast
  from b c t2 have look: "getResolveTextureForID
      (newSceneGraphExecutor\<lparr>ex_currentGraphPass := Some p1\<rparr>) 0 = Inr (res_texture r)"
    by blast
  from run0 run1 c t z t2 pooled look have B: "\<exists>p0 d1 e1 p1 d2 e2 r.
      schedulePass device0 (scenarioGraph 4) (passes (scenarioGraph 4) ! 0) (Some 0)
        (countedExecutor (scenarioGraph 4)) = Inr (p0, d1, e1) \<and>
      schedulePass d1 (scenarioGraph 4) (passes (scenarioGraph 4) ! 1) (Some 0) e1
        = Inr (p1, d2, e2) \<and>
      0 \<in> set (resolveTextureInputIDs (passes (scenarioGraph 4) ! 1)) \<and>
      js_get (resolveTextureForID e1) 0 = Some r \<and>
      js_get (resolveTextureUseCount e2) 0 = Some 0 \<and>
      js_get (resolveTextureForID e2) 0 = Some r \<and>
      r \<in> set (resolveTextureDeadPool e2) \<and>
      getResolveTextureForID (newSceneGraphExecutor\<lparr>ex_currentGraphPass := Some p1\<rparr>) 0
        = Inr (res_texture r)"
    by blast
  \<comment> \<open>a whole frame, with a callback that samples the copy\<close>
  let ?s = samplingGraph
  let ?loop = "schedulePasses device0 ?s (passes ?s) (Some 0) (countedExecutor ?s)"
  have "\<not> isl (execGraph device0 ?s (Some 0) newSceneGraphExecutor)" by code_simp
  then obtain graph3 dev3 ex3 where
    eg: "execGraph device0 ?s (Some 0) newSceneGraphExecutor = Inr (graph3, dev3, ex3)"
    by (cases "execGraph device0 ?s (Some 0) newSceneGraphExecutor") auto
  from P5 [OF eg] obtain dev0 ex0 dev1 ex1' where
    loop: "?loop = Inr (passes graph3, dev0, ex0)"
    and sg: "scheduleGraph device0 ?s (Some 0) newSceneGraphExecutor = Inr (graph3, dev1, ex1')"
    and tab: "resolveTextureForID ex1' = resolveTextureForID ex0"
    and ep: "execPasses dev1 (passes graph3) (ex1'\<lparr>ex_currentGraph := Some graph3\<rparr>)
             = Inr (dev3, ex1'\<lparr>ex_currentGraph := Some graph3\<rparr>)"
    and clr: "resolveTextureForID ex3 = []"
    unfolding countedExecutor_def by blast
  have o: "js_get (resolveTextureOutputIDs (passes ?s ! 0)) (slotIndex Color0) = Some 0"
    "\<not> doPresent (passes ?s ! 0)" "0 \<in> set (resolveTextureInputIDs (passes ?s ! 1))"
    "length (passes ?s) = 3"
    by code_simp+
  have "map_sum id (\<lambda>(ps, d, e). (resolveAt Color0 (descriptor (ps ! 0)),
          func (ps ! 1) \<noteq> None, js_get (resolveTextureUseCount e) 0)) ?loop
        = Inr (Some 2, True, Some 0)"
    by code_simp
  with loop obtain f where made: "resolveAt Color0 (descriptor (passes graph3 ! 0)) = Some 2"
    and f: "func (passes graph3 ! 1) = Some f"
    and zero: "js_get (resolveTextureUseCount ex0) 0 = Some 0"
    by auto
  note l = P3 [OF loop]
  from l have len: "length (passes graph3) = 3" using o(4) by simp
  have prem: "0 < length (passes ?s) \<and>
      js_get (resolveTextureOutputIDs (passes ?s ! 0)) (slotIndex Color0) = Some 0 \<and>
      (Color0 = Color0 \<longrightarrow> \<not> doPresent (passes ?s ! 0)) \<and>
      resolveAt Color0 (descriptor (passes graph3 ! 0)) = Some 2"
    using o made by simp
  from l [THEN conjunct2, THEN conjunct2, THEN spec, THEN spec, THEN spec, THEN spec, THEN mp,
      OF prem] have
    "(\<exists>r. js_get (resolveTextureForID ex0) 0 = Some r \<and> res_texture r = 2) \<and>
     (\<forall>k<length (passes ?s). 0 \<le> k \<and> 0 \<in> set (resolveTextureInputIDs (passes ?s ! k)) \<longrightarrow>
        (\<forall>exq. getResolveTextureForID (exq\<lparr>ex_currentGraphPass := Some (passes graph3 ! k)\<rparr>) 0
               = Inr 2))"
    .
  then obtain r' where r': "js_get (resolveTextureForID ex0) 0 = Some r'" "res_texture r' = 2"
    and lk: "\<forall>k<length (passes ?s). 0 \<le> k \<and> 0 \<in> set (resolveTextureInputIDs (passes ?s ! k)) \<longrightarrow>
        (\<forall>exq. getResolveTextureForID (exq\<lparr>ex_currentGraphPass := Some (passes graph3 ! k)\<rparr>) 0
               = Inr 2)"
    by blast
  from lk o(3,4) have "\<forall>exq. getResolveTextureForID
      (exq\<lparr>ex_currentGraphPass := Some (passes graph3 ! 1)\<rparr>) 0 = Inr 2"
    by simp
  then have look2: "getResolveTextureForID
      (ex1'\<lparr>ex_currentGraph := Some graph3, ex_currentGraphPass := Some (passes graph3 ! 1)\<rparr>) 0
      = Inr 2"
    by blast
  from P4 [THEN iffD1, OF ep] have
    "\<forall>k<length (passes graph3). \<forall>f. func (passes graph3 ! k) = Some f \<longrightarrow>
       f (getResolveTextureForID (ex1'\<lparr>ex_currentGraph := Some graph3,
            ex_currentGraphPass := Some (passes graph3 ! k)\<rparr>)) = Inr ()"
    by simp
  with len f have ran: "f (getResolveTextureForID
          (ex1'\<lparr>ex_currentGraph := Some graph3,
               ex_currentGraphPass := Some (passes graph3 ! 1)\<rparr>)) = Inr ()"
    by simp
  from r' tab have r1: "js_get (resolveTextureForID ex1') 0 = Some r'" by simp
  from eg loop sg o(1) made o(3) zero r1 r'(2) f look2 ran clr
  have C: "\<exists>graph3 dev3 ex3 dev0 ex0 dev1 ex1 r f.
      execGraph device0 samplingGraph (Some 0) newSceneGraphExecutor = Inr (graph3, dev3, ex3) \<and>
      schedulePasses device0 samplingGraph (passes samplingGraph) (Some 0)
        (countedExecutor samplingGraph) = Inr (passes graph3, dev0, ex0) \<and>
      scheduleGraph device0 samplingGraph (Some 0) newSceneGraphExecutor
        = Inr (graph3, dev1, ex1) \<and>
      js_get (resolveTextureOutputIDs (passes samplingGraph ! 0)) (slotIndex Color0) = Some 0 \<and>
      resolveAt Color0 (descriptor (passes graph3 ! 0)) = Some 2 \<and>
      0 \<in> set (resolveTextureInputIDs (passes samplingGraph ! 1)) \<and>
      js_get (resolveTextureUseCount ex0) 0 = Some 0 \<and>
      js_get (resolveTextureForID ex1) 0 = Some r \<and> res_texture r = 2 \<and>
      func (passes graph3 ! 1) = Some f \<and>
      getResolveTextureForID
        (ex1\<lparr>ex_currentGraph := Some graph3, ex_currentGraphPass := Some (passes graph3 ! 1)\<rparr>) 0
        = Inr 2 \<and>
      f (getResolveTextureForID
          (ex1\<lparr>ex_currentGraph := Some graph3,
               ex_currentGraphPass := Some (passes graph3 ! 1)\<rparr>)) = Inr () \<and>
      resolveTextureForID ex3 = []"
    by blast
  from A B C show ?thesis by (intro conjI)
qed

text \<open>
  Counterexample to C4 as stated (the resolve-to target of a slot on a single-sampled
  surface for which a copy-output is requested is null): the builder produces
  \<open>presentCopyGraph\<close>; its first pass binds the single-sampled surface 0 in \<open>Color0\<close>, has
  copy 0 requested for that slot and is flagged present; scheduled with presentation
  texture 0, the pass gets the presentation texture as its colour resolve target.
\<close>

theorem single_sampled_present_counterexample:
  "map_sum id fst buildPresentCopy = Inr presentCopyGraph \<and>
   singleSampled presentCopyGraph 0 \<and>
   js_get (renderTargetIDs (passes presentCopyGraph ! 0)) (slotIndex Color0) = Some 0 \<and>
   js_get (resolveTextureOutputIDs (passes presentCopyGraph ! 0)) (slotIndex Color0) = Some 0 \<and>
   map_sum id (\<lambda>(g, d, e). colorResolveTo (descriptor (passes g ! 0)))
     (scheduleGraph device0 presentCopyGraph (Some 0) newSceneGraphExecutor)
   = Inr (Some 0)"
proof -
  have "map_sum id fst buildPresentCopy = Inr presentCopyGraph"
    by (simp add: buildPresentCopy_def presentCopyGraph_def begin_graph_def end_graph_def
        createRenderTargetID_def pushPass_def resolveRenderTargetToColorTexture_def
        createResolveTextureID_def findLastPassForRenderTarget_def attachRenderTargetID_def
        attachResolveTexture_def present_def newSceneGraph_def newPass_def assert_def
        assertExists_def js_get_def js_set_def js_put_def Let_def)
  moreover have "singleSampled presentCopyGraph 0 \<and>
   js_get (renderTargetIDs (passes presentCopyGraph ! 0)) (slotIndex Color0) = Some 0 \<and>
   js_get (resolveTextureOutputIDs (passes presentCopyGraph ! 0)) (slotIndex Color0) = Some 0 \<and>
   map_sum id (\<lambda>(g, d, e). colorResolveTo (descriptor (passes g ! 0)))
     (scheduleGraph device0 presentCopyGraph (Some 0) newSceneGraphExecutor)
   = Inr (Some 0)"
    by code_simp
  ultimately show ?thesis by (rule conjI)
qed

lemma releaseResolveTextureInputs_pool_append:
  assumes "releaseResolveTextureInputs cs ex = Inr ex'"
  shows "\<exists>zs. resolveTextureDeadPool ex' = resolveTextureDeadPool ex @ zs"
  using assms
proof (induction cs arbitrary: ex)
  case Nil
  then show ?case by simp
next
  case (Cons c cs)
  from Cons.prems obtain ex1 where
    a: "releaseResolveTextureInputForID c ex = Inr ex1"
    and b: "releaseResolveTextureInputs cs ex1 = Inr ex'"
    by (auto simp: bind_err_Inr_iff)
  from a obtain n where
    "ex1 = ex\<lparr>resolveTextureUseCount := (resolveTextureUseCount ex)[c := Some n],
                    resolveTextureDeadPool := resolveTextureDeadPool ex @
                      (if n = 0 then (case js_get (resolveTextureForID ex) c of
                                        None \<Rightarrow> [] | Some r \<Rightarrow> [r]) else [])\<rparr>"
    by (rule releaseResolveTextureInputForID_Inr)
  then have "resolveTextureDeadPool ex1 = resolveTextureDeadPool ex @
                      (if n = 0 then (case js_get (resolveTextureForID ex) c of
                                        None \<Rightarrow> [] | Some r \<Rightarrow> [r]) else [])"
    by simp
  then obtain ys where ys: "resolveTextureDeadPool ex1 = resolveTextureDeadPool ex @ ys"
    by blast
  from Cons.IH [OF b] obtain zs where "resolveTextureDeadPool ex' = resolveTextureDeadPool ex1 @ zs"
    by blast
  with ys have "resolveTextureDeadPool ex' = resolveTextureDeadPool ex @ (ys @ zs)" by simp
  then show ?case by blast
qed

lemma output_nothing:
  assumes o: "acquireResolveTextureOutputForID d graph src co e = Inr (t, d', e')"
    and s: "\<forall>c. co = Some c \<longrightarrow> (\<exists>i. src = Some i \<and> singleSampled graph i)"
    and b: "backedInv e" and a: "aliveDescribed graph e"
  shows "t = None \<and> d' = d \<and> e' = e"
proof (cases co)
  case None
  with o show ?thesis by simp
next
  case (Some c)
  with s obtain i where i: "src = Some i" "singleSampled graph i" by blast
  from o [unfolded Some] have "nth_opt (resolveTextureRenderTargetIDs graph) c = src"
    by (cases rule: acquireResolveTextureOutputForID_Some) simp_all
  with i have "nth_opt (resolveTextureRenderTargetIDs graph) c = Some i" by simp
  from output_single_sampled(2) [OF o b a this i(2) Some] show ?thesis .
qed

text \<open>
  A pass all of whose copy-output requests are for single-sampled surfaces leaves the
  device as its two render-target acquisitions left it, takes nothing from the pool of
  resolve textures and leaves the per-copy-id table as it is.
\<close>

lemma single_sampled_device:
  assumes run: "schedulePass dev graph pass presentColorTexture ex = Inr (pass', dev', ex')"
    and inv: "backedInv ex" "aliveDescribed graph ex"
    and all: "\<forall>slot c. js_get (resolveTextureOutputIDs pass) (slotIndex slot) = Some c \<and>
                (slot = Color0 \<longrightarrow> \<not> doPresent pass) \<longrightarrow>
                (\<exists>i. js_get (renderTargetIDs pass) (slotIndex slot) = Some i \<and>
                     singleSampled graph i)"
  shows "(\<exists>c0 dev1 ex1 ds ex2.
            acquireRenderTargetForID dev graph
              (js_get (renderTargetIDs pass) (slotIndex Color0)) ex = Inr (c0, dev1, ex1) \<and>
            acquireRenderTargetForID dev1 graph
              (js_get (renderTargetIDs pass) (slotIndex DepthStencil)) ex1 = Inr (ds, dev', ex2)) \<and>
         resolveTextureForID ex' = resolveTextureForID ex \<and>
         (\<exists>zs. resolveTextureDeadPool ex' = resolveTextureDeadPool ex @ zs)"
proof -
  let ?i0 = "js_get (renderTargetIDs pass) 0" and ?i1 = "js_get (renderTargetIDs pass) 1"
  let ?o0 = "js_get (resolveTextureOutputIDs pass) 0"
  let ?o1 = "js_get (resolveTextureOutputIDs pass) 1"
  from run obtain c0 dev1 ex1 colorClear ds dev2 ex2 depthClear stencilClear colorResolve dev3 ex3
    dsResolve ex4 textures ex6 ex7
    where a1: "acquireRenderTargetForID dev graph ?i0 ex = Inr (c0, dev1, ex1)"
      and a2: "acquireRenderTargetForID dev1 graph ?i1 ex1 = Inr (ds, dev2, ex2)"
      and o1: "(if doPresent pass then Inr (presentColorTexture, dev2, ex2)
               else acquireResolveTextureOutputForID dev2 graph ?i0 ?o0 ex2)
               = Inr (colorResolve, dev3, ex3)"
      and o2: "acquireResolveTextureOutputForID dev3 graph ?i1 ?o1 ex3 = Inr (dsResolve, dev', ex4)"
      and inp: "acquireInputTextures graph (resolveTextureInputIDs pass) 0
                (resolveTextureInputTextures pass)
                (clearDone ?i1 ds (clearDone ?i0 c0 ex4)) = Inr (textures, ex6)"
      and r1: "releaseRenderTargets (renderTargetIDs pass) ex6 = Inr ex7"
      and r2: "releaseResolveTextureInputs (resolveTextureInputIDs pass) ex7 = Inr ex'"
    by (rule schedulePass_Inr)
  have b2: "backedInv ex2"
    by (rule backedInv_acquireRenderTargetForID [OF a2 backedInv_acquireRenderTargetForID [OF a1 inv(1)]])
  have d2: "aliveDescribed graph ex2"
    by (rule aliveDescribed_acquireRenderTargetForID
          [OF a2 aliveDescribed_acquireRenderTargetForID [OF a1 inv(2)]])
  have s0: "\<not> doPresent pass \<Longrightarrow> \<forall>c. ?o0 = Some c \<longrightarrow> (\<exists>i. ?i0 = Some i \<and> singleSampled graph i)"
    using all [THEN spec, of Color0] by simp
  have s1: "\<forall>c. ?o1 = Some c \<longrightarrow> (\<exists>i. ?i1 = Some i \<and> singleSampled graph i)"
    using all [THEN spec, of DepthStencil] by simp
  have e3: "dev3 = dev2 \<and> ex3 = ex2"
  proof (cases "doPresent pass")
    case True
    with o1 show ?thesis by simp
  next
    case False
    with o1 have "acquireResolveTextureOutputForID dev2 graph ?i0 ?o0 ex2
        = Inr (colorResolve, dev3, ex3)" by simp
    then have "colorResolve = None \<and> dev3 = dev2 \<and> ex3 = ex2"
      using s0 [OF False] b2 d2 by (rule output_nothing)
    then show ?thesis by (elim conjE) (rule conjI)
  qed
  with o2 have "acquireResolveTextureOutputForID dev2 graph ?i1 ?o1 ex2 = Inr (dsResolve, dev', ex4)"
    by simp
  then have "dsResolve = None \<and> dev' = dev2 \<and> ex4 = ex2"
    using s1 b2 d2 by (rule output_nothing)
  then have e4: "dev' = dev2" "ex4 = ex2" by blast+
  have f2: "resolveTextureForID ex2 = resolveTextureForID ex"
    "resolveTextureDeadPool ex2 = resolveTextureDeadPool ex"
    using acquireRenderTargetForID_frame [OF a1] acquireRenderTargetForID_frame [OF a2] by simp_all
  have f7: "resolveTextureForID ex7 = resolveTextureForID ex"
    "resolveTextureDeadPool ex7 = resolveTextureDeadPool ex"
    using acquireInputTextures_table [OF inp] releaseRenderTargets_frame [OF r1] f2 e4
    by (simp_all add: clearDone_fields)
  have 1: "\<exists>c0 dev1 ex1 ds ex2.
            acquireRenderTargetForID dev graph
              (js_get (renderTargetIDs pass) (slotIndex Color0)) ex = Inr (c0, dev1, ex1) \<and>
            acquireRenderTargetForID dev1 graph
              (js_get (renderTargetIDs pass) (slotIndex DepthStencil)) ex1 = Inr (ds, dev', ex2)"
    unfolding slotIndex.simps using a1 a2 e4 by blast
  have 2: "resolveTextureForID ex' = resolveTextureForID ex"
    using releaseResolveTextureInputs_frame [OF r2] f7 by simp
  have 3: "\<exists>zs. resolveTextureDeadPool ex' = resolveTextureDeadPool ex @ zs"
    using releaseResolveTextureInputs_pool_append [OF r2] f7 by simp
  from 1 2 3 show ?thesis by (intro conjI)
qed

lemma present_color_target:
  assumes "schedulePass dev graph pass presentColorTexture ex = Inr (pass', dev', ex')"
    and "doPresent pass"
  shows "colorResolveTo (descriptor pass') = presentColorTexture"
proof -
  from assms(1) obtain colorResolve dev2 ex2 dev3 ex3 where
    c: "(if doPresent pass then Inr (presentColorTexture, dev2, ex2)
         else acquireResolveTextureOutputForID dev2 graph (js_get (renderTargetIDs pass) 0)
             (js_get (resolveTextureOutputIDs pass) 0) ex2) = Inr (colorResolve, dev3, ex3)"
    and p: "colorResolveTo (descriptor pass') = colorResolve"
    by (rule schedulePass_Inr) simp
  from c assms(2) p show ?thesis by simp
qed

text \<open>
  C4, amended: a render target is texture-backed exactly when it is single-sampled
  (\<open>backedInv\<close>, which holds in a new executor and is kept by every pass and by
  \<^verbatim>\<open>scheduleGraph\<close>), and an alive render target has the sample count of its id's
  description (\<open>aliveDescribed\<close>, which holds when the alive table is empty and is kept by
  every pass). Then a request for a copy-output of a single-sampled surface returns null
  and changes neither the device nor the executor: nothing is created, nothing is taken
  from the pool of resolve textures, the table gets no entry. A pass leaves the table
  entry of every copy of a single-sampled surface as it was; when all its requests are for
  single-sampled surfaces, the device after the pass is the one its two render-target
  acquisitions left, the table is unchanged and the pool of resolve textures has only
  grown at its end. A slot that binds a single-sampled surface and asks for a copy gets no
  resolve target in the descriptor, except \<open>Color0\<close> of a pass flagged present, which gets
  the presentation texture. An input that is a copy of a single-sampled surface with no
  table entry gets the texture of the render target that is alive for the surface; and
  the use-count of every surface goes down by one for each slot bound to it and each
  input that is a copy of it.
\<close>

theorem single_sampled_surface_no_copy:
  assumes "schedulePass dev graph pass presentColorTexture ex = Inr (pass', dev', ex')"
    and "backedInv ex" and "aliveDescribed graph ex"
  shows "backedInv ex' \<and> aliveDescribed graph ex' \<and>
    (\<forall>c i. nth_opt (resolveTextureRenderTargetIDs graph) c = Some i \<and> singleSampled graph i \<longrightarrow>
       js_get (resolveTextureForID ex') c = js_get (resolveTextureForID ex) c) \<and>
    (\<forall>slot i c. js_get (renderTargetIDs pass) (slotIndex slot) = Some i \<and>
       js_get (resolveTextureOutputIDs pass) (slotIndex slot) = Some c \<and>
       singleSampled graph i \<longrightarrow>
       resolveAt slot (descriptor pass') =
         (if slot = Color0 \<and> doPresent pass then presentColorTexture else None)) \<and>
    (\<forall>n i rt. n < length (resolveTextureInputIDs pass) \<and>
       nth_opt (resolveTextureRenderTargetIDs graph) (resolveTextureInputIDs pass ! n) = Some i \<and>
       singleSampled graph i \<and>
       js_get (resolveTextureForID ex) (resolveTextureInputIDs pass ! n) = None \<and>
       js_get (renderTargetAliveForID ex) i = Some rt \<longrightarrow>
       rt_texture rt \<noteq> None \<and>
       js_get (resolveTextureInputTextures pass') n = rt_texture rt) \<and>
    (\<forall>r. released (passUses graph pass r) (js_get (renderTargetUseCount ex) r)
           (js_get (renderTargetUseCount ex') r)) \<and>
    ((\<forall>slot c. js_get (resolveTextureOutputIDs pass) (slotIndex slot) = Some c \<and>
         (slot = Color0 \<longrightarrow> \<not> doPresent pass) \<longrightarrow>
         (\<exists>i. js_get (renderTargetIDs pass) (slotIndex slot) = Some i \<and>
              singleSampled graph i)) \<longrightarrow>
       (\<exists>c0 dev1 ex1 ds ex2.
          acquireRenderTargetForID dev graph
            (js_get (renderTargetIDs pass) (slotIndex Color0)) ex = Inr (c0, dev1, ex1) \<and>
          acquireRenderTargetForID dev1 graph
            (js_get (renderTargetIDs pass) (slotIndex DepthStencil)) ex1 = Inr (ds, dev', ex2)) \<and>
       resolveTextureForID ex' = resolveTextureForID ex \<and>
       (\<exists>zs. resolveTextureDeadPool ex' = resolveTextureDeadPool ex @ zs)) \<and>
    (\<forall>d i c e t d' e'.
       acquireResolveTextureOutputForID d graph (Some i) (Some c) e = Inr (t, d', e') \<and>
       backedInv e \<and> aliveDescribed graph e \<and> singleSampled graph i \<longrightarrow>
       t = None \<and> d' = d \<and> e' = e)"
proof -
  note s = single_sampled_schedulePass [OF assms]
  have 1: "backedInv ex'" by (rule backedInv_schedulePass [OF assms(1,2)])
  have 2: "aliveDescribed graph ex'" by (rule s(1))
  have 3: "\<forall>c i. nth_opt (resolveTextureRenderTargetIDs graph) c = Some i \<and>
       singleSampled graph i \<longrightarrow>
       js_get (resolveTextureForID ex') c = js_get (resolveTextureForID ex) c"
    using s(2) by blast
  have 4: "\<forall>slot i c. js_get (renderTargetIDs pass) (slotIndex slot) = Some i \<and>
       js_get (resolveTextureOutputIDs pass) (slotIndex slot) = Some c \<and>
       singleSampled graph i \<longrightarrow>
       resolveAt slot (descriptor pass') =
         (if slot = Color0 \<and> doPresent pass then presentColorTexture else None)"
  proof (intro allI impI)
    fix slot i c
    assume h: "js_get (renderTargetIDs pass) (slotIndex slot) = Some i \<and>
       js_get (resolveTextureOutputIDs pass) (slotIndex slot) = Some c \<and>
       singleSampled graph i"
    show "resolveAt slot (descriptor pass') =
         (if slot = Color0 \<and> doPresent pass then presentColorTexture else None)"
    proof (cases slot)
      case Color0
      show ?thesis
      proof (cases "doPresent pass")
        case True
        from present_color_target [OF assms(1) True] Color0 True show ?thesis by simp
      next
        case False
        from h Color0 have "js_get (renderTargetIDs pass) 0 = Some i"
          "js_get (resolveTextureOutputIDs pass) 0 = Some c" "singleSampled graph i"
          by simp_all
        from s(3) [OF this False] Color0 False show ?thesis by simp
      qed
    next
      case DepthStencil
      with h have "js_get (renderTargetIDs pass) 1 = Some i"
        "js_get (resolveTextureOutputIDs pass) 1 = Some c" "singleSampled graph i"
        by simp_all
      from s(4) [OF this] DepthStencil show ?thesis by simp
    qed
  qed
  have 5: "\<forall>n i rt. n < length (resolveTextureInputIDs pass) \<and>
       nth_opt (resolveTextureRenderTargetIDs graph) (resolveTextureInputIDs pass ! n) = Some i \<and>
       singleSampled graph i \<and>
       js_get (resolveTextureForID ex) (resolveTextureInputIDs pass ! n) = None \<and>
       js_get (renderTargetAliveForID ex) i = Some rt \<longrightarrow>
       rt_texture rt \<noteq> None \<and>
       js_get (resolveTextureInputTextures pass') n = rt_texture rt"
    using s(5) by blast
  have 6: "\<forall>r. released (passUses graph pass r) (js_get (renderTargetUseCount ex) r)
           (js_get (renderTargetUseCount ex') r)"
    using countsStep_schedulePass [OF assms(1)] by (simp add: countsStep_def)
  have 7: "(\<forall>slot c. js_get (resolveTextureOutputIDs pass) (slotIndex slot) = Some c \<and>
         (slot = Color0 \<longrightarrow> \<not> doPresent pass) \<longrightarrow>
         (\<exists>i. js_get (renderTargetIDs pass) (slotIndex slot) = Some i \<and>
              singleSampled graph i)) \<longrightarrow>
       (\<exists>c0 dev1 ex1 ds ex2.
          acquireRenderTargetForID dev graph
            (js_get (renderTargetIDs pass) (slotIndex Color0)) ex = Inr (c0, dev1, ex1) \<and>
          acquireRenderTargetForID dev1 graph
            (js_get (renderTargetIDs pass) (slotIndex DepthStencil)) ex1 = Inr (ds, dev', ex2)) \<and>
       resolveTextureForID ex' = resolveTextureForID ex \<and>
       (\<exists>zs. resolveTextureDeadPool ex' = resolveTextureDeadPool ex @ zs)"
    by (rule impI) (rule single_sampled_device [OF assms])
  have 8: "\<forall>d i c e t d' e'.
       acquireResolveTextureOutputForID d graph (Some i) (Some c) e = Inr (t, d', e') \<and>
       backedInv e \<and> aliveDescribed graph e \<and> singleSampled graph i \<longrightarrow>
       t = None \<and> d' = d \<and> e' = e"
  proof (intro allI, rule impI, elim conjE)
    fix d i c e t d' e'
    assume o: "acquireResolveTextureOutputForID d graph (Some i) (Some c) e = Inr (t, d', e')"
      and b: "backedInv e" and a: "aliveDescribed graph e" and s: "singleSampled graph i"
    from s have "\<forall>c'. Some c = Some c' \<longrightarrow> (\<exists>i'. Some i = Some i' \<and> singleSampled graph i')"
      by simp
    from output_nothing [OF o this b a] show "t = None \<and> d' = d \<and> e' = e" .
  qed
  from 1 2 3 4 5 6 7 8 show ?thesis by (intro conjI)
qed

theorem single_sampled_surface_no_copy_witness:
  "backedInv (countedExecutor (scenarioGraph 1)) \<and>
   aliveDescribed (scenarioGraph 1) (countedExecutor (scenarioGraph 1)) \<and>
   singleSampled (scenarioGraph 1) 0 \<and>
   (\<exists>p1 dev1 ex1 p2 dev2 ex2 rt.
      schedulePass device0 (scenarioGraph 1) (passes (scenarioGraph 1) ! 0) None
        (countedExecutor (scenarioGraph 1)) = Inr (p1, dev1, ex1) \<and>
      colorResolveTo (descriptor p1) = None \<and>
      js_get (resolveTextureForID ex1) 0 = None \<and>
      resolveTextureForID ex1 = resolveTextureForID (countedExecutor (scenarioGraph 1)) \<and>
      js_get (renderTargetAliveForID ex1) 0 = Some rt \<and>
      js_get (renderTargetUseCount ex1) 0 = Some 1 \<and>
      schedulePass dev1 (scenarioGraph 1) (passes (scenarioGraph 1) ! 1) None ex1
        = Inr (p2, dev2, ex2) \<and>
      rt_texture rt \<noteq> None \<and>
      js_get (resolveTextureInputTextures p2) 0 = rt_texture rt \<and>
      js_get (resolveTextureForID ex2) 0 = None \<and>
      js_get (renderTargetUseCount ex2) 0 = Some 0) \<and>
   backedInv (countedExecutor presentCopyGraph) \<and>
   aliveDescribed presentCopyGraph (countedExecutor presentCopyGraph) \<and>
   singleSampled presentCopyGraph 0 \<and> doPresent (passes presentCopyGraph ! 0) \<and>
   (\<exists>p dev1 ex1.
      schedulePass device0 presentCopyGraph (passes presentCopyGraph ! 0) (Some 0)
        (countedExecutor presentCopyGraph) = Inr (p, dev1, ex1) \<and>
      colorResolveTo (descriptor p) = Some 0 \<and>
      js_get (resolveTextureForID ex1) 0 = None)"
proof -
  let ?g = "scenarioGraph 1" and ?ex = "countedExecutor (scenarioGraph 1)"
  let ?run1 = "schedulePass device0 ?g (passes ?g ! 0) None ?ex"
  have alive: "renderTargetAliveForID ?ex = []" "renderTargetDeadPool ?ex = []"
    by (simp_all add: countedExecutor_def countPasses_others fillUseCounts_def
        agePools_def newSceneGraphExecutor_def)
  have inv: "backedInv ?ex" "aliveDescribed ?g ?ex"
    unfolding backedInv_def aliveDescribed_def alive by (simp_all add: js_get_def)
  have single: "singleSampled ?g 0" by code_simp
  have "\<not> isl ?run1" by code_simp
  then obtain p1 dev1 ex1 where run1: "?run1 = Inr (p1, dev1, ex1)"
    by (cases ?run1) auto
  have "\<not> isl (bind_err ?run1 (\<lambda>(p1, dev1, ex1).
            schedulePass dev1 ?g (passes ?g ! 1) None ex1))"
    by code_simp
  with run1 obtain p2 dev2 ex2 where
    run2: "schedulePass dev1 ?g (passes ?g ! 1) None ex1 = Inr (p2, dev2, ex2)"
    by (cases "schedulePass dev1 ?g (passes ?g ! 1) None ex1") auto
  have "map_sum id (\<lambda>(p1, dev1, ex1). js_get (renderTargetAliveForID ex1) 0 \<noteq> None \<and>
          js_get (renderTargetUseCount ex1) 0 = Some 1) ?run1 = Inr True"
    by code_simp
  with run1 obtain rt where rt: "js_get (renderTargetAliveForID ex1) 0 = Some rt"
    and cnt: "js_get (renderTargetUseCount ex1) 0 = Some 1"
    by auto
  have t0: "js_get (resolveTextureForID ?ex) 0 = None" by code_simp
  have g: "nth_opt (resolveTextureRenderTargetIDs ?g) 0 = Some 0"
    "js_get (renderTargetIDs (passes ?g ! 0)) (slotIndex Color0) = Some 0"
    "js_get (resolveTextureOutputIDs (passes ?g ! 0)) (slotIndex Color0) = Some 0"
    "\<not> doPresent (passes ?g ! 0)"
    "resolveTextureInputIDs (passes ?g ! 1) = [0]"
    "passUses ?g (passes ?g ! 1) 0 = 1"
    "js_get (resolveTextureOutputIDs (passes ?g ! 0)) (slotIndex DepthStencil) = None"
    by code_simp+
  note a = single_sampled_surface_no_copy [OF run1 inv]
  note a3 = a [THEN conjunct2, THEN conjunct2, THEN conjunct1, rule_format]
  note a4 = a [THEN conjunct2, THEN conjunct2, THEN conjunct2, THEN conjunct1, rule_format]
  note a7 = a [THEN conjunct2, THEN conjunct2, THEN conjunct2, THEN conjunct2, THEN conjunct2,
      THEN conjunct2, THEN conjunct1]
  from a have inv1: "backedInv ex1" "aliveDescribed ?g ex1" by blast+
  from a3 [OF conjI [OF g(1) single]] t0 have t1: "js_get (resolveTextureForID ex1) 0 = None"
    by simp
  from a4 [OF conjI [OF g(2) conjI [OF g(3) single]]] g(4)
  have c1: "colorResolveTo (descriptor p1) = None" by simp
  have req: "\<forall>slot c. js_get (resolveTextureOutputIDs (passes ?g ! 0)) (slotIndex slot) = Some c \<and>
        (slot = Color0 \<longrightarrow> \<not> doPresent (passes ?g ! 0)) \<longrightarrow>
        (\<exists>i. js_get (renderTargetIDs (passes ?g ! 0)) (slotIndex slot) = Some i \<and>
             singleSampled ?g i)"
  proof (intro allI impI)
    fix slot c
    assume "js_get (resolveTextureOutputIDs (passes ?g ! 0)) (slotIndex slot) = Some c \<and>
        (slot = Color0 \<longrightarrow> \<not> doPresent (passes ?g ! 0))"
    with g(2,7) single
    show "\<exists>i. js_get (renderTargetIDs (passes ?g ! 0)) (slotIndex slot) = Some i \<and>
             singleSampled ?g i"
      by (cases slot) auto
  qed
  from a7 [THEN mp, OF req] have same: "resolveTextureForID ex1 = resolveTextureForID ?ex"
    by (elim conjE)
  note b = single_sampled_surface_no_copy [OF run2 inv1]
  note b3 = b [THEN conjunct2, THEN conjunct2, THEN conjunct1, rule_format]
  note b5 = b [THEN conjunct2, THEN conjunct2, THEN conjunct2, THEN conjunct2, THEN conjunct1,
      rule_format]
  note b6 = b [THEN conjunct2, THEN conjunct2, THEN conjunct2, THEN conjunct2, THEN conjunct2,
      THEN conjunct1, rule_format]
  from b3 [OF conjI [OF g(1) single]] t1 have t2: "js_get (resolveTextureForID ex2) 0 = None"
    by simp
  have "(0::nat) < length (resolveTextureInputIDs (passes ?g ! 1)) \<and>
       nth_opt (resolveTextureRenderTargetIDs ?g) (resolveTextureInputIDs (passes ?g ! 1) ! 0) = Some 0 \<and>
       singleSampled ?g 0 \<and>
       js_get (resolveTextureForID ex1) (resolveTextureInputIDs (passes ?g ! 1) ! 0) = None \<and>
       js_get (renderTargetAliveForID ex1) 0 = Some rt"
    using g(1,5) single t1 rt by simp
  from b5 [OF this] have c2: "rt_texture rt \<noteq> None"
    "js_get (resolveTextureInputTextures p2) 0 = rt_texture rt"
    by simp_all
  from b6 [of 0] g(6) cnt have c3: "js_get (renderTargetUseCount ex2) 0 = Some 0"
    by (simp add: released_def)
  from run1 c1 t1 same rt cnt run2 c2 t2 c3 have A: "\<exists>p1 dev1 ex1 p2 dev2 ex2 rt.
      schedulePass device0 (scenarioGraph 1) (passes (scenarioGraph 1) ! 0) None
        (countedExecutor (scenarioGraph 1)) = Inr (p1, dev1, ex1) \<and>
      colorResolveTo (descriptor p1) = None \<and>
      js_get (resolveTextureForID ex1) 0 = None \<and>
      resolveTextureForID ex1 = resolveTextureForID (countedExecutor (scenarioGraph 1)) \<and>
      js_get (renderTargetAliveForID ex1) 0 = Some rt \<and>
      js_get (renderTargetUseCount ex1) 0 = Some 1 \<and>
      schedulePass dev1 (scenarioGraph 1) (passes (scenarioGraph 1) ! 1) None ex1
        = Inr (p2, dev2, ex2) \<and>
      rt_texture rt \<noteq> None \<and>
      js_get (resolveTextureInputTextures p2) 0 = rt_texture rt \<and>
      js_get (resolveTextureForID ex2) 0 = None \<and>
      js_get (renderTargetUseCount ex2) 0 = Some 0"
    by blast
  \<comment> \<open>the pass flagged present\<close>
  let ?h = presentCopyGraph and ?ey = "countedExecutor presentCopyGraph"
  let ?run = "schedulePass device0 ?h (passes ?h ! 0) (Some 0) ?ey"
  have alive': "renderTargetAliveForID ?ey = []" "renderTargetDeadPool ?ey = []"
    by (simp_all add: countedExecutor_def countPasses_others fillUseCounts_def
        agePools_def newSceneGraphExecutor_def)
  have inv': "backedInv ?ey" "aliveDescribed ?h ?ey"
    unfolding backedInv_def aliveDescribed_def alive' by (simp_all add: js_get_def)
  have h: "singleSampled ?h 0" "doPresent (passes ?h ! 0)"
    "nth_opt (resolveTextureRenderTargetIDs ?h) 0 = Some 0"
    "js_get (renderTargetIDs (passes ?h ! 0)) (slotIndex Color0) = Some 0"
    "js_get (resolveTextureOutputIDs (passes ?h ! 0)) (slotIndex Color0) = Some 0"
    "js_get (resolveTextureForID ?ey) 0 = None"
    by code_simp+
  have "\<not> isl ?run" by code_simp
  then obtain p dev1' ex1' where run: "?run = Inr (p, dev1', ex1')"
    by (cases ?run) auto
  note c = single_sampled_surface_no_copy [OF run inv']
  note c3 = c [THEN conjunct2, THEN conjunct2, THEN conjunct1, rule_format]
  note c4 = c [THEN conjunct2, THEN conjunct2, THEN conjunct2, THEN conjunct1, rule_format]
  from c3 [OF conjI [OF h(3) h(1)]] h(6) have u1: "js_get (resolveTextureForID ex1') 0 = None"
    by simp
  from c4 [OF conjI [OF h(4) conjI [OF h(5) h(1)]]] h(2)
  have u2: "colorResolveTo (descriptor p) = Some 0" by simp
  from run u1 u2 have B: "\<exists>p dev1 ex1.
      schedulePass device0 presentCopyGraph (passes presentCopyGraph ! 0) (Some 0)
        (countedExecutor presentCopyGraph) = Inr (p, dev1, ex1) \<and>
      colorResolveTo (descriptor p) = Some 0 \<and>
      js_get (resolveTextureForID ex1) 0 = None"
    by blast
  from inv single A inv' h(1,2) B show ?thesis by (intro conjI)
qed

end
